(* ===== verification/Defrizer_Prelude.thy ===== *)
theory Defrizer_Prelude
  imports Main "HOL-Library.Word"
begin

text \<open>
  Shared vocabulary of the development: the machine integer types of the C and Go sources, the
  result type that carries every early failure, its sequencing operator, and the generic facts on
  words, lists and results that the component theories rely on.
\<close>

section \<open>Machine integers\<close>

type_synonym u8 = "8 word"
type_synonym u16 = "16 word"
type_synonym u32 = "32 word"
type_synonym u64 = "64 word"

text \<open>Facts that turn pointer and counter arithmetic on words into arithmetic on \<open>nat\<close>.\<close>

named_theorems ptr_simps \<open>word pointer arithmetic as arithmetic on nat\<close>

text \<open>Facts that reduce a sequence of fallible steps.\<close>

named_theorems result_simps \<open>sequencing of fallible computations\<close>

section \<open>Fallible computations\<close>

text \<open>
  A C or Go computation that may stop early is a value of \<open>'e + 'a\<close>: \<open>Inl\<close> carries the
  failure, \<open>Inr\<close> the result. \<open>rbind\<close> runs a continuation on the result only.
\<close>

definition rbind :: "'e + 'a \<Rightarrow> ('a \<Rightarrow> 'e + 'b) \<Rightarrow> 'e + 'b" where
  "rbind m f = (case m of Inl e \<Rightarrow> Inl e | Inr x \<Rightarrow> f x)"

lemma rbind_Inl [simp, result_simps]: "rbind (Inl e) f = Inl e"
  by (simp add: rbind_def)

lemma rbind_Inr [simp, result_simps]: "rbind (Inr x) f = f x"
  by (simp add: rbind_def)

lemma rbind_eq_Inr [result_simps]:
  "rbind m f = Inr y \<longleftrightarrow> (\<exists>x. m = Inr x \<and> f x = Inr y)"
  by (cases m) auto

lemma rbind_eq_Inl:
  "rbind m f = Inl e \<longleftrightarrow> m = Inl e \<or> (\<exists>x. m = Inr x \<and> f x = Inl e)"
  by (cases m) auto

lemma rbind_assoc: "rbind (rbind m f) g = rbind m (\<lambda>x. rbind (f x) g)"
  by (cases m) auto

lemma rbind_cong [fundef_cong]:
  "m = m' \<Longrightarrow> (\<And>x. m' = Inr x \<Longrightarrow> f x = g x) \<Longrightarrow> rbind m f = rbind m' g"
  by (cases m') auto

section \<open>Words\<close>

lemma unat_add_small [ptr_simps]:
  fixes a b :: "'a::len word"
  shows "unat a + unat b < 2 ^ LENGTH('a) \<Longrightarrow> unat (a + b) = unat a + unat b"
  by (simp add: unat_word_ariths)

lemma unat_add_of_nat_small [ptr_simps]:
  fixes a :: "'a::len word"
  assumes "unat a + n < 2 ^ LENGTH('a)"
  shows "unat (a + of_nat n) = unat a + n"
proof -
  from assms have "n < 2 ^ LENGTH('a)" by simp
  then have "unat (of_nat n :: 'a word) = n" by (simp add: unat_of_nat)
  with assms show ?thesis by (simp add: unat_add_small)
qed

lemma unat_bound: "unat (x :: 'a::len word) < 2 ^ LENGTH('a)"
  by (rule unsigned_less)

lemma unat_ucast_u32_u64 [simp]: "unat (ucast (x :: u32) :: u64) = unat x"
  using unat_bound [of x] by (simp add: unsigned_ucast_eq take_bit_nat_eq_self)

lemma unat_u32_bound: "unat (x :: u32) < 4294967296"
  using unat_bound [of x] by simp

lemma unat_u16_bound: "unat (x :: u16) < 65536"
  using unat_bound [of x] by simp

lemma unat_u8_bound: "unat (x :: u8) < 256"
  using unat_bound [of x] by simp

section \<open>Lists\<close>

lemma take_drop_one:
  assumes "i < length xs"
  shows "take 1 (drop i xs) = [xs ! i]"
  using assms by (simp add: take_Suc_conv_app_nth Cons_nth_drop_Suc [symmetric])

lemma take_drop_two:
  assumes "Suc i < length xs"
  shows "take 2 (drop i xs) = [xs ! i, xs ! Suc i]"
  using assms
  by (simp add: numeral_2_eq_2 Cons_nth_drop_Suc [symmetric])

end
