(* ===== verification/C_Layout.thy ===== *)
theory C_Layout
  imports Defrizer_Prelude
begin

text \<open>
  The part of the C language that the headers under \<^verbatim>\<open>src/\<close> rely on to fix a binary
  interface: how \<open>struct\<close>, \<open>union\<close> and bit-field members are placed, what \<open>sizeof\<close> and
  \<open>offsetof\<close> give, and how an \<open>enum\<close> numbers its enumerators. Sizes and alignments are those
  of the BPF target: every fixed-width integer is aligned to its size and pointers have 8 bytes.
\<close>

section \<open>Types\<close>

text \<open>
  \<open>CInt n\<close> is an integer of \<open>n\<close> bytes, \<open>CAligned a t\<close> a type declared with
  \<open>__attribute__((aligned(a)))\<close>. A member is a field or a bit-field \<open>CBits x s w\<close> of \<open>w\<close>
  bits with a declared type of \<open>s\<close> bytes; an unnamed member has the empty name.
\<close>

datatype ctype =
    CInt nat
  | CPtr
  | CArr ctype nat
  | CStruct "cfield list"
  | CUnion "cfield list"
  | CAligned nat ctype
and cfield =
    CField string ctype
  | CBits string nat nat

abbreviation c_u8 :: ctype where "c_u8 \<equiv> CInt 1"
abbreviation c_u16 :: ctype where "c_u16 \<equiv> CInt 2"
abbreviation c_u32 :: ctype where "c_u32 \<equiv> CInt 4"
abbreviation c_u64 :: ctype where "c_u64 \<equiv> CInt 8"

definition align_up :: "nat \<Rightarrow> nat \<Rightarrow> nat" where
  "align_up x a = (x + a - 1) div a * a"

fun alignof :: "ctype \<Rightarrow> nat" and falignof :: "cfield \<Rightarrow> nat" where
  "alignof (CInt n) = n"
| "alignof CPtr = 8"
| "alignof (CArr t n) = alignof t"
| "alignof (CStruct fs) = fold max (map falignof fs) 1"
| "alignof (CUnion fs) = fold max (map falignof fs) 1"
| "alignof (CAligned a t) = max a (alignof t)"
| "falignof (CField x t) = alignof t"
| "falignof (CBits x s w) = (if x = [] then 1 else s)"

text \<open>
  Offsets inside a \<open>struct\<close> are counted in bits. A field starts at the next multiple of its
  alignment; a bit-field continues where the last member ended unless it would straddle a boundary
  of its declared type.
\<close>

fun sizeof :: "ctype \<Rightarrow> nat"
  and field_bits :: "cfield \<Rightarrow> nat"
  and field_start :: "nat \<Rightarrow> cfield \<Rightarrow> nat"
  and struct_end :: "nat \<Rightarrow> cfield list \<Rightarrow> nat" where
  "sizeof (CInt n) = n"
| "sizeof CPtr = 8"
| "sizeof (CArr t n) = n * sizeof t"
| "sizeof (CStruct fs) = align_up (struct_end 0 fs) (8 * alignof (CStruct fs)) div 8"
| "sizeof (CUnion fs) =
     align_up (fold max (map field_bits fs) 0) (8 * alignof (CUnion fs)) div 8"
| "sizeof (CAligned a t) = align_up (sizeof t) (alignof (CAligned a t))"
| "field_bits (CField x t) = 8 * sizeof t"
| "field_bits (CBits x s w) = w"
| "field_start p (CField x t) = align_up p (8 * alignof t)"
| "field_start p (CBits x s w) = (if p mod (8 * s) + w \<le> 8 * s then p else align_up p (8 * s))"
| "struct_end p [] = p"
| "struct_end p (f # fs) = struct_end (field_start p f + field_bits f) fs"

fun field_name :: "cfield \<Rightarrow> string" where
  "field_name (CField x t) = x"
| "field_name (CBits x s w) = x"

text \<open>The members of a \<open>struct\<close> with their first bit and their number of bits.\<close>

fun layout :: "nat \<Rightarrow> cfield list \<Rightarrow> (string \<times> nat \<times> nat) list" where
  "layout p [] = []"
| "layout p (f # fs) =
     (field_name f, field_start p f, field_bits f) # layout (field_start p f + field_bits f) fs"

fun members :: "ctype \<Rightarrow> cfield list" where
  "members (CStruct fs) = fs"
| "members (CUnion fs) = fs"
| "members (CAligned a t) = members t"
| "members (CArr t n) = []"
| "members (CInt n) = []"
| "members CPtr = []"

text \<open>\<open>offsetof (t, x)\<close> in bytes, for a direct member of a \<open>struct\<close>.\<close>

definition offsetof :: "ctype \<Rightarrow> string \<Rightarrow> nat option" where
  "offsetof t x = map_option (\<lambda>(p, n). p div 8) (map_of (layout 0 (members t)) x)"

text \<open>The bits of a \<open>struct\<close> that belong to no member.\<close>

definition padding_bits :: "ctype \<Rightarrow> nat" where
  "padding_bits t = 8 * sizeof t - sum_list (map (snd \<circ> snd) (layout 0 (members t)))"

section \<open>Alignment\<close>

lemma align_up_ge: "0 < a \<Longrightarrow> x \<le> align_up x a"
proof -
  assume "0 < a"
  then have "x + a - 1 < (x + a - 1) div a * a + a"
    using dividend_less_div_times [of a "x + a - 1"] by simp
  with \<open>0 < a\<close> show ?thesis by (simp add: align_up_def)
qed

lemma align_up_dvd [simp, intro]: "a dvd align_up x a"
  by (simp add: align_up_def)

lemma align_up_less: "0 < a \<Longrightarrow> align_up x a < x + a"
proof -
  assume "0 < a"
  have "align_up x a \<le> x + a - 1"
    by (simp add: align_up_def)
  with \<open>0 < a\<close> show ?thesis by simp
qed

lemma align_up_id:
  assumes "0 < a" and "a dvd x"
  shows "align_up x a = x"
proof -
  from assms(2) obtain k where "x = a * k" by (auto elim: dvdE)
  with assms(1) have "x + a - 1 = (a - 1) + k * a" by (simp add: mult.commute)
  moreover have "((a - 1) + k * a) div a = k"
    using assms(1) by (subst div_mult_self1) simp_all
  ultimately have "(x + a - 1) div a = k" by (rule ssubst)
  with \<open>x = a * k\<close> show ?thesis by (simp add: align_up_def)
qed

lemma fold_max_ge: "b \<le> fold max xs (b :: nat)"
  by (induction xs arbitrary: b) (auto intro: order_trans [OF max.cobounded2])

lemma fold_max_upper: "x \<in> set xs \<Longrightarrow> x \<le> fold max xs (b :: nat)"
proof (induction xs arbitrary: b)
  case Nil
  then show ?case by simp
next
  case (Cons y ys)
  then show ?case
    using fold_max_ge [of "max y b" ys] by auto
qed

section \<open>Well-formed types and their layout\<close>

fun ctype_ok :: "ctype \<Rightarrow> bool" and cfield_ok :: "cfield \<Rightarrow> bool" where
  "ctype_ok (CInt n) \<longleftrightarrow> 0 < n"
| "ctype_ok CPtr \<longleftrightarrow> True"
| "ctype_ok (CArr t n) \<longleftrightarrow> ctype_ok t"
| "ctype_ok (CStruct fs) \<longleftrightarrow> list_all cfield_ok fs"
| "ctype_ok (CUnion fs) \<longleftrightarrow> list_all cfield_ok fs"
| "ctype_ok (CAligned a t) \<longleftrightarrow> ctype_ok t"
| "cfield_ok (CField x t) \<longleftrightarrow> ctype_ok t"
| "cfield_ok (CBits x s w) \<longleftrightarrow> 0 < s \<and> w \<le> 8 * s"

lemma alignof_pos: "ctype_ok t \<Longrightarrow> 0 < alignof t"
proof (induction t rule: alignof_falignof.induct(1) [where Q = "\<lambda>f. cfield_ok f \<longrightarrow> 0 < falignof f"])
  case (4 fs)
  then show ?case using fold_max_ge [of 1 "map falignof fs"] by simp
next
  case (5 fs)
  then show ?case using fold_max_ge [of 1 "map falignof fs"] by simp
qed auto

lemma falignof_pos: "cfield_ok f \<Longrightarrow> 0 < falignof f"
  by (cases f) (auto simp: alignof_pos)

lemma field_start_ge: "cfield_ok f \<Longrightarrow> p \<le> field_start p f"
  by (cases f) (auto intro: align_up_ge simp: alignof_pos)

lemma field_start_aligned: "8 * alignof t dvd field_start p (CField x t)"
  by simp

text \<open>A bit-field never straddles a boundary of its declared type.\<close>

lemma bitfield_inside_unit:
  assumes "cfield_ok (CBits x s w)" and "0 < w"
  shows "field_start p (CBits x s w) div (8 * s) = (field_start p (CBits x s w) + w - 1) div (8 * s)"
proof -
  define q where "q = field_start p (CBits x s w)"
  have "q mod (8 * s) + w \<le> 8 * s"
    using assms by (auto simp: q_def)
  then have "q mod (8 * s) + (w - 1) < 8 * s" using assms(2) by simp
  moreover have "q + w - 1 = q div (8 * s) * (8 * s) + (q mod (8 * s) + (w - 1))"
    using assms(2) div_mult_mod_eq [of q "8 * s"] by linarith
  ultimately have "(q + w - 1) div (8 * s) = q div (8 * s)"
    by (metis add.commute add_cancel_left_right div_less div_mult_self3 less_nat_zero_code
        mult.commute neq0_conv)
  then show ?thesis by (simp add: q_def)
qed

lemma struct_end_ge: "list_all cfield_ok fs \<Longrightarrow> p \<le> struct_end p fs"
proof (induction fs arbitrary: p)
  case (Cons f fs)
  then have "field_start p f + field_bits f \<le> struct_end p (f # fs)" by simp
  with Cons.prems show ?case using field_start_ge [of f p] by simp
qed simp

lemma layout_bounds:
  "list_all cfield_ok fs \<Longrightarrow> (x, q, n) \<in> set (layout p fs) \<Longrightarrow> p \<le> q \<and> q + n \<le> struct_end p fs"
proof (induction fs arbitrary: p)
  case (Cons f fs)
  let ?p' = "field_start p f + field_bits f"
  show ?case
  proof (cases "(x, q, n) \<in> set (layout ?p' fs)")
    case True
    then show ?thesis using Cons field_start_ge [of f p] by fastforce
  next
    case False
    then show ?thesis
      using Cons.prems field_start_ge [of f p] struct_end_ge [of fs ?p'] by auto
  qed
qed simp

lemma layout_disjoint:
  "list_all cfield_ok fs \<Longrightarrow> sorted_wrt (\<lambda>(x, p, n) (y, q, m). p + n \<le> q) (layout p fs)"
  by (induction fs arbitrary: p) (auto dest: layout_bounds)

lemma struct_end_le_sizeof:
  assumes "ctype_ok (CStruct fs)"
  shows "struct_end 0 fs \<le> 8 * sizeof (CStruct fs)"
proof -
  let ?a = "8 * alignof (CStruct fs)"
  have "0 < ?a" using alignof_pos [OF assms] by simp
  then have "struct_end 0 fs \<le> align_up (struct_end 0 fs) ?a" by (rule align_up_ge)
  moreover have "8 dvd align_up (struct_end 0 fs) ?a"
    by (meson align_up_dvd dvd_mult_left)
  ultimately show ?thesis by simp
qed

lemma div_8_dvd: "8 * a dvd (x :: nat) \<Longrightarrow> a dvd x div 8"
  by (auto elim!: dvdE)

lemma alignof_dvd_sizeof: "alignof t dvd sizeof t"
  by (induction t rule: alignof_falignof.induct(1) [where Q = "\<lambda>f. True"])
    (auto simp del: alignof.simps(4-6) intro: div_8_dvd)

section \<open>Enumerations\<close>

text \<open>
  An enumerator without a value is one more than its predecessor (the first is 0); a value is an
  integer constant, a shifted constant or the name of an earlier enumerator.
\<close>

datatype enum_init = Next | Val int | Shl int nat | Same string

fun enum_vals :: "int \<Rightarrow> (string \<times> int) list \<Rightarrow> (string \<times> enum_init) list \<Rightarrow> (string \<times> int) list" where
  "enum_vals nxt acc [] = acc"
| "enum_vals nxt acc ((x, i) # es) =
     (let v = (case i of Next \<Rightarrow> nxt | Val k \<Rightarrow> k | Shl k n \<Rightarrow> push_bit n k
               | Same y \<Rightarrow> (case map_of acc y of None \<Rightarrow> nxt | Some k \<Rightarrow> k))
      in enum_vals (v + 1) (acc @ [(x, v)]) es)"

definition c_enum :: "(string \<times> enum_init) list \<Rightarrow> (string \<times> int) list" where
  "c_enum es = enum_vals 0 [] es"

definition enum_val :: "(string \<times> enum_init) list \<Rightarrow> string \<Rightarrow> int option" where
  "enum_val es x = map_of (c_enum es) x"

lemma enum_vals_names: "map fst (enum_vals n acc es) = map fst acc @ map fst es"
  by (induction n acc es rule: enum_vals.induct) (auto simp: Let_def)

text \<open>Where every enumerator is implicit, the values count up from 0.\<close>

lemma enum_vals_implicit:
  "list_all (\<lambda>e. snd e = Next) es \<Longrightarrow>
   enum_vals n acc es = acc @ zip (map fst es) (map (\<lambda>k. n + int k) [0..<length es])"
proof (induction es arbitrary: n acc)
  case (Cons e es)
  have "map (\<lambda>k. n + 1 + int k) [0..<length es] = map (\<lambda>k. n + int k) [1..<length (e # es)]"
    by (simp add: map_Suc_upt [symmetric] del: upt_Suc)
  with Cons show ?case
    by (cases e) (simp add: Let_def upt_conv_Cons del: upt_Suc)
qed simp

lemma c_enum_implicit:
  assumes "list_all (\<lambda>e. snd e = Next) es" and "i < length es"
  shows "c_enum es ! i = (fst (es ! i), int i)"
  using assms by (simp add: c_enum_def enum_vals_implicit)

end
