(* ===== verification/Bpf_Helper_Defs.thy ===== *)
theory Bpf_Helper_Defs
  imports Defrizer_Prelude
begin

unbundle bit_operations_syntax

text \<open>
  The helper functions of the kernel as \<^verbatim>\<open>include/bpf/bpf_helper_defs.h\<close> declares them: each
  is a function pointer whose constant value is the number in the \<open>imm\<close> field of the
  \<open>BPF_CALL\<close> instruction that calls it. A declaration is its name, its C prototype, that number,
  and the class of results that its comment promises under \<open>Returns\<close>. What a helper does is
  kernel code and not modelled; the programs rely on the promised result alone.
\<close>

section \<open>Prototypes and promised results\<close>

datatype c_scalar = U16 | U32 | U64 | S32 | S64 | SInt | SLong | ULong | BE16 | BE32 | Wsum | Char

datatype proto_type = Void | Scalar c_scalar | Ptr bool string | Varargs

text \<open>
  \<open>Value_Or_Neg\<close> is a quantity on success and a negative error otherwise, \<open>Pos_Or_Neg\<close> the
  same where the quantity is strictly positive, \<open>Redirect_Or_Flags\<close> is \<open>XDP_REDIRECT\<close> or the
  two lower bits of the argument \<open>flags\<close>.
\<close>

datatype ret_doc =
    Nothing | Value_Always | Zero_Always | Zero_Or_Neg | Value_Or_Neg | Pos_Or_Neg
  | Bool_Always | Bool_Or_Neg | Ptr_Or_Null | Ptr_Always | Sk_Verdict
  | Xdp_Redirect_Or_Aborted | Redirect_Or_Flags

datatype helper =
  Helper (h_name: string) (h_ret: proto_type) (h_params: "(proto_type \<times> string) list")
    (h_id: nat) (h_doc: ret_doc)

text \<open>The results a helper may return, with its \<open>flags\<close> argument where the promise uses it.\<close>

fun ret_ok :: "ret_doc \<Rightarrow> u64 \<Rightarrow> int \<Rightarrow> bool" where
  "ret_ok Nothing flags r \<longleftrightarrow> True"
| "ret_ok Value_Always flags r \<longleftrightarrow> True"
| "ret_ok Zero_Always flags r \<longleftrightarrow> r = 0"
| "ret_ok Zero_Or_Neg flags r \<longleftrightarrow> r \<le> 0"
| "ret_ok Value_Or_Neg flags r \<longleftrightarrow> True"
| "ret_ok Pos_Or_Neg flags r \<longleftrightarrow> r \<noteq> 0"
| "ret_ok Bool_Always flags r \<longleftrightarrow> r = 0 \<or> r = 1"
| "ret_ok Bool_Or_Neg flags r \<longleftrightarrow> r \<le> 1"
| "ret_ok Ptr_Or_Null flags r \<longleftrightarrow> True"
| "ret_ok Ptr_Always flags r \<longleftrightarrow> r \<noteq> 0"
| "ret_ok Sk_Verdict flags r \<longleftrightarrow> r = 0 \<or> r = 1"
| "ret_ok Xdp_Redirect_Or_Aborted flags r \<longleftrightarrow> r = 4 \<or> r = 0"
| "ret_ok Redirect_Or_Flags flags r \<longleftrightarrow> r = 4 \<or> r = uint (flags AND 3)"

section \<open>The declarations\<close>

text \<open>The structures that the header declares without defining them.\<close>

definition bpf_forward_structs :: "string list" where
  "bpf_forward_structs = [
     ''bpf_fib_lookup'', ''bpf_sk_lookup'', ''bpf_perf_event_data'', ''bpf_perf_event_value'',
     ''bpf_pidns_info'', ''bpf_sock'', ''bpf_sock_addr'', ''bpf_sock_ops'', ''bpf_sock_tuple'',
     ''bpf_spin_lock'', ''bpf_sysctl'', ''bpf_tcp_sock'', ''bpf_tunnel_key'',
     ''bpf_xfrm_state'', ''pt_regs'', ''sk_reuseport_md'', ''sockaddr'', ''tcphdr'',
     ''seq_file'', ''tcp6_sock'', ''tcp_sock'', ''tcp_timewait_sock'', ''tcp_request_sock'',
     ''udp6_sock'', ''task_struct'', ''__sk_buff'', ''sk_msg_md'', ''xdp_md'']"

definition bpf_map_lookup_elem_decl :: helper where
  "bpf_map_lookup_elem_decl = Helper ''bpf_map_lookup_elem'' (Ptr False ''void'')
     [(Ptr False ''void'', ''map''),
      (Ptr True ''void'', ''key'')]
     1 Ptr_Or_Null"

definition bpf_map_update_elem_decl :: helper where
  "bpf_map_update_elem_decl = Helper ''bpf_map_update_elem'' (Scalar SLong)
     [(Ptr False ''void'', ''map''),
      (Ptr True ''void'', ''key''),
      (Ptr True ''void'', ''value''),
      (Scalar U64, ''flags'')]
     2 Zero_Or_Neg"

definition bpf_map_delete_elem_decl :: helper where
  "bpf_map_delete_elem_decl = Helper ''bpf_map_delete_elem'' (Scalar SLong)
     [(Ptr False ''void'', ''map''),
      (Ptr True ''void'', ''key'')]
     3 Zero_Or_Neg"

definition bpf_probe_read_decl :: helper where
  "bpf_probe_read_decl = Helper ''bpf_probe_read'' (Scalar SLong)
     [(Ptr False ''void'', ''dst''),
      (Scalar U32, ''size''),
      (Ptr True ''void'', ''unsafe_ptr'')]
     4 Zero_Or_Neg"

definition bpf_ktime_get_ns_decl :: helper where
  "bpf_ktime_get_ns_decl = Helper ''bpf_ktime_get_ns'' (Scalar U64)
     []
     5 Value_Always"

definition bpf_trace_printk_decl :: helper where
  "bpf_trace_printk_decl = Helper ''bpf_trace_printk'' (Scalar SLong)
     [(Ptr True ''char'', ''fmt''),
      (Scalar U32, ''fmt_size''),
      (Varargs, '''')]
     6 Value_Or_Neg"

definition bpf_get_prandom_u32_decl :: helper where
  "bpf_get_prandom_u32_decl = Helper ''bpf_get_prandom_u32'' (Scalar U32)
     []
     7 Value_Always"

definition bpf_get_smp_processor_id_decl :: helper where
  "bpf_get_smp_processor_id_decl = Helper ''bpf_get_smp_processor_id'' (Scalar U32)
     []
     8 Value_Always"

definition bpf_skb_store_bytes_decl :: helper where
  "bpf_skb_store_bytes_decl = Helper ''bpf_skb_store_bytes'' (Scalar SLong)
     [(Ptr False ''struct __sk_buff'', ''skb''),
      (Scalar U32, ''offset''),
      (Ptr True ''void'', ''from''),
      (Scalar U32, ''len''),
      (Scalar U64, ''flags'')]
     9 Zero_Or_Neg"

definition bpf_l3_csum_replace_decl :: helper where
  "bpf_l3_csum_replace_decl = Helper ''bpf_l3_csum_replace'' (Scalar SLong)
     [(Ptr False ''struct __sk_buff'', ''skb''),
      (Scalar U32, ''offset''),
      (Scalar U64, ''from''),
      (Scalar U64, ''to''),
      (Scalar U64, ''size'')]
     10 Zero_Or_Neg"

definition bpf_l4_csum_replace_decl :: helper where
  "bpf_l4_csum_replace_decl = Helper ''bpf_l4_csum_replace'' (Scalar SLong)
     [(Ptr False ''struct __sk_buff'', ''skb''),
      (Scalar U32, ''offset''),
      (Scalar U64, ''from''),
      (Scalar U64, ''to''),
      (Scalar U64, ''flags'')]
     11 Zero_Or_Neg"

definition bpf_tail_call_decl :: helper where
  "bpf_tail_call_decl = Helper ''bpf_tail_call'' (Scalar SLong)
     [(Ptr False ''void'', ''ctx''),
      (Ptr False ''void'', ''prog_array_map''),
      (Scalar U32, ''index'')]
     12 Zero_Or_Neg"

definition bpf_clone_redirect_decl :: helper where
  "bpf_clone_redirect_decl = Helper ''bpf_clone_redirect'' (Scalar SLong)
     [(Ptr False ''struct __sk_buff'', ''skb''),
      (Scalar U32, ''ifindex''),
      (Scalar U64, ''flags'')]
     13 Zero_Or_Neg"

definition bpf_get_current_pid_tgid_decl :: helper where
  "bpf_get_current_pid_tgid_decl = Helper ''bpf_get_current_pid_tgid'' (Scalar U64)
     []
     14 Value_Always"

definition bpf_get_current_uid_gid_decl :: helper where
  "bpf_get_current_uid_gid_decl = Helper ''bpf_get_current_uid_gid'' (Scalar U64)
     []
     15 Value_Always"

definition bpf_get_current_comm_decl :: helper where
  "bpf_get_current_comm_decl = Helper ''bpf_get_current_comm'' (Scalar SLong)
     [(Ptr False ''void'', ''buf''),
      (Scalar U32, ''size_of_buf'')]
     16 Zero_Or_Neg"

definition bpf_get_cgroup_classid_decl :: helper where
  "bpf_get_cgroup_classid_decl = Helper ''bpf_get_cgroup_classid'' (Scalar U32)
     [(Ptr False ''struct __sk_buff'', ''skb'')]
     17 Value_Always"

definition bpf_skb_vlan_push_decl :: helper where
  "bpf_skb_vlan_push_decl = Helper ''bpf_skb_vlan_push'' (Scalar SLong)
     [(Ptr False ''struct __sk_buff'', ''skb''),
      (Scalar BE16, ''vlan_proto''),
      (Scalar U16, ''vlan_tci'')]
     18 Zero_Or_Neg"

definition bpf_skb_vlan_pop_decl :: helper where
  "bpf_skb_vlan_pop_decl = Helper ''bpf_skb_vlan_pop'' (Scalar SLong)
     [(Ptr False ''struct __sk_buff'', ''skb'')]
     19 Zero_Or_Neg"

definition bpf_skb_get_tunnel_key_decl :: helper where
  "bpf_skb_get_tunnel_key_decl = Helper ''bpf_skb_get_tunnel_key'' (Scalar SLong)
     [(Ptr False ''struct __sk_buff'', ''skb''),
      (Ptr False ''struct bpf_tunnel_key'', ''key''),
      (Scalar U32, ''size''),
      (Scalar U64, ''flags'')]
     20 Zero_Or_Neg"

definition bpf_skb_set_tunnel_key_decl :: helper where
  "bpf_skb_set_tunnel_key_decl = Helper ''bpf_skb_set_tunnel_key'' (Scalar SLong)
     [(Ptr False ''struct __sk_buff'', ''skb''),
      (Ptr False ''struct bpf_tunnel_key'', ''key''),
      (Scalar U32, ''size''),
      (Scalar U64, ''flags'')]
     21 Zero_Or_Neg"

definition bpf_perf_event_read_decl :: helper where
  "bpf_perf_event_read_decl = Helper ''bpf_perf_event_read'' (Scalar U64)
     [(Ptr False ''void'', ''map''),
      (Scalar U64, ''flags'')]
     22 Value_Or_Neg"

definition bpf_redirect_decl :: helper where
  "bpf_redirect_decl = Helper ''bpf_redirect'' (Scalar SLong)
     [(Scalar U32, ''ifindex''),
      (Scalar U64, ''flags'')]
     23 Xdp_Redirect_Or_Aborted"

definition bpf_get_route_realm_decl :: helper where
  "bpf_get_route_realm_decl = Helper ''bpf_get_route_realm'' (Scalar U32)
     [(Ptr False ''struct __sk_buff'', ''skb'')]
     24 Value_Always"

definition bpf_perf_event_output_decl :: helper where
  "bpf_perf_event_output_decl = Helper ''bpf_perf_event_output'' (Scalar SLong)
     [(Ptr False ''void'', ''ctx''),
      (Ptr False ''void'', ''map''),
      (Scalar U64, ''flags''),
      (Ptr False ''void'', ''data''),
      (Scalar U64, ''size'')]
     25 Zero_Or_Neg"

definition bpf_skb_load_bytes_decl :: helper where
  "bpf_skb_load_bytes_decl = Helper ''bpf_skb_load_bytes'' (Scalar SLong)
     [(Ptr True ''void'', ''skb''),
      (Scalar U32, ''offset''),
      (Ptr False ''void'', ''to''),
      (Scalar U32, ''len'')]
     26 Zero_Or_Neg"

definition bpf_get_stackid_decl :: helper where
  "bpf_get_stackid_decl = Helper ''bpf_get_stackid'' (Scalar SLong)
     [(Ptr False ''void'', ''ctx''),
      (Ptr False ''void'', ''map''),
      (Scalar U64, ''flags'')]
     27 Value_Or_Neg"

definition bpf_csum_diff_decl :: helper where
  "bpf_csum_diff_decl = Helper ''bpf_csum_diff'' (Scalar S64)
     [(Ptr False ''__be32'', ''from''),
      (Scalar U32, ''from_size''),
      (Ptr False ''__be32'', ''to''),
      (Scalar U32, ''to_size''),
      (Scalar Wsum, ''seed'')]
     28 Value_Or_Neg"

definition bpf_skb_get_tunnel_opt_decl :: helper where
  "bpf_skb_get_tunnel_opt_decl = Helper ''bpf_skb_get_tunnel_opt'' (Scalar SLong)
     [(Ptr False ''struct __sk_buff'', ''skb''),
      (Ptr False ''void'', ''opt''),
      (Scalar U32, ''size'')]
     29 Value_Always"

definition bpf_skb_set_tunnel_opt_decl :: helper where
  "bpf_skb_set_tunnel_opt_decl = Helper ''bpf_skb_set_tunnel_opt'' (Scalar SLong)
     [(Ptr False ''struct __sk_buff'', ''skb''),
      (Ptr False ''void'', ''opt''),
      (Scalar U32, ''size'')]
     30 Zero_Or_Neg"

definition bpf_skb_change_proto_decl :: helper where
  "bpf_skb_change_proto_decl = Helper ''bpf_skb_change_proto'' (Scalar SLong)
     [(Ptr False ''struct __sk_buff'', ''skb''),
      (Scalar BE16, ''proto''),
      (Scalar U64, ''flags'')]
     31 Zero_Or_Neg"

definition bpf_skb_change_type_decl :: helper where
  "bpf_skb_change_type_decl = Helper ''bpf_skb_change_type'' (Scalar SLong)
     [(Ptr False ''struct __sk_buff'', ''skb''),
      (Scalar U32, ''type'')]
     32 Zero_Or_Neg"

definition bpf_skb_under_cgroup_decl :: helper where
  "bpf_skb_under_cgroup_decl = Helper ''bpf_skb_under_cgroup'' (Scalar SLong)
     [(Ptr False ''struct __sk_buff'', ''skb''),
      (Ptr False ''void'', ''map''),
      (Scalar U32, ''index'')]
     33 Bool_Or_Neg"

definition bpf_get_hash_recalc_decl :: helper where
  "bpf_get_hash_recalc_decl = Helper ''bpf_get_hash_recalc'' (Scalar U32)
     [(Ptr False ''struct __sk_buff'', ''skb'')]
     34 Value_Always"

definition bpf_get_current_task_decl :: helper where
  "bpf_get_current_task_decl = Helper ''bpf_get_current_task'' (Scalar U64)
     []
     35 Value_Always"

definition bpf_probe_write_user_decl :: helper where
  "bpf_probe_write_user_decl = Helper ''bpf_probe_write_user'' (Scalar SLong)
     [(Ptr False ''void'', ''dst''),
      (Ptr True ''void'', ''src''),
      (Scalar U32, ''len'')]
     36 Zero_Or_Neg"

definition bpf_current_task_under_cgroup_decl :: helper where
  "bpf_current_task_under_cgroup_decl = Helper ''bpf_current_task_under_cgroup'' (Scalar SLong)
     [(Ptr False ''void'', ''map''),
      (Scalar U32, ''index'')]
     37 Bool_Or_Neg"

definition bpf_skb_change_tail_decl :: helper where
  "bpf_skb_change_tail_decl = Helper ''bpf_skb_change_tail'' (Scalar SLong)
     [(Ptr False ''struct __sk_buff'', ''skb''),
      (Scalar U32, ''len''),
      (Scalar U64, ''flags'')]
     38 Zero_Or_Neg"

definition bpf_skb_pull_data_decl :: helper where
  "bpf_skb_pull_data_decl = Helper ''bpf_skb_pull_data'' (Scalar SLong)
     [(Ptr False ''struct __sk_buff'', ''skb''),
      (Scalar U32, ''len'')]
     39 Zero_Or_Neg"

definition bpf_csum_update_decl :: helper where
  "bpf_csum_update_decl = Helper ''bpf_csum_update'' (Scalar S64)
     [(Ptr False ''struct __sk_buff'', ''skb''),
      (Scalar Wsum, ''csum'')]
     40 Value_Or_Neg"

definition bpf_set_hash_invalid_decl :: helper where
  "bpf_set_hash_invalid_decl = Helper ''bpf_set_hash_invalid'' (Void)
     [(Ptr False ''struct __sk_buff'', ''skb'')]
     41 Nothing"

definition bpf_get_numa_node_id_decl :: helper where
  "bpf_get_numa_node_id_decl = Helper ''bpf_get_numa_node_id'' (Scalar SLong)
     []
     42 Value_Always"

definition bpf_skb_change_head_decl :: helper where
  "bpf_skb_change_head_decl = Helper ''bpf_skb_change_head'' (Scalar SLong)
     [(Ptr False ''struct __sk_buff'', ''skb''),
      (Scalar U32, ''len''),
      (Scalar U64, ''flags'')]
     43 Zero_Or_Neg"

definition bpf_xdp_adjust_head_decl :: helper where
  "bpf_xdp_adjust_head_decl = Helper ''bpf_xdp_adjust_head'' (Scalar SLong)
     [(Ptr False ''struct xdp_md'', ''xdp_md''),
      (Scalar SInt, ''delta'')]
     44 Zero_Or_Neg"

definition bpf_probe_read_str_decl :: helper where
  "bpf_probe_read_str_decl = Helper ''bpf_probe_read_str'' (Scalar SLong)
     [(Ptr False ''void'', ''dst''),
      (Scalar U32, ''size''),
      (Ptr True ''void'', ''unsafe_ptr'')]
     45 Pos_Or_Neg"

definition bpf_get_socket_cookie_decl :: helper where
  "bpf_get_socket_cookie_decl = Helper ''bpf_get_socket_cookie'' (Scalar U64)
     [(Ptr False ''void'', ''ctx'')]
     46 Value_Always"

definition bpf_get_socket_uid_decl :: helper where
  "bpf_get_socket_uid_decl = Helper ''bpf_get_socket_uid'' (Scalar U32)
     [(Ptr False ''struct __sk_buff'', ''skb'')]
     47 Value_Always"

definition bpf_set_hash_decl :: helper where
  "bpf_set_hash_decl = Helper ''bpf_set_hash'' (Scalar SLong)
     [(Ptr False ''struct __sk_buff'', ''skb''),
      (Scalar U32, ''hash'')]
     48 Zero_Always"

definition bpf_setsockopt_decl :: helper where
  "bpf_setsockopt_decl = Helper ''bpf_setsockopt'' (Scalar SLong)
     [(Ptr False ''void'', ''bpf_socket''),
      (Scalar SInt, ''level''),
      (Scalar SInt, ''optname''),
      (Ptr False ''void'', ''optval''),
      (Scalar SInt, ''optlen'')]
     49 Zero_Or_Neg"

definition bpf_skb_adjust_room_decl :: helper where
  "bpf_skb_adjust_room_decl = Helper ''bpf_skb_adjust_room'' (Scalar SLong)
     [(Ptr False ''struct __sk_buff'', ''skb''),
      (Scalar S32, ''len_diff''),
      (Scalar U32, ''mode''),
      (Scalar U64, ''flags'')]
     50 Zero_Or_Neg"

definition bpf_redirect_map_decl :: helper where
  "bpf_redirect_map_decl = Helper ''bpf_redirect_map'' (Scalar SLong)
     [(Ptr False ''void'', ''map''),
      (Scalar U32, ''key''),
      (Scalar U64, ''flags'')]
     51 Redirect_Or_Flags"

definition bpf_sk_redirect_map_decl :: helper where
  "bpf_sk_redirect_map_decl = Helper ''bpf_sk_redirect_map'' (Scalar SLong)
     [(Ptr False ''struct __sk_buff'', ''skb''),
      (Ptr False ''void'', ''map''),
      (Scalar U32, ''key''),
      (Scalar U64, ''flags'')]
     52 Sk_Verdict"

definition bpf_sock_map_update_decl :: helper where
  "bpf_sock_map_update_decl = Helper ''bpf_sock_map_update'' (Scalar SLong)
     [(Ptr False ''struct bpf_sock_ops'', ''skops''),
      (Ptr False ''void'', ''map''),
      (Ptr False ''void'', ''key''),
      (Scalar U64, ''flags'')]
     53 Zero_Or_Neg"

definition bpf_xdp_adjust_meta_decl :: helper where
  "bpf_xdp_adjust_meta_decl = Helper ''bpf_xdp_adjust_meta'' (Scalar SLong)
     [(Ptr False ''struct xdp_md'', ''xdp_md''),
      (Scalar SInt, ''delta'')]
     54 Zero_Or_Neg"

definition bpf_perf_event_read_value_decl :: helper where
  "bpf_perf_event_read_value_decl = Helper ''bpf_perf_event_read_value'' (Scalar SLong)
     [(Ptr False ''void'', ''map''),
      (Scalar U64, ''flags''),
      (Ptr False ''struct bpf_perf_event_value'', ''buf''),
      (Scalar U32, ''buf_size'')]
     55 Zero_Or_Neg"

definition bpf_perf_prog_read_value_decl :: helper where
  "bpf_perf_prog_read_value_decl = Helper ''bpf_perf_prog_read_value'' (Scalar SLong)
     [(Ptr False ''struct bpf_perf_event_data'', ''ctx''),
      (Ptr False ''struct bpf_perf_event_value'', ''buf''),
      (Scalar U32, ''buf_size'')]
     56 Zero_Or_Neg"

definition bpf_getsockopt_decl :: helper where
  "bpf_getsockopt_decl = Helper ''bpf_getsockopt'' (Scalar SLong)
     [(Ptr False ''void'', ''bpf_socket''),
      (Scalar SInt, ''level''),
      (Scalar SInt, ''optname''),
      (Ptr False ''void'', ''optval''),
      (Scalar SInt, ''optlen'')]
     57 Zero_Or_Neg"

definition bpf_override_return_decl :: helper where
  "bpf_override_return_decl = Helper ''bpf_override_return'' (Scalar SLong)
     [(Ptr False ''struct pt_regs'', ''regs''),
      (Scalar U64, ''rc'')]
     58 Zero_Always"

definition bpf_sock_ops_cb_flags_set_decl :: helper where
  "bpf_sock_ops_cb_flags_set_decl = Helper ''bpf_sock_ops_cb_flags_set'' (Scalar SLong)
     [(Ptr False ''struct bpf_sock_ops'', ''bpf_sock''),
      (Scalar SInt, ''argval'')]
     59 Value_Or_Neg"

definition bpf_msg_redirect_map_decl :: helper where
  "bpf_msg_redirect_map_decl = Helper ''bpf_msg_redirect_map'' (Scalar SLong)
     [(Ptr False ''struct sk_msg_md'', ''msg''),
      (Ptr False ''void'', ''map''),
      (Scalar U32, ''key''),
      (Scalar U64, ''flags'')]
     60 Sk_Verdict"

definition bpf_msg_apply_bytes_decl :: helper where
  "bpf_msg_apply_bytes_decl = Helper ''bpf_msg_apply_bytes'' (Scalar SLong)
     [(Ptr False ''struct sk_msg_md'', ''msg''),
      (Scalar U32, ''bytes'')]
     61 Zero_Always"

definition bpf_msg_cork_bytes_decl :: helper where
  "bpf_msg_cork_bytes_decl = Helper ''bpf_msg_cork_bytes'' (Scalar SLong)
     [(Ptr False ''struct sk_msg_md'', ''msg''),
      (Scalar U32, ''bytes'')]
     62 Zero_Always"

definition bpf_msg_pull_data_decl :: helper where
  "bpf_msg_pull_data_decl = Helper ''bpf_msg_pull_data'' (Scalar SLong)
     [(Ptr False ''struct sk_msg_md'', ''msg''),
      (Scalar U32, ''start''),
      (Scalar U32, ''end''),
      (Scalar U64, ''flags'')]
     63 Zero_Or_Neg"

definition bpf_bind_decl :: helper where
  "bpf_bind_decl = Helper ''bpf_bind'' (Scalar SLong)
     [(Ptr False ''struct bpf_sock_addr'', ''ctx''),
      (Ptr False ''struct sockaddr'', ''addr''),
      (Scalar SInt, ''addr_len'')]
     64 Zero_Or_Neg"

definition bpf_xdp_adjust_tail_decl :: helper where
  "bpf_xdp_adjust_tail_decl = Helper ''bpf_xdp_adjust_tail'' (Scalar SLong)
     [(Ptr False ''struct xdp_md'', ''xdp_md''),
      (Scalar SInt, ''delta'')]
     65 Zero_Or_Neg"

definition bpf_skb_get_xfrm_state_decl :: helper where
  "bpf_skb_get_xfrm_state_decl = Helper ''bpf_skb_get_xfrm_state'' (Scalar SLong)
     [(Ptr False ''struct __sk_buff'', ''skb''),
      (Scalar U32, ''index''),
      (Ptr False ''struct bpf_xfrm_state'', ''xfrm_state''),
      (Scalar U32, ''size''),
      (Scalar U64, ''flags'')]
     66 Zero_Or_Neg"

definition bpf_get_stack_decl :: helper where
  "bpf_get_stack_decl = Helper ''bpf_get_stack'' (Scalar SLong)
     [(Ptr False ''void'', ''ctx''),
      (Ptr False ''void'', ''buf''),
      (Scalar U32, ''size''),
      (Scalar U64, ''flags'')]
     67 Value_Or_Neg"

definition bpf_skb_load_bytes_relative_decl :: helper where
  "bpf_skb_load_bytes_relative_decl = Helper ''bpf_skb_load_bytes_relative'' (Scalar SLong)
     [(Ptr True ''void'', ''skb''),
      (Scalar U32, ''offset''),
      (Ptr False ''void'', ''to''),
      (Scalar U32, ''len''),
      (Scalar U32, ''start_header'')]
     68 Zero_Or_Neg"

definition bpf_fib_lookup_decl :: helper where
  "bpf_fib_lookup_decl = Helper ''bpf_fib_lookup'' (Scalar SLong)
     [(Ptr False ''void'', ''ctx''),
      (Ptr False ''struct bpf_fib_lookup'', ''params''),
      (Scalar SInt, ''plen''),
      (Scalar U32, ''flags'')]
     69 Value_Or_Neg"

definition bpf_sock_hash_update_decl :: helper where
  "bpf_sock_hash_update_decl = Helper ''bpf_sock_hash_update'' (Scalar SLong)
     [(Ptr False ''struct bpf_sock_ops'', ''skops''),
      (Ptr False ''void'', ''map''),
      (Ptr False ''void'', ''key''),
      (Scalar U64, ''flags'')]
     70 Zero_Or_Neg"

definition bpf_msg_redirect_hash_decl :: helper where
  "bpf_msg_redirect_hash_decl = Helper ''bpf_msg_redirect_hash'' (Scalar SLong)
     [(Ptr False ''struct sk_msg_md'', ''msg''),
      (Ptr False ''void'', ''map''),
      (Ptr False ''void'', ''key''),
      (Scalar U64, ''flags'')]
     71 Sk_Verdict"

definition bpf_sk_redirect_hash_decl :: helper where
  "bpf_sk_redirect_hash_decl = Helper ''bpf_sk_redirect_hash'' (Scalar SLong)
     [(Ptr False ''struct __sk_buff'', ''skb''),
      (Ptr False ''void'', ''map''),
      (Ptr False ''void'', ''key''),
      (Scalar U64, ''flags'')]
     72 Sk_Verdict"

definition bpf_lwt_push_encap_decl :: helper where
  "bpf_lwt_push_encap_decl = Helper ''bpf_lwt_push_encap'' (Scalar SLong)
     [(Ptr False ''struct __sk_buff'', ''skb''),
      (Scalar U32, ''type''),
      (Ptr False ''void'', ''hdr''),
      (Scalar U32, ''len'')]
     73 Zero_Or_Neg"

definition bpf_lwt_seg6_store_bytes_decl :: helper where
  "bpf_lwt_seg6_store_bytes_decl = Helper ''bpf_lwt_seg6_store_bytes'' (Scalar SLong)
     [(Ptr False ''struct __sk_buff'', ''skb''),
      (Scalar U32, ''offset''),
      (Ptr True ''void'', ''from''),
      (Scalar U32, ''len'')]
     74 Zero_Or_Neg"

definition bpf_lwt_seg6_adjust_srh_decl :: helper where
  "bpf_lwt_seg6_adjust_srh_decl = Helper ''bpf_lwt_seg6_adjust_srh'' (Scalar SLong)
     [(Ptr False ''struct __sk_buff'', ''skb''),
      (Scalar U32, ''offset''),
      (Scalar S32, ''delta'')]
     75 Zero_Or_Neg"

definition bpf_lwt_seg6_action_decl :: helper where
  "bpf_lwt_seg6_action_decl = Helper ''bpf_lwt_seg6_action'' (Scalar SLong)
     [(Ptr False ''struct __sk_buff'', ''skb''),
      (Scalar U32, ''action''),
      (Ptr False ''void'', ''param''),
      (Scalar U32, ''param_len'')]
     76 Zero_Or_Neg"

definition bpf_rc_repeat_decl :: helper where
  "bpf_rc_repeat_decl = Helper ''bpf_rc_repeat'' (Scalar SLong)
     [(Ptr False ''void'', ''ctx'')]
     77 Zero_Always"

definition bpf_rc_keydown_decl :: helper where
  "bpf_rc_keydown_decl = Helper ''bpf_rc_keydown'' (Scalar SLong)
     [(Ptr False ''void'', ''ctx''),
      (Scalar U32, ''protocol''),
      (Scalar U64, ''scancode''),
      (Scalar U32, ''toggle'')]
     78 Zero_Always"

definition bpf_skb_cgroup_id_decl :: helper where
  "bpf_skb_cgroup_id_decl = Helper ''bpf_skb_cgroup_id'' (Scalar U64)
     [(Ptr False ''struct __sk_buff'', ''skb'')]
     79 Value_Always"

definition bpf_get_current_cgroup_id_decl :: helper where
  "bpf_get_current_cgroup_id_decl = Helper ''bpf_get_current_cgroup_id'' (Scalar U64)
     []
     80 Value_Always"

definition bpf_get_local_storage_decl :: helper where
  "bpf_get_local_storage_decl = Helper ''bpf_get_local_storage'' (Ptr False ''void'')
     [(Ptr False ''void'', ''map''),
      (Scalar U64, ''flags'')]
     81 Ptr_Always"

definition bpf_sk_select_reuseport_decl :: helper where
  "bpf_sk_select_reuseport_decl = Helper ''bpf_sk_select_reuseport'' (Scalar SLong)
     [(Ptr False ''struct sk_reuseport_md'', ''reuse''),
      (Ptr False ''void'', ''map''),
      (Ptr False ''void'', ''key''),
      (Scalar U64, ''flags'')]
     82 Zero_Or_Neg"

definition bpf_skb_ancestor_cgroup_id_decl :: helper where
  "bpf_skb_ancestor_cgroup_id_decl = Helper ''bpf_skb_ancestor_cgroup_id'' (Scalar U64)
     [(Ptr False ''struct __sk_buff'', ''skb''),
      (Scalar SInt, ''ancestor_level'')]
     83 Value_Always"

definition bpf_sk_lookup_tcp_decl :: helper where
  "bpf_sk_lookup_tcp_decl = Helper ''bpf_sk_lookup_tcp'' (Ptr False ''struct bpf_sock'')
     [(Ptr False ''void'', ''ctx''),
      (Ptr False ''struct bpf_sock_tuple'', ''tuple''),
      (Scalar U32, ''tuple_size''),
      (Scalar U64, ''netns''),
      (Scalar U64, ''flags'')]
     84 Ptr_Or_Null"

definition bpf_sk_lookup_udp_decl :: helper where
  "bpf_sk_lookup_udp_decl = Helper ''bpf_sk_lookup_udp'' (Ptr False ''struct bpf_sock'')
     [(Ptr False ''void'', ''ctx''),
      (Ptr False ''struct bpf_sock_tuple'', ''tuple''),
      (Scalar U32, ''tuple_size''),
      (Scalar U64, ''netns''),
      (Scalar U64, ''flags'')]
     85 Ptr_Or_Null"

definition bpf_sk_release_decl :: helper where
  "bpf_sk_release_decl = Helper ''bpf_sk_release'' (Scalar SLong)
     [(Ptr False ''struct bpf_sock'', ''sock'')]
     86 Zero_Or_Neg"

definition bpf_map_push_elem_decl :: helper where
  "bpf_map_push_elem_decl = Helper ''bpf_map_push_elem'' (Scalar SLong)
     [(Ptr False ''void'', ''map''),
      (Ptr True ''void'', ''value''),
      (Scalar U64, ''flags'')]
     87 Zero_Or_Neg"

definition bpf_map_pop_elem_decl :: helper where
  "bpf_map_pop_elem_decl = Helper ''bpf_map_pop_elem'' (Scalar SLong)
     [(Ptr False ''void'', ''map''),
      (Ptr False ''void'', ''value'')]
     88 Zero_Or_Neg"

definition bpf_map_peek_elem_decl :: helper where
  "bpf_map_peek_elem_decl = Helper ''bpf_map_peek_elem'' (Scalar SLong)
     [(Ptr False ''void'', ''map''),
      (Ptr False ''void'', ''value'')]
     89 Zero_Or_Neg"

definition bpf_msg_push_data_decl :: helper where
  "bpf_msg_push_data_decl = Helper ''bpf_msg_push_data'' (Scalar SLong)
     [(Ptr False ''struct sk_msg_md'', ''msg''),
      (Scalar U32, ''start''),
      (Scalar U32, ''len''),
      (Scalar U64, ''flags'')]
     90 Zero_Or_Neg"

definition bpf_msg_pop_data_decl :: helper where
  "bpf_msg_pop_data_decl = Helper ''bpf_msg_pop_data'' (Scalar SLong)
     [(Ptr False ''struct sk_msg_md'', ''msg''),
      (Scalar U32, ''start''),
      (Scalar U32, ''len''),
      (Scalar U64, ''flags'')]
     91 Zero_Or_Neg"

definition bpf_rc_pointer_rel_decl :: helper where
  "bpf_rc_pointer_rel_decl = Helper ''bpf_rc_pointer_rel'' (Scalar SLong)
     [(Ptr False ''void'', ''ctx''),
      (Scalar S32, ''rel_x''),
      (Scalar S32, ''rel_y'')]
     92 Zero_Always"

definition bpf_spin_lock_decl :: helper where
  "bpf_spin_lock_decl = Helper ''bpf_spin_lock'' (Scalar SLong)
     [(Ptr False ''struct bpf_spin_lock'', ''lock'')]
     93 Zero_Always"

definition bpf_spin_unlock_decl :: helper where
  "bpf_spin_unlock_decl = Helper ''bpf_spin_unlock'' (Scalar SLong)
     [(Ptr False ''struct bpf_spin_lock'', ''lock'')]
     94 Zero_Always"

definition bpf_sk_fullsock_decl :: helper where
  "bpf_sk_fullsock_decl = Helper ''bpf_sk_fullsock'' (Ptr False ''struct bpf_sock'')
     [(Ptr False ''struct bpf_sock'', ''sk'')]
     95 Ptr_Or_Null"

definition bpf_tcp_sock_decl :: helper where
  "bpf_tcp_sock_decl = Helper ''bpf_tcp_sock'' (Ptr False ''struct bpf_tcp_sock'')
     [(Ptr False ''struct bpf_sock'', ''sk'')]
     96 Ptr_Or_Null"

definition bpf_skb_ecn_set_ce_decl :: helper where
  "bpf_skb_ecn_set_ce_decl = Helper ''bpf_skb_ecn_set_ce'' (Scalar SLong)
     [(Ptr False ''struct __sk_buff'', ''skb'')]
     97 Bool_Always"

definition bpf_get_listener_sock_decl :: helper where
  "bpf_get_listener_sock_decl = Helper ''bpf_get_listener_sock'' (Ptr False ''struct bpf_sock'')
     [(Ptr False ''struct bpf_sock'', ''sk'')]
     98 Ptr_Or_Null"

definition bpf_skc_lookup_tcp_decl :: helper where
  "bpf_skc_lookup_tcp_decl = Helper ''bpf_skc_lookup_tcp'' (Ptr False ''struct bpf_sock'')
     [(Ptr False ''void'', ''ctx''),
      (Ptr False ''struct bpf_sock_tuple'', ''tuple''),
      (Scalar U32, ''tuple_size''),
      (Scalar U64, ''netns''),
      (Scalar U64, ''flags'')]
     99 Ptr_Or_Null"

definition bpf_tcp_check_syncookie_decl :: helper where
  "bpf_tcp_check_syncookie_decl = Helper ''bpf_tcp_check_syncookie'' (Scalar SLong)
     [(Ptr False ''struct bpf_sock'', ''sk''),
      (Ptr False ''void'', ''iph''),
      (Scalar U32, ''iph_len''),
      (Ptr False ''struct tcphdr'', ''th''),
      (Scalar U32, ''th_len'')]
     100 Zero_Or_Neg"

definition bpf_sysctl_get_name_decl :: helper where
  "bpf_sysctl_get_name_decl = Helper ''bpf_sysctl_get_name'' (Scalar SLong)
     [(Ptr False ''struct bpf_sysctl'', ''ctx''),
      (Ptr False ''char'', ''buf''),
      (Scalar ULong, ''buf_len''),
      (Scalar U64, ''flags'')]
     101 Value_Or_Neg"

definition bpf_sysctl_get_current_value_decl :: helper where
  "bpf_sysctl_get_current_value_decl = Helper ''bpf_sysctl_get_current_value'' (Scalar SLong)
     [(Ptr False ''struct bpf_sysctl'', ''ctx''),
      (Ptr False ''char'', ''buf''),
      (Scalar ULong, ''buf_len'')]
     102 Value_Or_Neg"

definition bpf_sysctl_get_new_value_decl :: helper where
  "bpf_sysctl_get_new_value_decl = Helper ''bpf_sysctl_get_new_value'' (Scalar SLong)
     [(Ptr False ''struct bpf_sysctl'', ''ctx''),
      (Ptr False ''char'', ''buf''),
      (Scalar ULong, ''buf_len'')]
     103 Value_Or_Neg"

definition bpf_sysctl_set_new_value_decl :: helper where
  "bpf_sysctl_set_new_value_decl = Helper ''bpf_sysctl_set_new_value'' (Scalar SLong)
     [(Ptr False ''struct bpf_sysctl'', ''ctx''),
      (Ptr True ''char'', ''buf''),
      (Scalar ULong, ''buf_len'')]
     104 Zero_Or_Neg"

definition bpf_strtol_decl :: helper where
  "bpf_strtol_decl = Helper ''bpf_strtol'' (Scalar SLong)
     [(Ptr True ''char'', ''buf''),
      (Scalar ULong, ''buf_len''),
      (Scalar U64, ''flags''),
      (Ptr False ''long'', ''res'')]
     105 Pos_Or_Neg"

definition bpf_strtoul_decl :: helper where
  "bpf_strtoul_decl = Helper ''bpf_strtoul'' (Scalar SLong)
     [(Ptr True ''char'', ''buf''),
      (Scalar ULong, ''buf_len''),
      (Scalar U64, ''flags''),
      (Ptr False ''unsigned long'', ''res'')]
     106 Pos_Or_Neg"

definition bpf_sk_storage_get_decl :: helper where
  "bpf_sk_storage_get_decl = Helper ''bpf_sk_storage_get'' (Ptr False ''void'')
     [(Ptr False ''void'', ''map''),
      (Ptr False ''struct bpf_sock'', ''sk''),
      (Ptr False ''void'', ''value''),
      (Scalar U64, ''flags'')]
     107 Ptr_Or_Null"

definition bpf_sk_storage_delete_decl :: helper where
  "bpf_sk_storage_delete_decl = Helper ''bpf_sk_storage_delete'' (Scalar SLong)
     [(Ptr False ''void'', ''map''),
      (Ptr False ''struct bpf_sock'', ''sk'')]
     108 Zero_Or_Neg"

definition bpf_send_signal_decl :: helper where
  "bpf_send_signal_decl = Helper ''bpf_send_signal'' (Scalar SLong)
     [(Scalar U32, ''sig'')]
     109 Zero_Or_Neg"

definition bpf_tcp_gen_syncookie_decl :: helper where
  "bpf_tcp_gen_syncookie_decl = Helper ''bpf_tcp_gen_syncookie'' (Scalar S64)
     [(Ptr False ''struct bpf_sock'', ''sk''),
      (Ptr False ''void'', ''iph''),
      (Scalar U32, ''iph_len''),
      (Ptr False ''struct tcphdr'', ''th''),
      (Scalar U32, ''th_len'')]
     110 Value_Or_Neg"

definition bpf_skb_output_decl :: helper where
  "bpf_skb_output_decl = Helper ''bpf_skb_output'' (Scalar SLong)
     [(Ptr False ''void'', ''ctx''),
      (Ptr False ''void'', ''map''),
      (Scalar U64, ''flags''),
      (Ptr False ''void'', ''data''),
      (Scalar U64, ''size'')]
     111 Zero_Or_Neg"

definition bpf_probe_read_user_decl :: helper where
  "bpf_probe_read_user_decl = Helper ''bpf_probe_read_user'' (Scalar SLong)
     [(Ptr False ''void'', ''dst''),
      (Scalar U32, ''size''),
      (Ptr True ''void'', ''unsafe_ptr'')]
     112 Zero_Or_Neg"

definition bpf_probe_read_kernel_decl :: helper where
  "bpf_probe_read_kernel_decl = Helper ''bpf_probe_read_kernel'' (Scalar SLong)
     [(Ptr False ''void'', ''dst''),
      (Scalar U32, ''size''),
      (Ptr True ''void'', ''unsafe_ptr'')]
     113 Zero_Or_Neg"

definition bpf_probe_read_user_str_decl :: helper where
  "bpf_probe_read_user_str_decl = Helper ''bpf_probe_read_user_str'' (Scalar SLong)
     [(Ptr False ''void'', ''dst''),
      (Scalar U32, ''size''),
      (Ptr True ''void'', ''unsafe_ptr'')]
     114 Pos_Or_Neg"

definition bpf_probe_read_kernel_str_decl :: helper where
  "bpf_probe_read_kernel_str_decl = Helper ''bpf_probe_read_kernel_str'' (Scalar SLong)
     [(Ptr False ''void'', ''dst''),
      (Scalar U32, ''size''),
      (Ptr True ''void'', ''unsafe_ptr'')]
     115 Pos_Or_Neg"

definition bpf_tcp_send_ack_decl :: helper where
  "bpf_tcp_send_ack_decl = Helper ''bpf_tcp_send_ack'' (Scalar SLong)
     [(Ptr False ''void'', ''tp''),
      (Scalar U32, ''rcv_nxt'')]
     116 Zero_Or_Neg"

definition bpf_send_signal_thread_decl :: helper where
  "bpf_send_signal_thread_decl = Helper ''bpf_send_signal_thread'' (Scalar SLong)
     [(Scalar U32, ''sig'')]
     117 Zero_Or_Neg"

definition bpf_jiffies64_decl :: helper where
  "bpf_jiffies64_decl = Helper ''bpf_jiffies64'' (Scalar U64)
     []
     118 Value_Always"

definition bpf_read_branch_records_decl :: helper where
  "bpf_read_branch_records_decl = Helper ''bpf_read_branch_records'' (Scalar SLong)
     [(Ptr False ''struct bpf_perf_event_data'', ''ctx''),
      (Ptr False ''void'', ''buf''),
      (Scalar U32, ''size''),
      (Scalar U64, ''flags'')]
     119 Value_Or_Neg"

definition bpf_get_ns_current_pid_tgid_decl :: helper where
  "bpf_get_ns_current_pid_tgid_decl = Helper ''bpf_get_ns_current_pid_tgid'' (Scalar SLong)
     [(Scalar U64, ''dev''),
      (Scalar U64, ''ino''),
      (Ptr False ''struct bpf_pidns_info'', ''nsdata''),
      (Scalar U32, ''size'')]
     120 Zero_Or_Neg"

definition bpf_xdp_output_decl :: helper where
  "bpf_xdp_output_decl = Helper ''bpf_xdp_output'' (Scalar SLong)
     [(Ptr False ''void'', ''ctx''),
      (Ptr False ''void'', ''map''),
      (Scalar U64, ''flags''),
      (Ptr False ''void'', ''data''),
      (Scalar U64, ''size'')]
     121 Zero_Or_Neg"

definition bpf_get_netns_cookie_decl :: helper where
  "bpf_get_netns_cookie_decl = Helper ''bpf_get_netns_cookie'' (Scalar U64)
     [(Ptr False ''void'', ''ctx'')]
     122 Value_Always"

definition bpf_get_current_ancestor_cgroup_id_decl :: helper where
  "bpf_get_current_ancestor_cgroup_id_decl = Helper ''bpf_get_current_ancestor_cgroup_id'' (Scalar U64)
     [(Scalar SInt, ''ancestor_level'')]
     123 Value_Always"

definition bpf_sk_assign_decl :: helper where
  "bpf_sk_assign_decl = Helper ''bpf_sk_assign'' (Scalar SLong)
     [(Ptr False ''void'', ''ctx''),
      (Ptr False ''struct bpf_sock'', ''sk''),
      (Scalar U64, ''flags'')]
     124 Zero_Or_Neg"

definition bpf_ktime_get_boot_ns_decl :: helper where
  "bpf_ktime_get_boot_ns_decl = Helper ''bpf_ktime_get_boot_ns'' (Scalar U64)
     []
     125 Value_Always"

definition bpf_seq_printf_decl :: helper where
  "bpf_seq_printf_decl = Helper ''bpf_seq_printf'' (Scalar SLong)
     [(Ptr False ''struct seq_file'', ''m''),
      (Ptr True ''char'', ''fmt''),
      (Scalar U32, ''fmt_size''),
      (Ptr True ''void'', ''data''),
      (Scalar U32, ''data_len'')]
     126 Zero_Or_Neg"

definition bpf_seq_write_decl :: helper where
  "bpf_seq_write_decl = Helper ''bpf_seq_write'' (Scalar SLong)
     [(Ptr False ''struct seq_file'', ''m''),
      (Ptr True ''void'', ''data''),
      (Scalar U32, ''len'')]
     127 Zero_Or_Neg"

definition bpf_sk_cgroup_id_decl :: helper where
  "bpf_sk_cgroup_id_decl = Helper ''bpf_sk_cgroup_id'' (Scalar U64)
     [(Ptr False ''struct bpf_sock'', ''sk'')]
     128 Value_Always"

definition bpf_sk_ancestor_cgroup_id_decl :: helper where
  "bpf_sk_ancestor_cgroup_id_decl = Helper ''bpf_sk_ancestor_cgroup_id'' (Scalar U64)
     [(Ptr False ''struct bpf_sock'', ''sk''),
      (Scalar SInt, ''ancestor_level'')]
     129 Value_Always"

definition bpf_ringbuf_output_decl :: helper where
  "bpf_ringbuf_output_decl = Helper ''bpf_ringbuf_output'' (Scalar SLong)
     [(Ptr False ''void'', ''ringbuf''),
      (Ptr False ''void'', ''data''),
      (Scalar U64, ''size''),
      (Scalar U64, ''flags'')]
     130 Zero_Or_Neg"

definition bpf_ringbuf_reserve_decl :: helper where
  "bpf_ringbuf_reserve_decl = Helper ''bpf_ringbuf_reserve'' (Ptr False ''void'')
     [(Ptr False ''void'', ''ringbuf''),
      (Scalar U64, ''size''),
      (Scalar U64, ''flags'')]
     131 Ptr_Or_Null"

definition bpf_ringbuf_submit_decl :: helper where
  "bpf_ringbuf_submit_decl = Helper ''bpf_ringbuf_submit'' (Void)
     [(Ptr False ''void'', ''data''),
      (Scalar U64, ''flags'')]
     132 Nothing"

definition bpf_ringbuf_discard_decl :: helper where
  "bpf_ringbuf_discard_decl = Helper ''bpf_ringbuf_discard'' (Void)
     [(Ptr False ''void'', ''data''),
      (Scalar U64, ''flags'')]
     133 Nothing"

definition bpf_ringbuf_query_decl :: helper where
  "bpf_ringbuf_query_decl = Helper ''bpf_ringbuf_query'' (Scalar U64)
     [(Ptr False ''void'', ''ringbuf''),
      (Scalar U64, ''flags'')]
     134 Value_Always"

definition bpf_csum_level_decl :: helper where
  "bpf_csum_level_decl = Helper ''bpf_csum_level'' (Scalar SLong)
     [(Ptr False ''struct __sk_buff'', ''skb''),
      (Scalar U64, ''level'')]
     135 Value_Or_Neg"

definition bpf_skc_to_tcp6_sock_decl :: helper where
  "bpf_skc_to_tcp6_sock_decl = Helper ''bpf_skc_to_tcp6_sock'' (Ptr False ''struct tcp6_sock'')
     [(Ptr False ''void'', ''sk'')]
     136 Ptr_Or_Null"

definition bpf_skc_to_tcp_sock_decl :: helper where
  "bpf_skc_to_tcp_sock_decl = Helper ''bpf_skc_to_tcp_sock'' (Ptr False ''struct tcp_sock'')
     [(Ptr False ''void'', ''sk'')]
     137 Ptr_Or_Null"

definition bpf_skc_to_tcp_timewait_sock_decl :: helper where
  "bpf_skc_to_tcp_timewait_sock_decl = Helper ''bpf_skc_to_tcp_timewait_sock'' (Ptr False ''struct tcp_timewait_sock'')
     [(Ptr False ''void'', ''sk'')]
     138 Ptr_Or_Null"

definition bpf_skc_to_tcp_request_sock_decl :: helper where
  "bpf_skc_to_tcp_request_sock_decl = Helper ''bpf_skc_to_tcp_request_sock'' (Ptr False ''struct tcp_request_sock'')
     [(Ptr False ''void'', ''sk'')]
     139 Ptr_Or_Null"

definition bpf_skc_to_udp6_sock_decl :: helper where
  "bpf_skc_to_udp6_sock_decl = Helper ''bpf_skc_to_udp6_sock'' (Ptr False ''struct udp6_sock'')
     [(Ptr False ''void'', ''sk'')]
     140 Ptr_Or_Null"

definition bpf_get_task_stack_decl :: helper where
  "bpf_get_task_stack_decl = Helper ''bpf_get_task_stack'' (Scalar SLong)
     [(Ptr False ''struct task_struct'', ''task''),
      (Ptr False ''void'', ''buf''),
      (Scalar U32, ''size''),
      (Scalar U64, ''flags'')]
     141 Value_Or_Neg"

text \<open>All declarations, in the order of the file.\<close>

definition bpf_helpers :: "helper list" where
  "bpf_helpers = [
     bpf_map_lookup_elem_decl, bpf_map_update_elem_decl, bpf_map_delete_elem_decl,
     bpf_probe_read_decl, bpf_ktime_get_ns_decl, bpf_trace_printk_decl,
     bpf_get_prandom_u32_decl, bpf_get_smp_processor_id_decl, bpf_skb_store_bytes_decl,
     bpf_l3_csum_replace_decl, bpf_l4_csum_replace_decl, bpf_tail_call_decl,
     bpf_clone_redirect_decl, bpf_get_current_pid_tgid_decl, bpf_get_current_uid_gid_decl,
     bpf_get_current_comm_decl, bpf_get_cgroup_classid_decl, bpf_skb_vlan_push_decl,
     bpf_skb_vlan_pop_decl, bpf_skb_get_tunnel_key_decl, bpf_skb_set_tunnel_key_decl,
     bpf_perf_event_read_decl, bpf_redirect_decl, bpf_get_route_realm_decl,
     bpf_perf_event_output_decl, bpf_skb_load_bytes_decl, bpf_get_stackid_decl,
     bpf_csum_diff_decl, bpf_skb_get_tunnel_opt_decl, bpf_skb_set_tunnel_opt_decl,
     bpf_skb_change_proto_decl, bpf_skb_change_type_decl, bpf_skb_under_cgroup_decl,
     bpf_get_hash_recalc_decl, bpf_get_current_task_decl, bpf_probe_write_user_decl,
     bpf_current_task_under_cgroup_decl, bpf_skb_change_tail_decl, bpf_skb_pull_data_decl,
     bpf_csum_update_decl, bpf_set_hash_invalid_decl, bpf_get_numa_node_id_decl,
     bpf_skb_change_head_decl, bpf_xdp_adjust_head_decl, bpf_probe_read_str_decl,
     bpf_get_socket_cookie_decl, bpf_get_socket_uid_decl, bpf_set_hash_decl,
     bpf_setsockopt_decl, bpf_skb_adjust_room_decl, bpf_redirect_map_decl,
     bpf_sk_redirect_map_decl, bpf_sock_map_update_decl, bpf_xdp_adjust_meta_decl,
     bpf_perf_event_read_value_decl, bpf_perf_prog_read_value_decl, bpf_getsockopt_decl,
     bpf_override_return_decl, bpf_sock_ops_cb_flags_set_decl, bpf_msg_redirect_map_decl,
     bpf_msg_apply_bytes_decl, bpf_msg_cork_bytes_decl, bpf_msg_pull_data_decl, bpf_bind_decl,
     bpf_xdp_adjust_tail_decl, bpf_skb_get_xfrm_state_decl, bpf_get_stack_decl,
     bpf_skb_load_bytes_relative_decl, bpf_fib_lookup_decl, bpf_sock_hash_update_decl,
     bpf_msg_redirect_hash_decl, bpf_sk_redirect_hash_decl, bpf_lwt_push_encap_decl,
     bpf_lwt_seg6_store_bytes_decl, bpf_lwt_seg6_adjust_srh_decl, bpf_lwt_seg6_action_decl,
     bpf_rc_repeat_decl, bpf_rc_keydown_decl, bpf_skb_cgroup_id_decl,
     bpf_get_current_cgroup_id_decl, bpf_get_local_storage_decl, bpf_sk_select_reuseport_decl,
     bpf_skb_ancestor_cgroup_id_decl, bpf_sk_lookup_tcp_decl, bpf_sk_lookup_udp_decl,
     bpf_sk_release_decl, bpf_map_push_elem_decl, bpf_map_pop_elem_decl,
     bpf_map_peek_elem_decl, bpf_msg_push_data_decl, bpf_msg_pop_data_decl,
     bpf_rc_pointer_rel_decl, bpf_spin_lock_decl, bpf_spin_unlock_decl, bpf_sk_fullsock_decl,
     bpf_tcp_sock_decl, bpf_skb_ecn_set_ce_decl, bpf_get_listener_sock_decl,
     bpf_skc_lookup_tcp_decl, bpf_tcp_check_syncookie_decl, bpf_sysctl_get_name_decl,
     bpf_sysctl_get_current_value_decl, bpf_sysctl_get_new_value_decl,
     bpf_sysctl_set_new_value_decl, bpf_strtol_decl, bpf_strtoul_decl, bpf_sk_storage_get_decl,
     bpf_sk_storage_delete_decl, bpf_send_signal_decl, bpf_tcp_gen_syncookie_decl,
     bpf_skb_output_decl, bpf_probe_read_user_decl, bpf_probe_read_kernel_decl,
     bpf_probe_read_user_str_decl, bpf_probe_read_kernel_str_decl, bpf_tcp_send_ack_decl,
     bpf_send_signal_thread_decl, bpf_jiffies64_decl, bpf_read_branch_records_decl,
     bpf_get_ns_current_pid_tgid_decl, bpf_xdp_output_decl, bpf_get_netns_cookie_decl,
     bpf_get_current_ancestor_cgroup_id_decl, bpf_sk_assign_decl, bpf_ktime_get_boot_ns_decl,
     bpf_seq_printf_decl, bpf_seq_write_decl, bpf_sk_cgroup_id_decl,
     bpf_sk_ancestor_cgroup_id_decl, bpf_ringbuf_output_decl, bpf_ringbuf_reserve_decl,
     bpf_ringbuf_submit_decl, bpf_ringbuf_discard_decl, bpf_ringbuf_query_decl,
     bpf_csum_level_decl, bpf_skc_to_tcp6_sock_decl, bpf_skc_to_tcp_sock_decl,
     bpf_skc_to_tcp_timewait_sock_decl, bpf_skc_to_tcp_request_sock_decl,
     bpf_skc_to_udp6_sock_decl, bpf_get_task_stack_decl]"

section \<open>Consistency of the table\<close>

fun c_signed :: "c_scalar \<Rightarrow> bool" where
  "c_signed S32 \<longleftrightarrow> True"
| "c_signed S64 \<longleftrightarrow> True"
| "c_signed SInt \<longleftrightarrow> True"
| "c_signed SLong \<longleftrightarrow> True"
| "c_signed Char \<longleftrightarrow> True"
| "c_signed U16 \<longleftrightarrow> False"
| "c_signed U32 \<longleftrightarrow> False"
| "c_signed U64 \<longleftrightarrow> False"
| "c_signed ULong \<longleftrightarrow> False"
| "c_signed BE16 \<longleftrightarrow> False"
| "c_signed BE32 \<longleftrightarrow> False"
| "c_signed Wsum \<longleftrightarrow> False"

text \<open>A promise that the declared result type can carry: a negative error needs a signed type.\<close>

fun doc_fits :: "proto_type \<Rightarrow> ret_doc \<Rightarrow> bool" where
  "doc_fits Void d \<longleftrightarrow> d = Nothing"
| "doc_fits (Ptr k t) d \<longleftrightarrow> d = Ptr_Or_Null \<or> d = Ptr_Always"
| "doc_fits (Scalar s) d \<longleftrightarrow>
     d \<notin> {Nothing, Ptr_Or_Null, Ptr_Always} \<and>
     (d \<in> {Zero_Or_Neg, Value_Or_Neg, Pos_Or_Neg, Bool_Or_Neg} \<longrightarrow> c_signed s)"
| "doc_fits Varargs d \<longleftrightarrow> False"

lemma bpf_helper_ids: "map h_id bpf_helpers = [1..<142]"
  by code_simp

lemma bpf_helper_params: "list_all (\<lambda>h. length (h_params h) \<le> 5) bpf_helpers"
  by code_simp

lemma bpf_helper_docs:
  "map h_name (filter (\<lambda>h. \<not> doc_fits (h_ret h) (h_doc h)) bpf_helpers) = [''bpf_perf_event_read'']"
  by code_simp

text \<open>Every structure that a prototype points to is declared at the head of the header.\<close>

fun proto_struct :: "proto_type \<Rightarrow> string option" where
  "proto_struct (Ptr c t) = (if take 7 t = ''struct '' then Some (drop 7 t) else None)"
| "proto_struct _ = None"

definition helper_structs :: "helper \<Rightarrow> string list" where
  "helper_structs h = List.map_filter proto_struct (h_ret h # map fst (h_params h))"

lemma helper_structs_declared:
  "list_all (\<lambda>h. list_all (List.member bpf_forward_structs) (helper_structs h)) bpf_helpers"
  by code_simp

text \<open>The number in a call instruction determines the helper.\<close>

definition helper_of_id :: "nat \<Rightarrow> helper option" where
  "helper_of_id n = find (\<lambda>h. h_id h = n) bpf_helpers"

lemma length_bpf_helpers: "length bpf_helpers = 141"
  using arg_cong [OF bpf_helper_ids, of length] by simp

lemma nth_bpf_helpers_id: "i < length bpf_helpers \<Longrightarrow> h_id (bpf_helpers ! i) = i + 1"
proof -
  assume i: "i < length bpf_helpers"
  then have "h_id (bpf_helpers ! i) = map h_id bpf_helpers ! i" by simp
  with i show ?thesis by (simp add: bpf_helper_ids length_bpf_helpers del: upt_conv_Nil)
qed

lemma helper_of_id_Some:
  "helper_of_id n = Some h \<longleftrightarrow> 1 \<le> n \<and> n \<le> 141 \<and> h = bpf_helpers ! (n - 1)"
proof
  assume "helper_of_id n = Some h"
  then obtain i where "i < 141" and "h_id (bpf_helpers ! i) = n" and "h = bpf_helpers ! i"
    by (auto simp: helper_of_id_def find_Some_iff length_bpf_helpers)
  then show "1 \<le> n \<and> n \<le> 141 \<and> h = bpf_helpers ! (n - 1)"
    using nth_bpf_helpers_id [of i] by (auto simp: length_bpf_helpers)
next
  assume n: "1 \<le> n \<and> n \<le> 141 \<and> h = bpf_helpers ! (n - 1)"
  have id: "h_id (bpf_helpers ! j) = j + 1" if "j \<le> n - 1" for j
    using that n by (intro nth_bpf_helpers_id) (auto simp: length_bpf_helpers)
  have "n - 1 < length bpf_helpers \<and> h_id (bpf_helpers ! (n - 1)) = n \<and> h = bpf_helpers ! (n - 1)"
    using n id [of "n - 1"] by (auto simp: length_bpf_helpers)
  moreover have "h_id (bpf_helpers ! j) \<noteq> n" if "j < n - 1" for j
    using that id [of j] by simp
  ultimately show "helper_of_id n = Some h"
    unfolding helper_of_id_def find_Some_iff by blast
qed

section \<open>Properties\<close>

text \<open>
  The table of helpers is a numbering without gaps or clashes: exactly the numbers 1 to 141 in
  a call instruction name a helper, each names one, that helper declares this number, and it takes
  at most the five arguments that fit the argument registers.
\<close>

lemma bpf_helper_numbering:
  "(\<forall>n. (\<exists>h. helper_of_id n = Some h) \<longleftrightarrow> n \<in> {1..141}) \<and>
   (\<forall>n h. helper_of_id n = Some h \<longrightarrow> h_id h = n \<and> h \<in> set bpf_helpers \<and> length (h_params h) \<le> 5)"
proof -
  have "h_id h = n \<and> h \<in> set bpf_helpers" if "helper_of_id n = Some h" for n h
    using that by (auto simp: helper_of_id_Some nth_bpf_helpers_id length_bpf_helpers)
  then show ?thesis
    using bpf_helper_params by (auto simp: helper_of_id_Some list_all_iff)
qed

text \<open>
  Of the 141 prototypes, one cannot carry the result its comment promises: \<open>bpf_perf_event_read\<close>
  documents a negative error code and is declared to return \<open>u64\<close>. For all others the promised
  class of results fits the declared type: pointers for pointers, nothing for \<open>void\<close>, and a signed
  type wherever a negative error may be returned.
\<close>

lemma bpf_helper_results_fit:
  "h \<in> set bpf_helpers \<Longrightarrow> doc_fits (h_ret h) (h_doc h) \<longleftrightarrow> h_name h \<noteq> ''bpf_perf_event_read''"
proof -
  have "list_all (\<lambda>h. doc_fits (h_ret h) (h_doc h) \<longleftrightarrow> h_name h \<noteq> ''bpf_perf_event_read'') bpf_helpers"
    by code_simp
  then show "h \<in> set bpf_helpers \<Longrightarrow> ?thesis" by (simp add: list_all_iff)
qed

end
