(* ===== verification/Bpf_Uapi_Codes.thy ===== *)
theory Bpf_Uapi_Codes
  imports C_Layout Bpf_Helper_Defs
begin

unbundle bit_operations_syntax

text \<open>
  The constants of \<^verbatim>\<open>perf_event/src/ebpf/include/bpf/bpf.h\<close>: every \<open>enum\<close> of the header with
  its enumerators in order, the \<open>#define\<close>d flags and operation codes, and the table of helper
  numbers that the macro \<open>___BPF_FUNC_MAPPER\<close> expands. An \<open>enum\<close> without a tag is named after its
  first enumerator; a group of \<open>#define\<close>s is read like an \<open>enum\<close> in which every value is explicit.
\<close>

section \<open>Operation codes and flags defined by macros\<close>

definition bpf_insn_defines :: "(string \<times> enum_init) list" where
  "bpf_insn_defines = [
      (''BPF_JMP32'', Val 0x06), (''BPF_ALU64'', Val 0x07), (''BPF_DW'', Val 0x18),
      (''BPF_ATOMIC'', Val 0xc0), (''BPF_XADD'', Val 0xc0), (''BPF_MOV'', Val 0xb0),
      (''BPF_ARSH'', Val 0xc0), (''BPF_END'', Val 0xd0), (''BPF_TO_LE'', Val 0x00),
      (''BPF_TO_BE'', Val 0x08), (''BPF_FROM_LE'', Same ''BPF_TO_LE''),
      (''BPF_FROM_BE'', Same ''BPF_TO_BE''), (''BPF_JNE'', Val 0x50), (''BPF_JLT'', Val 0xa0),
      (''BPF_JLE'', Val 0xb0), (''BPF_JSGT'', Val 0x60), (''BPF_JSGE'', Val 0x70),
      (''BPF_JSLT'', Val 0xc0), (''BPF_JSLE'', Val 0xd0), (''BPF_CALL'', Val 0x80),
      (''BPF_EXIT'', Val 0x90), (''BPF_FETCH'', Val 0x01), (''BPF_XCHG'', Val (0xe0 OR 0x01)),
      (''BPF_CMPXCHG'', Val (0xf0 OR 0x01))]"

definition bpf_attach_flag_defines :: "(string \<times> enum_init) list" where
  "bpf_attach_flag_defines = [
      (''BPF_F_ALLOW_OVERRIDE'', Shl 1 0), (''BPF_F_ALLOW_MULTI'', Shl 1 1),
      (''BPF_F_REPLACE'', Shl 1 2)]"

definition bpf_prog_load_flag_defines :: "(string \<times> enum_init) list" where
  "bpf_prog_load_flag_defines = [
      (''BPF_F_STRICT_ALIGNMENT'', Shl 1 0), (''BPF_F_ANY_ALIGNMENT'', Shl 1 1),
      (''BPF_F_TEST_RND_HI32'', Shl 1 2), (''BPF_F_TEST_STATE_FREQ'', Shl 1 3),
      (''BPF_F_SLEEPABLE'', Shl 1 4), (''BPF_F_XDP_HAS_FRAGS'', Shl 1 5),
      (''BPF_F_XDP_DEV_BOUND_ONLY'', Shl 1 6)]"

definition bpf_kprobe_flag_defines :: "(string \<times> enum_init) list" where
  "bpf_kprobe_flag_defines = [
      (''BPF_F_KPROBE_MULTI_RETURN'', Shl 1 0)]"

definition bpf_pseudo_defines :: "(string \<times> enum_init) list" where
  "bpf_pseudo_defines = [
      (''BPF_PSEUDO_MAP_FD'', Val 1), (''BPF_PSEUDO_MAP_IDX'', Val 5),
      (''BPF_PSEUDO_MAP_VALUE'', Val 2), (''BPF_PSEUDO_MAP_IDX_VALUE'', Val 6),
      (''BPF_PSEUDO_BTF_ID'', Val 3), (''BPF_PSEUDO_FUNC'', Val 4),
      (''BPF_PSEUDO_CALL'', Val 1), (''BPF_PSEUDO_KFUNC_CALL'', Val 2)]"

definition bpf_query_flag_defines :: "(string \<times> enum_init) list" where
  "bpf_query_flag_defines = [
      (''BPF_F_QUERY_EFFECTIVE'', Shl 1 0)]"

definition bpf_test_run_flag_defines :: "(string \<times> enum_init) list" where
  "bpf_test_run_flag_defines = [
      (''BPF_F_TEST_RUN_ON_CPU'', Shl 1 0), (''BPF_F_TEST_XDP_LIVE_FRAMES'', Shl 1 1)]"

definition xdp_headroom_defines :: "(string \<times> enum_init) list" where
  "xdp_headroom_defines = [
      (''XDP_PACKET_HEADROOM'', Val 256)]"

section \<open>Enumerations and helper numbers\<close>

definition enum_BPF_REG_0 :: "(string \<times> enum_init) list" where
  "enum_BPF_REG_0 = [
      (''BPF_REG_0'', Val 0), (''BPF_REG_1'', Next), (''BPF_REG_2'', Next),
      (''BPF_REG_3'', Next), (''BPF_REG_4'', Next), (''BPF_REG_5'', Next),
      (''BPF_REG_6'', Next), (''BPF_REG_7'', Next), (''BPF_REG_8'', Next),
      (''BPF_REG_9'', Next), (''BPF_REG_10'', Next), (''__MAX_BPF_REG'', Next)]"

definition enum_bpf_cgroup_iter_order :: "(string \<times> enum_init) list" where
  "enum_bpf_cgroup_iter_order = [
      (''BPF_CGROUP_ITER_ORDER_UNSPEC'', Val 0), (''BPF_CGROUP_ITER_SELF_ONLY'', Next),
      (''BPF_CGROUP_ITER_DESCENDANTS_PRE'', Next),
      (''BPF_CGROUP_ITER_DESCENDANTS_POST'', Next), (''BPF_CGROUP_ITER_ANCESTORS_UP'', Next)]"

definition enum_bpf_cmd :: "(string \<times> enum_init) list" where
  "enum_bpf_cmd = [
      (''BPF_MAP_CREATE'', Next), (''BPF_MAP_LOOKUP_ELEM'', Next),
      (''BPF_MAP_UPDATE_ELEM'', Next), (''BPF_MAP_DELETE_ELEM'', Next),
      (''BPF_MAP_GET_NEXT_KEY'', Next), (''BPF_PROG_LOAD'', Next), (''BPF_OBJ_PIN'', Next),
      (''BPF_OBJ_GET'', Next), (''BPF_PROG_ATTACH'', Next), (''BPF_PROG_DETACH'', Next),
      (''BPF_PROG_TEST_RUN'', Next), (''BPF_PROG_RUN'', Same ''BPF_PROG_TEST_RUN''),
      (''BPF_PROG_GET_NEXT_ID'', Next), (''BPF_MAP_GET_NEXT_ID'', Next),
      (''BPF_PROG_GET_FD_BY_ID'', Next), (''BPF_MAP_GET_FD_BY_ID'', Next),
      (''BPF_OBJ_GET_INFO_BY_FD'', Next), (''BPF_PROG_QUERY'', Next),
      (''BPF_RAW_TRACEPOINT_OPEN'', Next), (''BPF_BTF_LOAD'', Next),
      (''BPF_BTF_GET_FD_BY_ID'', Next), (''BPF_TASK_FD_QUERY'', Next),
      (''BPF_MAP_LOOKUP_AND_DELETE_ELEM'', Next), (''BPF_MAP_FREEZE'', Next),
      (''BPF_BTF_GET_NEXT_ID'', Next), (''BPF_MAP_LOOKUP_BATCH'', Next),
      (''BPF_MAP_LOOKUP_AND_DELETE_BATCH'', Next), (''BPF_MAP_UPDATE_BATCH'', Next),
      (''BPF_MAP_DELETE_BATCH'', Next), (''BPF_LINK_CREATE'', Next),
      (''BPF_LINK_UPDATE'', Next), (''BPF_LINK_GET_FD_BY_ID'', Next),
      (''BPF_LINK_GET_NEXT_ID'', Next), (''BPF_ENABLE_STATS'', Next),
      (''BPF_ITER_CREATE'', Next), (''BPF_LINK_DETACH'', Next), (''BPF_PROG_BIND_MAP'', Next)]"

definition enum_bpf_map_type :: "(string \<times> enum_init) list" where
  "enum_bpf_map_type = [
      (''BPF_MAP_TYPE_UNSPEC'', Next), (''BPF_MAP_TYPE_HASH'', Next),
      (''BPF_MAP_TYPE_ARRAY'', Next), (''BPF_MAP_TYPE_PROG_ARRAY'', Next),
      (''BPF_MAP_TYPE_PERF_EVENT_ARRAY'', Next), (''BPF_MAP_TYPE_PERCPU_HASH'', Next),
      (''BPF_MAP_TYPE_PERCPU_ARRAY'', Next), (''BPF_MAP_TYPE_STACK_TRACE'', Next),
      (''BPF_MAP_TYPE_CGROUP_ARRAY'', Next), (''BPF_MAP_TYPE_LRU_HASH'', Next),
      (''BPF_MAP_TYPE_LRU_PERCPU_HASH'', Next), (''BPF_MAP_TYPE_LPM_TRIE'', Next),
      (''BPF_MAP_TYPE_ARRAY_OF_MAPS'', Next), (''BPF_MAP_TYPE_HASH_OF_MAPS'', Next),
      (''BPF_MAP_TYPE_DEVMAP'', Next), (''BPF_MAP_TYPE_SOCKMAP'', Next),
      (''BPF_MAP_TYPE_CPUMAP'', Next), (''BPF_MAP_TYPE_XSKMAP'', Next),
      (''BPF_MAP_TYPE_SOCKHASH'', Next), (''BPF_MAP_TYPE_CGROUP_STORAGE_DEPRECATED'', Next),
      (''BPF_MAP_TYPE_CGROUP_STORAGE'', Same ''BPF_MAP_TYPE_CGROUP_STORAGE_DEPRECATED''),
      (''BPF_MAP_TYPE_REUSEPORT_SOCKARRAY'', Next),
      (''BPF_MAP_TYPE_PERCPU_CGROUP_STORAGE'', Next), (''BPF_MAP_TYPE_QUEUE'', Next),
      (''BPF_MAP_TYPE_STACK'', Next), (''BPF_MAP_TYPE_SK_STORAGE'', Next),
      (''BPF_MAP_TYPE_DEVMAP_HASH'', Next), (''BPF_MAP_TYPE_STRUCT_OPS'', Next),
      (''BPF_MAP_TYPE_RINGBUF'', Next), (''BPF_MAP_TYPE_INODE_STORAGE'', Next),
      (''BPF_MAP_TYPE_TASK_STORAGE'', Next), (''BPF_MAP_TYPE_BLOOM_FILTER'', Next),
      (''BPF_MAP_TYPE_USER_RINGBUF'', Next), (''BPF_MAP_TYPE_CGRP_STORAGE'', Next)]"

definition enum_bpf_prog_type :: "(string \<times> enum_init) list" where
  "enum_bpf_prog_type = [
      (''BPF_PROG_TYPE_UNSPEC'', Next), (''BPF_PROG_TYPE_SOCKET_FILTER'', Next),
      (''BPF_PROG_TYPE_KPROBE'', Next), (''BPF_PROG_TYPE_SCHED_CLS'', Next),
      (''BPF_PROG_TYPE_SCHED_ACT'', Next), (''BPF_PROG_TYPE_TRACEPOINT'', Next),
      (''BPF_PROG_TYPE_XDP'', Next), (''BPF_PROG_TYPE_PERF_EVENT'', Next),
      (''BPF_PROG_TYPE_CGROUP_SKB'', Next), (''BPF_PROG_TYPE_CGROUP_SOCK'', Next),
      (''BPF_PROG_TYPE_LWT_IN'', Next), (''BPF_PROG_TYPE_LWT_OUT'', Next),
      (''BPF_PROG_TYPE_LWT_XMIT'', Next), (''BPF_PROG_TYPE_SOCK_OPS'', Next),
      (''BPF_PROG_TYPE_SK_SKB'', Next), (''BPF_PROG_TYPE_CGROUP_DEVICE'', Next),
      (''BPF_PROG_TYPE_SK_MSG'', Next), (''BPF_PROG_TYPE_RAW_TRACEPOINT'', Next),
      (''BPF_PROG_TYPE_CGROUP_SOCK_ADDR'', Next), (''BPF_PROG_TYPE_LWT_SEG6LOCAL'', Next),
      (''BPF_PROG_TYPE_LIRC_MODE2'', Next), (''BPF_PROG_TYPE_SK_REUSEPORT'', Next),
      (''BPF_PROG_TYPE_FLOW_DISSECTOR'', Next), (''BPF_PROG_TYPE_CGROUP_SYSCTL'', Next),
      (''BPF_PROG_TYPE_RAW_TRACEPOINT_WRITABLE'', Next),
      (''BPF_PROG_TYPE_CGROUP_SOCKOPT'', Next), (''BPF_PROG_TYPE_TRACING'', Next),
      (''BPF_PROG_TYPE_STRUCT_OPS'', Next), (''BPF_PROG_TYPE_EXT'', Next),
      (''BPF_PROG_TYPE_LSM'', Next), (''BPF_PROG_TYPE_SK_LOOKUP'', Next),
      (''BPF_PROG_TYPE_SYSCALL'', Next), (''BPF_PROG_TYPE_NETFILTER'', Next)]"

definition enum_bpf_attach_type :: "(string \<times> enum_init) list" where
  "enum_bpf_attach_type = [
      (''BPF_CGROUP_INET_INGRESS'', Next), (''BPF_CGROUP_INET_EGRESS'', Next),
      (''BPF_CGROUP_INET_SOCK_CREATE'', Next), (''BPF_CGROUP_SOCK_OPS'', Next),
      (''BPF_SK_SKB_STREAM_PARSER'', Next), (''BPF_SK_SKB_STREAM_VERDICT'', Next),
      (''BPF_CGROUP_DEVICE'', Next), (''BPF_SK_MSG_VERDICT'', Next),
      (''BPF_CGROUP_INET4_BIND'', Next), (''BPF_CGROUP_INET6_BIND'', Next),
      (''BPF_CGROUP_INET4_CONNECT'', Next), (''BPF_CGROUP_INET6_CONNECT'', Next),
      (''BPF_CGROUP_INET4_POST_BIND'', Next), (''BPF_CGROUP_INET6_POST_BIND'', Next),
      (''BPF_CGROUP_UDP4_SENDMSG'', Next), (''BPF_CGROUP_UDP6_SENDMSG'', Next),
      (''BPF_LIRC_MODE2'', Next), (''BPF_FLOW_DISSECTOR'', Next),
      (''BPF_CGROUP_SYSCTL'', Next), (''BPF_CGROUP_UDP4_RECVMSG'', Next),
      (''BPF_CGROUP_UDP6_RECVMSG'', Next), (''BPF_CGROUP_GETSOCKOPT'', Next),
      (''BPF_CGROUP_SETSOCKOPT'', Next), (''BPF_TRACE_RAW_TP'', Next),
      (''BPF_TRACE_FENTRY'', Next), (''BPF_TRACE_FEXIT'', Next), (''BPF_MODIFY_RETURN'', Next),
      (''BPF_LSM_MAC'', Next), (''BPF_TRACE_ITER'', Next),
      (''BPF_CGROUP_INET4_GETPEERNAME'', Next), (''BPF_CGROUP_INET6_GETPEERNAME'', Next),
      (''BPF_CGROUP_INET4_GETSOCKNAME'', Next), (''BPF_CGROUP_INET6_GETSOCKNAME'', Next),
      (''BPF_XDP_DEVMAP'', Next), (''BPF_CGROUP_INET_SOCK_RELEASE'', Next),
      (''BPF_XDP_CPUMAP'', Next), (''BPF_SK_LOOKUP'', Next), (''BPF_XDP'', Next),
      (''BPF_SK_SKB_VERDICT'', Next), (''BPF_SK_REUSEPORT_SELECT'', Next),
      (''BPF_SK_REUSEPORT_SELECT_OR_MIGRATE'', Next), (''BPF_PERF_EVENT'', Next),
      (''BPF_TRACE_KPROBE_MULTI'', Next), (''BPF_LSM_CGROUP'', Next),
      (''BPF_STRUCT_OPS'', Next), (''__MAX_BPF_ATTACH_TYPE'', Next)]"

definition enum_bpf_link_type :: "(string \<times> enum_init) list" where
  "enum_bpf_link_type = [
      (''BPF_LINK_TYPE_UNSPEC'', Val 0), (''BPF_LINK_TYPE_RAW_TRACEPOINT'', Val 1),
      (''BPF_LINK_TYPE_TRACING'', Val 2), (''BPF_LINK_TYPE_CGROUP'', Val 3),
      (''BPF_LINK_TYPE_ITER'', Val 4), (''BPF_LINK_TYPE_NETNS'', Val 5),
      (''BPF_LINK_TYPE_XDP'', Val 6), (''BPF_LINK_TYPE_PERF_EVENT'', Val 7),
      (''BPF_LINK_TYPE_KPROBE_MULTI'', Val 8), (''BPF_LINK_TYPE_STRUCT_OPS'', Val 9),
      (''BPF_LINK_TYPE_NETFILTER'', Val 10), (''MAX_BPF_LINK_TYPE'', Next)]"

definition enum_BPF_ANY :: "(string \<times> enum_init) list" where
  "enum_BPF_ANY = [
      (''BPF_ANY'', Val 0), (''BPF_NOEXIST'', Val 1), (''BPF_EXIST'', Val 2),
      (''BPF_F_LOCK'', Val 4)]"

definition enum_BPF_F_NO_PREALLOC :: "(string \<times> enum_init) list" where
  "enum_BPF_F_NO_PREALLOC = [
      (''BPF_F_NO_PREALLOC'', Shl 1 0), (''BPF_F_NO_COMMON_LRU'', Shl 1 1),
      (''BPF_F_NUMA_NODE'', Shl 1 2), (''BPF_F_RDONLY'', Shl 1 3), (''BPF_F_WRONLY'', Shl 1 4),
      (''BPF_F_STACK_BUILD_ID'', Shl 1 5), (''BPF_F_ZERO_SEED'', Shl 1 6),
      (''BPF_F_RDONLY_PROG'', Shl 1 7), (''BPF_F_WRONLY_PROG'', Shl 1 8),
      (''BPF_F_CLONE'', Shl 1 9), (''BPF_F_MMAPABLE'', Shl 1 10),
      (''BPF_F_PRESERVE_ELEMS'', Shl 1 11), (''BPF_F_INNER_MAP'', Shl 1 12),
      (''BPF_F_LINK'', Shl 1 13)]"

definition enum_bpf_stats_type :: "(string \<times> enum_init) list" where
  "enum_bpf_stats_type = [
      (''BPF_STATS_RUN_TIME'', Val 0)]"

definition enum_bpf_stack_build_id_status :: "(string \<times> enum_init) list" where
  "enum_bpf_stack_build_id_status = [
      (''BPF_STACK_BUILD_ID_EMPTY'', Val 0), (''BPF_STACK_BUILD_ID_VALID'', Val 1),
      (''BPF_STACK_BUILD_ID_IP'', Val 2)]"

definition bpf_func_mapper :: "(string \<times> int) list" where
  "bpf_func_mapper = [
      (''unspec'', 0), (''map_lookup_elem'', 1), (''map_update_elem'', 2),
      (''map_delete_elem'', 3), (''probe_read'', 4), (''ktime_get_ns'', 5),
      (''trace_printk'', 6), (''get_prandom_u32'', 7), (''get_smp_processor_id'', 8),
      (''skb_store_bytes'', 9), (''l3_csum_replace'', 10), (''l4_csum_replace'', 11),
      (''tail_call'', 12), (''clone_redirect'', 13), (''get_current_pid_tgid'', 14),
      (''get_current_uid_gid'', 15), (''get_current_comm'', 16), (''get_cgroup_classid'', 17),
      (''skb_vlan_push'', 18), (''skb_vlan_pop'', 19), (''skb_get_tunnel_key'', 20),
      (''skb_set_tunnel_key'', 21), (''perf_event_read'', 22), (''redirect'', 23),
      (''get_route_realm'', 24), (''perf_event_output'', 25), (''skb_load_bytes'', 26),
      (''get_stackid'', 27), (''csum_diff'', 28), (''skb_get_tunnel_opt'', 29),
      (''skb_set_tunnel_opt'', 30), (''skb_change_proto'', 31), (''skb_change_type'', 32),
      (''skb_under_cgroup'', 33), (''get_hash_recalc'', 34), (''get_current_task'', 35),
      (''probe_write_user'', 36), (''current_task_under_cgroup'', 37),
      (''skb_change_tail'', 38), (''skb_pull_data'', 39), (''csum_update'', 40),
      (''set_hash_invalid'', 41), (''get_numa_node_id'', 42), (''skb_change_head'', 43),
      (''xdp_adjust_head'', 44), (''probe_read_str'', 45), (''get_socket_cookie'', 46),
      (''get_socket_uid'', 47), (''set_hash'', 48), (''setsockopt'', 49),
      (''skb_adjust_room'', 50), (''redirect_map'', 51), (''sk_redirect_map'', 52),
      (''sock_map_update'', 53), (''xdp_adjust_meta'', 54), (''perf_event_read_value'', 55),
      (''perf_prog_read_value'', 56), (''getsockopt'', 57), (''override_return'', 58),
      (''sock_ops_cb_flags_set'', 59), (''msg_redirect_map'', 60), (''msg_apply_bytes'', 61),
      (''msg_cork_bytes'', 62), (''msg_pull_data'', 63), (''bind'', 64),
      (''xdp_adjust_tail'', 65), (''skb_get_xfrm_state'', 66), (''get_stack'', 67),
      (''skb_load_bytes_relative'', 68), (''fib_lookup'', 69), (''sock_hash_update'', 70),
      (''msg_redirect_hash'', 71), (''sk_redirect_hash'', 72), (''lwt_push_encap'', 73),
      (''lwt_seg6_store_bytes'', 74), (''lwt_seg6_adjust_srh'', 75), (''lwt_seg6_action'', 76),
      (''rc_repeat'', 77), (''rc_keydown'', 78), (''skb_cgroup_id'', 79),
      (''get_current_cgroup_id'', 80), (''get_local_storage'', 81),
      (''sk_select_reuseport'', 82), (''skb_ancestor_cgroup_id'', 83), (''sk_lookup_tcp'', 84),
      (''sk_lookup_udp'', 85), (''sk_release'', 86), (''map_push_elem'', 87),
      (''map_pop_elem'', 88), (''map_peek_elem'', 89), (''msg_push_data'', 90),
      (''msg_pop_data'', 91), (''rc_pointer_rel'', 92), (''spin_lock'', 93),
      (''spin_unlock'', 94), (''sk_fullsock'', 95), (''tcp_sock'', 96),
      (''skb_ecn_set_ce'', 97), (''get_listener_sock'', 98), (''skc_lookup_tcp'', 99),
      (''tcp_check_syncookie'', 100), (''sysctl_get_name'', 101),
      (''sysctl_get_current_value'', 102), (''sysctl_get_new_value'', 103),
      (''sysctl_set_new_value'', 104), (''strtol'', 105), (''strtoul'', 106),
      (''sk_storage_get'', 107), (''sk_storage_delete'', 108), (''send_signal'', 109),
      (''tcp_gen_syncookie'', 110), (''skb_output'', 111), (''probe_read_user'', 112),
      (''probe_read_kernel'', 113), (''probe_read_user_str'', 114),
      (''probe_read_kernel_str'', 115), (''tcp_send_ack'', 116), (''send_signal_thread'', 117),
      (''jiffies64'', 118), (''read_branch_records'', 119), (''get_ns_current_pid_tgid'', 120),
      (''xdp_output'', 121), (''get_netns_cookie'', 122),
      (''get_current_ancestor_cgroup_id'', 123), (''sk_assign'', 124),
      (''ktime_get_boot_ns'', 125), (''seq_printf'', 126), (''seq_write'', 127),
      (''sk_cgroup_id'', 128), (''sk_ancestor_cgroup_id'', 129), (''ringbuf_output'', 130),
      (''ringbuf_reserve'', 131), (''ringbuf_submit'', 132), (''ringbuf_discard'', 133),
      (''ringbuf_query'', 134), (''csum_level'', 135), (''skc_to_tcp6_sock'', 136),
      (''skc_to_tcp_sock'', 137), (''skc_to_tcp_timewait_sock'', 138),
      (''skc_to_tcp_request_sock'', 139), (''skc_to_udp6_sock'', 140),
      (''get_task_stack'', 141), (''load_hdr_opt'', 142), (''store_hdr_opt'', 143),
      (''reserve_hdr_opt'', 144), (''inode_storage_get'', 145),
      (''inode_storage_delete'', 146), (''d_path'', 147), (''copy_from_user'', 148),
      (''snprintf_btf'', 149), (''seq_printf_btf'', 150), (''skb_cgroup_classid'', 151),
      (''redirect_neigh'', 152), (''per_cpu_ptr'', 153), (''this_cpu_ptr'', 154),
      (''redirect_peer'', 155), (''task_storage_get'', 156), (''task_storage_delete'', 157),
      (''get_current_task_btf'', 158), (''bprm_opts_set'', 159),
      (''ktime_get_coarse_ns'', 160), (''ima_inode_hash'', 161), (''sock_from_file'', 162),
      (''check_mtu'', 163), (''for_each_map_elem'', 164), (''snprintf'', 165),
      (''sys_bpf'', 166), (''btf_find_by_name_kind'', 167), (''sys_close'', 168),
      (''timer_init'', 169), (''timer_set_callback'', 170), (''timer_start'', 171),
      (''timer_cancel'', 172), (''get_func_ip'', 173), (''get_attach_cookie'', 174),
      (''task_pt_regs'', 175), (''get_branch_snapshot'', 176), (''trace_vprintk'', 177),
      (''skc_to_unix_sock'', 178), (''kallsyms_lookup_name'', 179), (''find_vma'', 180),
      (''loop'', 181), (''strncmp'', 182), (''get_func_arg'', 183), (''get_func_ret'', 184),
      (''get_func_arg_cnt'', 185), (''get_retval'', 186), (''set_retval'', 187),
      (''xdp_get_buff_len'', 188), (''xdp_load_bytes'', 189), (''xdp_store_bytes'', 190),
      (''copy_from_user_task'', 191), (''skb_set_tstamp'', 192), (''ima_file_hash'', 193),
      (''kptr_xchg'', 194), (''map_lookup_percpu_elem'', 195), (''skc_to_mptcp_sock'', 196),
      (''dynptr_from_mem'', 197), (''ringbuf_reserve_dynptr'', 198),
      (''ringbuf_submit_dynptr'', 199), (''ringbuf_discard_dynptr'', 200),
      (''dynptr_read'', 201), (''dynptr_write'', 202), (''dynptr_data'', 203),
      (''tcp_raw_gen_syncookie_ipv4'', 204), (''tcp_raw_gen_syncookie_ipv6'', 205),
      (''tcp_raw_check_syncookie_ipv4'', 206), (''tcp_raw_check_syncookie_ipv6'', 207),
      (''ktime_get_tai_ns'', 208), (''user_ringbuf_drain'', 209), (''cgrp_storage_get'', 210),
      (''cgrp_storage_delete'', 211)]"

definition enum_bpf_func_id :: "(string \<times> enum_init) list" where
  "enum_bpf_func_id =
     map (\<lambda>(x, y). (''BPF_FUNC_'' @ x, Val y)) bpf_func_mapper @ [(''__BPF_FUNC_MAX_ID'', Next)]"

definition enum_BPF_F_RECOMPUTE_CSUM :: "(string \<times> enum_init) list" where
  "enum_BPF_F_RECOMPUTE_CSUM = [
      (''BPF_F_RECOMPUTE_CSUM'', Shl 1 0), (''BPF_F_INVALIDATE_HASH'', Shl 1 1)]"

definition enum_BPF_F_HDR_FIELD_MASK :: "(string \<times> enum_init) list" where
  "enum_BPF_F_HDR_FIELD_MASK = [
      (''BPF_F_HDR_FIELD_MASK'', Val 0xf)]"

definition enum_BPF_F_PSEUDO_HDR :: "(string \<times> enum_init) list" where
  "enum_BPF_F_PSEUDO_HDR = [
      (''BPF_F_PSEUDO_HDR'', Shl 1 4), (''BPF_F_MARK_MANGLED_0'', Shl 1 5),
      (''BPF_F_MARK_ENFORCE'', Shl 1 6)]"

definition enum_BPF_F_INGRESS :: "(string \<times> enum_init) list" where
  "enum_BPF_F_INGRESS = [
      (''BPF_F_INGRESS'', Shl 1 0)]"

definition enum_BPF_F_TUNINFO_IPV6 :: "(string \<times> enum_init) list" where
  "enum_BPF_F_TUNINFO_IPV6 = [
      (''BPF_F_TUNINFO_IPV6'', Shl 1 0)]"

definition enum_BPF_F_SKIP_FIELD_MASK :: "(string \<times> enum_init) list" where
  "enum_BPF_F_SKIP_FIELD_MASK = [
      (''BPF_F_SKIP_FIELD_MASK'', Val 0xff), (''BPF_F_USER_STACK'', Shl 1 8),
      (''BPF_F_FAST_STACK_CMP'', Shl 1 9), (''BPF_F_REUSE_STACKID'', Shl 1 10),
      (''BPF_F_USER_BUILD_ID'', Shl 1 11)]"

definition enum_BPF_F_ZERO_CSUM_TX :: "(string \<times> enum_init) list" where
  "enum_BPF_F_ZERO_CSUM_TX = [
      (''BPF_F_ZERO_CSUM_TX'', Shl 1 1), (''BPF_F_DONT_FRAGMENT'', Shl 1 2),
      (''BPF_F_SEQ_NUMBER'', Shl 1 3), (''BPF_F_NO_TUNNEL_KEY'', Shl 1 4)]"

definition enum_BPF_F_TUNINFO_FLAGS :: "(string \<times> enum_init) list" where
  "enum_BPF_F_TUNINFO_FLAGS = [
      (''BPF_F_TUNINFO_FLAGS'', Shl 1 4)]"

definition enum_BPF_F_INDEX_MASK :: "(string \<times> enum_init) list" where
  "enum_BPF_F_INDEX_MASK = [
      (''BPF_F_INDEX_MASK'', Val 0xffffffff),
      (''BPF_F_CURRENT_CPU'', Same ''BPF_F_INDEX_MASK''),
      (''BPF_F_CTXLEN_MASK'', Shl 0xfffff 32)]"

definition enum_BPF_F_CURRENT_NETNS :: "(string \<times> enum_init) list" where
  "enum_BPF_F_CURRENT_NETNS = [
      (''BPF_F_CURRENT_NETNS'', Val (-1))]"

definition enum_BPF_CSUM_LEVEL_QUERY :: "(string \<times> enum_init) list" where
  "enum_BPF_CSUM_LEVEL_QUERY = [
      (''BPF_CSUM_LEVEL_QUERY'', Next), (''BPF_CSUM_LEVEL_INC'', Next),
      (''BPF_CSUM_LEVEL_DEC'', Next), (''BPF_CSUM_LEVEL_RESET'', Next)]"

definition enum_BPF_F_ADJ_ROOM_FIXED_GSO :: "(string \<times> enum_init) list" where
  "enum_BPF_F_ADJ_ROOM_FIXED_GSO = [
      (''BPF_F_ADJ_ROOM_FIXED_GSO'', Shl 1 0), (''BPF_F_ADJ_ROOM_ENCAP_L3_IPV4'', Shl 1 1),
      (''BPF_F_ADJ_ROOM_ENCAP_L3_IPV6'', Shl 1 2), (''BPF_F_ADJ_ROOM_ENCAP_L4_GRE'', Shl 1 3),
      (''BPF_F_ADJ_ROOM_ENCAP_L4_UDP'', Shl 1 4), (''BPF_F_ADJ_ROOM_NO_CSUM_RESET'', Shl 1 5),
      (''BPF_F_ADJ_ROOM_ENCAP_L2_ETH'', Shl 1 6), (''BPF_F_ADJ_ROOM_DECAP_L3_IPV4'', Shl 1 7),
      (''BPF_F_ADJ_ROOM_DECAP_L3_IPV6'', Shl 1 8)]"

definition enum_BPF_ADJ_ROOM_ENCAP_L2_MASK :: "(string \<times> enum_init) list" where
  "enum_BPF_ADJ_ROOM_ENCAP_L2_MASK = [
      (''BPF_ADJ_ROOM_ENCAP_L2_MASK'', Val 0xff), (''BPF_ADJ_ROOM_ENCAP_L2_SHIFT'', Val 56)]"

definition enum_BPF_F_SYSCTL_BASE_NAME :: "(string \<times> enum_init) list" where
  "enum_BPF_F_SYSCTL_BASE_NAME = [
      (''BPF_F_SYSCTL_BASE_NAME'', Shl 1 0)]"

definition enum_BPF_LOCAL_STORAGE_GET_F_CREATE :: "(string \<times> enum_init) list" where
  "enum_BPF_LOCAL_STORAGE_GET_F_CREATE = [
      (''BPF_LOCAL_STORAGE_GET_F_CREATE'', Shl 1 0),
      (''BPF_SK_STORAGE_GET_F_CREATE'', Same ''BPF_LOCAL_STORAGE_GET_F_CREATE'')]"

definition enum_BPF_F_GET_BRANCH_RECORDS_SIZE :: "(string \<times> enum_init) list" where
  "enum_BPF_F_GET_BRANCH_RECORDS_SIZE = [
      (''BPF_F_GET_BRANCH_RECORDS_SIZE'', Shl 1 0)]"

definition enum_BPF_RB_NO_WAKEUP :: "(string \<times> enum_init) list" where
  "enum_BPF_RB_NO_WAKEUP = [
      (''BPF_RB_NO_WAKEUP'', Shl 1 0), (''BPF_RB_FORCE_WAKEUP'', Shl 1 1)]"

definition enum_BPF_RB_AVAIL_DATA :: "(string \<times> enum_init) list" where
  "enum_BPF_RB_AVAIL_DATA = [
      (''BPF_RB_AVAIL_DATA'', Val 0), (''BPF_RB_RING_SIZE'', Val 1),
      (''BPF_RB_CONS_POS'', Val 2), (''BPF_RB_PROD_POS'', Val 3)]"

definition enum_BPF_RINGBUF_BUSY_BIT :: "(string \<times> enum_init) list" where
  "enum_BPF_RINGBUF_BUSY_BIT = [
      (''BPF_RINGBUF_BUSY_BIT'', Shl 1 31), (''BPF_RINGBUF_DISCARD_BIT'', Shl 1 30),
      (''BPF_RINGBUF_HDR_SZ'', Val 8)]"

definition enum_BPF_SK_LOOKUP_F_REPLACE :: "(string \<times> enum_init) list" where
  "enum_BPF_SK_LOOKUP_F_REPLACE = [
      (''BPF_SK_LOOKUP_F_REPLACE'', Shl 1 0), (''BPF_SK_LOOKUP_F_NO_REUSEPORT'', Shl 1 1)]"

definition enum_bpf_adj_room_mode :: "(string \<times> enum_init) list" where
  "enum_bpf_adj_room_mode = [
      (''BPF_ADJ_ROOM_NET'', Next), (''BPF_ADJ_ROOM_MAC'', Next)]"

definition enum_bpf_hdr_start_off :: "(string \<times> enum_init) list" where
  "enum_bpf_hdr_start_off = [
      (''BPF_HDR_START_MAC'', Next), (''BPF_HDR_START_NET'', Next)]"

definition enum_bpf_lwt_encap_mode :: "(string \<times> enum_init) list" where
  "enum_bpf_lwt_encap_mode = [
      (''BPF_LWT_ENCAP_SEG6'', Next), (''BPF_LWT_ENCAP_SEG6_INLINE'', Next),
      (''BPF_LWT_ENCAP_IP'', Next)]"

definition enum_BPF_F_BPRM_SECUREEXEC :: "(string \<times> enum_init) list" where
  "enum_BPF_F_BPRM_SECUREEXEC = [
      (''BPF_F_BPRM_SECUREEXEC'', Shl 1 0)]"

definition enum_BPF_F_BROADCAST :: "(string \<times> enum_init) list" where
  "enum_BPF_F_BROADCAST = [
      (''BPF_F_BROADCAST'', Shl 1 3), (''BPF_F_EXCLUDE_INGRESS'', Shl 1 4)]"

definition enum_BPF_SKB_TSTAMP_UNSPEC :: "(string \<times> enum_init) list" where
  "enum_BPF_SKB_TSTAMP_UNSPEC = [
      (''BPF_SKB_TSTAMP_UNSPEC'', Next), (''BPF_SKB_TSTAMP_DELIVERY_MONO'', Next)]"

definition enum_bpf_ret_code :: "(string \<times> enum_init) list" where
  "enum_bpf_ret_code = [
      (''BPF_OK'', Val 0), (''BPF_DROP'', Val 2), (''BPF_REDIRECT'', Val 7),
      (''BPF_LWT_REROUTE'', Val 128), (''BPF_FLOW_DISSECTOR_CONTINUE'', Val 129)]"

definition enum_xdp_action :: "(string \<times> enum_init) list" where
  "enum_xdp_action = [
      (''XDP_ABORTED'', Val 0), (''XDP_DROP'', Next), (''XDP_PASS'', Next), (''XDP_TX'', Next),
      (''XDP_REDIRECT'', Next)]"

definition enum_sk_action :: "(string \<times> enum_init) list" where
  "enum_sk_action = [
      (''SK_DROP'', Val 0), (''SK_PASS'', Next)]"

definition enum_BPF_SOCK_OPS_RTO_CB_FLAG :: "(string \<times> enum_init) list" where
  "enum_BPF_SOCK_OPS_RTO_CB_FLAG = [
      (''BPF_SOCK_OPS_RTO_CB_FLAG'', Shl 1 0), (''BPF_SOCK_OPS_RETRANS_CB_FLAG'', Shl 1 1),
      (''BPF_SOCK_OPS_STATE_CB_FLAG'', Shl 1 2), (''BPF_SOCK_OPS_RTT_CB_FLAG'', Shl 1 3),
      (''BPF_SOCK_OPS_PARSE_ALL_HDR_OPT_CB_FLAG'', Shl 1 4),
      (''BPF_SOCK_OPS_PARSE_UNKNOWN_HDR_OPT_CB_FLAG'', Shl 1 5),
      (''BPF_SOCK_OPS_WRITE_HDR_OPT_CB_FLAG'', Shl 1 6),
      (''BPF_SOCK_OPS_ALL_CB_FLAGS'', Val 0x7F)]"

definition enum_BPF_SOCK_OPS_VOID :: "(string \<times> enum_init) list" where
  "enum_BPF_SOCK_OPS_VOID = [
      (''BPF_SOCK_OPS_VOID'', Next), (''BPF_SOCK_OPS_TIMEOUT_INIT'', Next),
      (''BPF_SOCK_OPS_RWND_INIT'', Next), (''BPF_SOCK_OPS_TCP_CONNECT_CB'', Next),
      (''BPF_SOCK_OPS_ACTIVE_ESTABLISHED_CB'', Next),
      (''BPF_SOCK_OPS_PASSIVE_ESTABLISHED_CB'', Next), (''BPF_SOCK_OPS_NEEDS_ECN'', Next),
      (''BPF_SOCK_OPS_BASE_RTT'', Next), (''BPF_SOCK_OPS_RTO_CB'', Next),
      (''BPF_SOCK_OPS_RETRANS_CB'', Next), (''BPF_SOCK_OPS_STATE_CB'', Next),
      (''BPF_SOCK_OPS_TCP_LISTEN_CB'', Next), (''BPF_SOCK_OPS_RTT_CB'', Next),
      (''BPF_SOCK_OPS_PARSE_HDR_OPT_CB'', Next), (''BPF_SOCK_OPS_HDR_OPT_LEN_CB'', Next),
      (''BPF_SOCK_OPS_WRITE_HDR_OPT_CB'', Next)]"

definition enum_BPF_TCP_ESTABLISHED :: "(string \<times> enum_init) list" where
  "enum_BPF_TCP_ESTABLISHED = [
      (''BPF_TCP_ESTABLISHED'', Val 1), (''BPF_TCP_SYN_SENT'', Next),
      (''BPF_TCP_SYN_RECV'', Next), (''BPF_TCP_FIN_WAIT1'', Next),
      (''BPF_TCP_FIN_WAIT2'', Next), (''BPF_TCP_TIME_WAIT'', Next), (''BPF_TCP_CLOSE'', Next),
      (''BPF_TCP_CLOSE_WAIT'', Next), (''BPF_TCP_LAST_ACK'', Next), (''BPF_TCP_LISTEN'', Next),
      (''BPF_TCP_CLOSING'', Next), (''BPF_TCP_NEW_SYN_RECV'', Next),
      (''BPF_TCP_MAX_STATES'', Next)]"

definition enum_TCP_BPF_IW :: "(string \<times> enum_init) list" where
  "enum_TCP_BPF_IW = [
      (''TCP_BPF_IW'', Val 1001), (''TCP_BPF_SNDCWND_CLAMP'', Val 1002),
      (''TCP_BPF_DELACK_MAX'', Val 1003), (''TCP_BPF_RTO_MIN'', Val 1004),
      (''TCP_BPF_SYN'', Val 1005), (''TCP_BPF_SYN_IP'', Val 1006),
      (''TCP_BPF_SYN_MAC'', Val 1007)]"

definition enum_BPF_LOAD_HDR_OPT_TCP_SYN :: "(string \<times> enum_init) list" where
  "enum_BPF_LOAD_HDR_OPT_TCP_SYN = [
      (''BPF_LOAD_HDR_OPT_TCP_SYN'', Shl 1 0)]"

definition enum_BPF_WRITE_HDR_TCP_CURRENT_MSS :: "(string \<times> enum_init) list" where
  "enum_BPF_WRITE_HDR_TCP_CURRENT_MSS = [
      (''BPF_WRITE_HDR_TCP_CURRENT_MSS'', Val 1), (''BPF_WRITE_HDR_TCP_SYNACK_COOKIE'', Val 2)]"

definition enum_BPF_DEVCG_ACC_MKNOD :: "(string \<times> enum_init) list" where
  "enum_BPF_DEVCG_ACC_MKNOD = [
      (''BPF_DEVCG_ACC_MKNOD'', Shl 1 0), (''BPF_DEVCG_ACC_READ'', Shl 1 1),
      (''BPF_DEVCG_ACC_WRITE'', Shl 1 2)]"

definition enum_BPF_DEVCG_DEV_BLOCK :: "(string \<times> enum_init) list" where
  "enum_BPF_DEVCG_DEV_BLOCK = [
      (''BPF_DEVCG_DEV_BLOCK'', Shl 1 0), (''BPF_DEVCG_DEV_CHAR'', Shl 1 1)]"

definition enum_BPF_FIB_LOOKUP_DIRECT :: "(string \<times> enum_init) list" where
  "enum_BPF_FIB_LOOKUP_DIRECT = [
      (''BPF_FIB_LOOKUP_DIRECT'', Shl 1 0), (''BPF_FIB_LOOKUP_OUTPUT'', Shl 1 1),
      (''BPF_FIB_LOOKUP_SKIP_NEIGH'', Shl 1 2)]"

definition enum_BPF_FIB_LKUP_RET_SUCCESS :: "(string \<times> enum_init) list" where
  "enum_BPF_FIB_LKUP_RET_SUCCESS = [
      (''BPF_FIB_LKUP_RET_SUCCESS'', Next), (''BPF_FIB_LKUP_RET_BLACKHOLE'', Next),
      (''BPF_FIB_LKUP_RET_UNREACHABLE'', Next), (''BPF_FIB_LKUP_RET_PROHIBIT'', Next),
      (''BPF_FIB_LKUP_RET_NOT_FWDED'', Next), (''BPF_FIB_LKUP_RET_FWD_DISABLED'', Next),
      (''BPF_FIB_LKUP_RET_UNSUPP_LWT'', Next), (''BPF_FIB_LKUP_RET_NO_NEIGH'', Next),
      (''BPF_FIB_LKUP_RET_FRAG_NEEDED'', Next)]"

definition enum_bpf_check_mtu_flags :: "(string \<times> enum_init) list" where
  "enum_bpf_check_mtu_flags = [
      (''BPF_MTU_CHK_SEGS'', Shl 1 0)]"

definition enum_bpf_check_mtu_ret :: "(string \<times> enum_init) list" where
  "enum_bpf_check_mtu_ret = [
      (''BPF_MTU_CHK_RET_SUCCESS'', Next), (''BPF_MTU_CHK_RET_FRAG_NEEDED'', Next),
      (''BPF_MTU_CHK_RET_SEGS_TOOBIG'', Next)]"

definition enum_bpf_task_fd_type :: "(string \<times> enum_init) list" where
  "enum_bpf_task_fd_type = [
      (''BPF_FD_TYPE_RAW_TRACEPOINT'', Next), (''BPF_FD_TYPE_TRACEPOINT'', Next),
      (''BPF_FD_TYPE_KPROBE'', Next), (''BPF_FD_TYPE_KRETPROBE'', Next),
      (''BPF_FD_TYPE_UPROBE'', Next), (''BPF_FD_TYPE_URETPROBE'', Next)]"

definition enum_BPF_FLOW_DISSECTOR_F_PARSE_1ST_FRAG :: "(string \<times> enum_init) list" where
  "enum_BPF_FLOW_DISSECTOR_F_PARSE_1ST_FRAG = [
      (''BPF_FLOW_DISSECTOR_F_PARSE_1ST_FRAG'', Shl 1 0),
      (''BPF_FLOW_DISSECTOR_F_STOP_AT_FLOW_LABEL'', Shl 1 1),
      (''BPF_FLOW_DISSECTOR_F_STOP_AT_ENCAP'', Shl 1 2)]"

definition enum_BTF_F_COMPACT :: "(string \<times> enum_init) list" where
  "enum_BTF_F_COMPACT = [
      (''BTF_F_COMPACT'', Shl 1 0), (''BTF_F_NONAME'', Shl 1 1), (''BTF_F_PTR_RAW'', Shl 1 2),
      (''BTF_F_ZERO'', Shl 1 3)]"

definition enum_bpf_core_relo_kind :: "(string \<times> enum_init) list" where
  "enum_bpf_core_relo_kind = [
      (''BPF_CORE_FIELD_BYTE_OFFSET'', Val 0), (''BPF_CORE_FIELD_BYTE_SIZE'', Val 1),
      (''BPF_CORE_FIELD_EXISTS'', Val 2), (''BPF_CORE_FIELD_SIGNED'', Val 3),
      (''BPF_CORE_FIELD_LSHIFT_U64'', Val 4), (''BPF_CORE_FIELD_RSHIFT_U64'', Val 5),
      (''BPF_CORE_TYPE_ID_LOCAL'', Val 6), (''BPF_CORE_TYPE_ID_TARGET'', Val 7),
      (''BPF_CORE_TYPE_EXISTS'', Val 8), (''BPF_CORE_TYPE_SIZE'', Val 9),
      (''BPF_CORE_ENUMVAL_EXISTS'', Val 10), (''BPF_CORE_ENUMVAL_VALUE'', Val 11),
      (''BPF_CORE_TYPE_MATCHES'', Val 12)]"

definition enum_BPF_F_TIMER_ABS :: "(string \<times> enum_init) list" where
  "enum_BPF_F_TIMER_ABS = [
      (''BPF_F_TIMER_ABS'', Shl 1 0)]"

section \<open>Bounds defined by enumerators\<close>

definition MAX_BPF_REG :: int where
  "MAX_BPF_REG = the (enum_val enum_BPF_REG_0 ''__MAX_BPF_REG'')"

definition MAX_BPF_ATTACH_TYPE :: int where
  "MAX_BPF_ATTACH_TYPE = the (enum_val enum_bpf_attach_type ''__MAX_BPF_ATTACH_TYPE'')"

text \<open>They count the enumerators before them.\<close>

lemma max_values:
  "MAX_BPF_REG = 11" "MAX_BPF_ATTACH_TYPE = 45"
  by (simp_all add: MAX_BPF_REG_def MAX_BPF_ATTACH_TYPE_def enum_val_def c_enum_def enum_BPF_REG_0_def
      enum_bpf_attach_type_def)

section \<open>Function-like macros\<close>

text \<open>\<open>BPF_LINE_INFO_LINE_NUM\<close> and \<open>BPF_LINE_INFO_LINE_COL\<close> split the member \<open>line_col\<close>.\<close>

definition BPF_LINE_INFO_LINE_NUM :: "u32 \<Rightarrow> u32" where
  "BPF_LINE_INFO_LINE_NUM line_col = drop_bit 10 line_col"

definition BPF_LINE_INFO_LINE_COL :: "u32 \<Rightarrow> u32" where
  "BPF_LINE_INFO_LINE_COL line_col = line_col AND 0x3ff"

text \<open>\<open>BPF_F_ADJ_ROOM_ENCAP_L2 (len)\<close>: the length in the highest byte of the flags.\<close>

definition BPF_F_ADJ_ROOM_ENCAP_L2 :: "u32 \<Rightarrow> u64" where
  "BPF_F_ADJ_ROOM_ENCAP_L2 len = push_bit 56 (ucast len AND 0xff)"

lemma line_info_split:
  "push_bit 10 (BPF_LINE_INFO_LINE_NUM w) OR BPF_LINE_INFO_LINE_COL w = w"
  "BPF_LINE_INFO_LINE_COL w < 1024"
proof -
  have col: "BPF_LINE_INFO_LINE_COL w = take_bit 10 w"
    by (simp add: BPF_LINE_INFO_LINE_COL_def take_bit_eq_mask mask_eq_exp_minus_1)
  show "push_bit 10 (BPF_LINE_INFO_LINE_NUM w) OR BPF_LINE_INFO_LINE_COL w = w"
    by (rule bit_word_eqI)
      (auto simp: col BPF_LINE_INFO_LINE_NUM_def bit_simps)
  show "BPF_LINE_INFO_LINE_COL w < 1024"
    using and_mask_less' [of 10 w] by (simp add: col take_bit_eq_mask)
qed

lemma adj_room_encap_decode:
  assumes "flags < 2 ^ 56" and "len < 256"
  shows "drop_bit 56 (BPF_F_ADJ_ROOM_ENCAP_L2 len OR flags) = ucast len"
proof (rule bit_word_eqI)
  fix n assume n: "n < LENGTH(64)"
  have "take_bit 56 flags = flags"
    using assms(1) by (simp add: take_bit_eq_mask less_mask_eq)
  then have f: "bit flags m \<longleftrightarrow> bit flags m \<and> m < 56" for m
    by (metis bit_take_bit_iff)
  have "take_bit 8 len = len"
    using assms(2) by (simp add: take_bit_eq_mask less_mask_eq)
  then have l: "bit len m \<longleftrightarrow> bit len m \<and> m < 8" for m
    by (metis bit_take_bit_iff)
  have mask: "(0xff :: u64) = mask 8" by (simp add: mask_eq_exp_minus_1)
  show "bit (drop_bit 56 (BPF_F_ADJ_ROOM_ENCAP_L2 len OR flags)) n \<longleftrightarrow> bit (ucast len :: u64) n"
    using n f [of "56 + n"] l [of n]
    by (auto simp: BPF_F_ADJ_ROOM_ENCAP_L2_def bit_simps mask)
qed

section \<open>Helper numbers\<close>

lemma enum_vals_explicit:
  "enum_vals n acc (map (\<lambda>(x, v). (x, Val v)) xs @ es) =
   enum_vals (last (n # map (\<lambda>(x, v). v + 1) xs)) (acc @ xs) es"
  by (induction xs arbitrary: n acc) (auto simp: Let_def)

lemma bpf_func_values: "map snd bpf_func_mapper = map int [0..<212]"
  by code_simp

lemma bpf_func_names: "map (drop 4 \<circ> h_name) bpf_helpers = take 141 (drop 1 (map fst bpf_func_mapper))"
  by code_simp

lemma c_enum_prefixed:
  "c_enum (map (\<lambda>(x, v). (p @ x, Val v)) xs @ [(m, Next)]) =
   map (\<lambda>(x, v). (p @ x, v)) xs @ [(m, last (0 # map (\<lambda>v. v + 1) (map snd xs)))]"
proof -
  let ?ys = "map (\<lambda>(x, v). (p @ x, v)) xs"
  have "map (\<lambda>(x, v). (p @ x, Val v)) xs = map (\<lambda>(x, v). (x, Val v)) ?ys"
    by (simp add: comp_def case_prod_beta)
  moreover have "map (\<lambda>(x, v). v + 1) ?ys = map (\<lambda>v. v + 1) (map snd xs)"
    by (simp add: comp_def case_prod_beta)
  ultimately show ?thesis
    by (simp add: c_enum_def enum_vals_explicit Let_def del: map_map)
qed

lemma c_enum_bpf_func_id:
  "c_enum enum_bpf_func_id =
   map (\<lambda>(x, v). (''BPF_FUNC_'' @ x, v)) bpf_func_mapper @ [(''__BPF_FUNC_MAX_ID'', 212)]"
  by (simp only: enum_bpf_func_id_def c_enum_prefixed bpf_func_values) (simp add: last_map)

lemma helper_enum_value:
  assumes "h \<in> set bpf_helpers"
  shows "(x, int (h_id h)) \<in> set (c_enum enum_bpf_func_id) \<longleftrightarrow> x = ''BPF_FUNC_'' @ drop 4 (h_name h)"
proof -
  obtain i where i: "i < 141" "h = bpf_helpers ! i"
    using assms by (auto simp: in_set_conv_nth length_bpf_helpers)
  then have id: "h_id h = i + 1" by (simp add: nth_bpf_helpers_id length_bpf_helpers)
  have len: "length bpf_func_mapper = 212"
    using arg_cong [OF bpf_func_values, of length] by simp
  have val: "snd (bpf_func_mapper ! j) = int j" if "j < 212" for j
    using that len arg_cong [OF bpf_func_values, of "\<lambda>l. l ! j"] by simp
  have "map (drop 4 \<circ> h_name) bpf_helpers ! i = take 141 (drop 1 (map fst bpf_func_mapper)) ! i"
    by (simp only: bpf_func_names)
  then have name: "fst (bpf_func_mapper ! (i + 1)) = drop 4 (h_name h)"
    using i len by (simp add: length_bpf_helpers)
  have "(x, int (i + 1)) \<in> set (c_enum enum_bpf_func_id) \<longleftrightarrow>
      (\<exists>j < 212. x = ''BPF_FUNC_'' @ fst (bpf_func_mapper ! j) \<and> int j = int (i + 1))"
    using i val len by (force simp: c_enum_bpf_func_id in_set_conv_nth case_prod_beta)
  also have "\<dots> \<longleftrightarrow> x = ''BPF_FUNC_'' @ fst (bpf_func_mapper ! (i + 1))"
    using i by (auto simp only: of_nat_eq_iff intro!: exI [of _ "i + 1"])
  finally show ?thesis by (simp only: id name)
qed

section \<open>Flag words\<close>

text \<open>
  The flags that may be combined in one argument, by the helper, command or member that takes it;
  where the header splits them over several enumerations these stand together.
\<close>

definition flag_words :: "(string \<times> (string \<times> enum_init) list list) list" where
  "flag_words = [
     (''BPF_PROG_ATTACH'', [bpf_attach_flag_defines]),
     (''BPF_PROG_LOAD'', [bpf_prog_load_flag_defines]),
     (''BPF_MAP_CREATE'', [enum_BPF_F_NO_PREALLOC]),
     (''BPF_PROG_TEST_RUN'', [bpf_test_run_flag_defines]),
     (''skb_store_bytes'', [enum_BPF_F_RECOMPUTE_CSUM]),
     (''l4_csum_replace'', [enum_BPF_F_HDR_FIELD_MASK, enum_BPF_F_PSEUDO_HDR]),
     (''skb_set_tunnel_key'', [enum_BPF_F_TUNINFO_IPV6, enum_BPF_F_ZERO_CSUM_TX]),
     (''skb_get_tunnel_key'', [enum_BPF_F_TUNINFO_IPV6, enum_BPF_F_TUNINFO_FLAGS]),
     (''get_stackid'', [enum_BPF_F_SKIP_FIELD_MASK]),
     (''skb_adjust_room'', [enum_BPF_F_ADJ_ROOM_FIXED_GSO]),
     (''ringbuf_output'', [enum_BPF_RB_NO_WAKEUP]),
     (''sk_assign'', [enum_BPF_SK_LOOKUP_F_REPLACE]),
     (''redirect_map'', [enum_BPF_F_BROADCAST]),
     (''access_type'', [enum_BPF_DEVCG_ACC_MKNOD]),
     (''fib_lookup'', [enum_BPF_FIB_LOOKUP_DIRECT]),
     (''flow_keys.flags'', [enum_BPF_FLOW_DISSECTOR_F_PARSE_1ST_FRAG]),
     (''snprintf_btf'', [enum_BTF_F_COMPACT])]"

definition flag_values :: "(string \<times> enum_init) list list \<Rightarrow> int list" where
  "flag_values es = concat (map (\<lambda>e. map snd (c_enum e)) es)"

definition flags_disjoint :: "int list \<Rightarrow> bool" where
  "flags_disjoint fs \<longleftrightarrow> 0 \<notin> set fs \<and> sorted_wrt (\<lambda>a b. a AND b = 0) fs"

lemma flags_disjointD:
  assumes "flags_disjoint fs" and "a \<in> set fs" and "b \<in> set fs"
  shows "a AND b = 0 \<longleftrightarrow> a \<noteq> b"
proof -
  have "a AND b = 0" if "sorted_wrt (\<lambda>a b. a AND b = 0) gs" "a \<in> set gs" "b \<in> set gs" "a \<noteq> b" for gs
    using that by (induction gs) (auto simp: and.commute)
  then show ?thesis using assms by (auto simp: flags_disjoint_def)
qed

lemma flags_decode:
  assumes "flags_disjoint fs" and "f \<in> set fs" and "set ys \<subseteq> set fs"
  shows "foldr (OR) ys 0 AND f = 0 \<longleftrightarrow> f \<notin> set ys"
  using assms(3)
proof (induction ys)
  case (Cons y ys)
  have "(y OR foldr (OR) ys 0) AND f = 0 \<longleftrightarrow> y AND f = 0 \<and> foldr (OR) ys 0 AND f = 0"
    by (simp add: bit.conj_disj_distrib2 or_eq_0_iff)
  with Cons flags_disjointD [OF assms(1), of y f] assms(2) show ?case by auto
qed simp

lemma flag_words_disjoint: "list_all (\<lambda>(w, es). flags_disjoint (flag_values es)) flag_words"
  by code_simp

text \<open>The mask of all callback flags of \<open>bpf_sock_ops\<close> is the union of the flags before it.\<close>

lemma sock_ops_all_flags:
  "foldr (OR) (map snd (take 7 (c_enum enum_BPF_SOCK_OPS_RTO_CB_FLAG))) 0 =
   snd (c_enum enum_BPF_SOCK_OPS_RTO_CB_FLAG ! 7)"
  by code_simp

section \<open>Properties\<close>

text \<open>
  C37: the two headers number the helpers alike. The number that \<open>bpf_helper_defs.h\<close> compiles into
  a call is the value of exactly one enumerator of \<open>enum bpf_func_id\<close> in \<open>bpf.h\<close>, the one with the
  helper's own name, and it lies below \<open>__BPF_FUNC_MAX_ID\<close>.
\<close>

theorem helper_numbers_agree:
  assumes "h \<in> set bpf_helpers"
  shows "(\<forall>x. (x, int (h_id h)) \<in> set (c_enum enum_bpf_func_id) \<longleftrightarrow>
              x = ''BPF_FUNC_'' @ drop 4 (h_name h)) \<and>
         (''__BPF_FUNC_MAX_ID'', 212) \<in> set (c_enum enum_bpf_func_id) \<and> h_id h < 212"
proof -
  have "h_id h \<in> set (map h_id bpf_helpers)" using assms by simp
  then have "h_id h < 212" by (simp add: bpf_helper_ids)
  then show ?thesis using helper_enum_value [OF assms] by (simp add: c_enum_bpf_func_id)
qed

theorem helper_numbers_agree_witness:
  "(''BPF_FUNC_redirect_map'', 51) \<in> set (c_enum enum_bpf_func_id)"
proof -
  have "bpf_redirect_map_decl \<in> set bpf_helpers" by (simp add: bpf_helpers_def)
  from helper_numbers_agree [OF this] show ?thesis by (simp add: bpf_redirect_map_decl_def)
qed

text \<open>
  Flags that are meant for the same argument can be combined and told apart again: for every
  selection of them, testing the combined word for a flag succeeds exactly if it was selected.
\<close>

lemma flag_words_decode:
  assumes "(w, es) \<in> set flag_words" and "f \<in> set (flag_values es)" and "set ys \<subseteq> set (flag_values es)"
  shows "foldr (OR) ys 0 AND f \<noteq> 0 \<longleftrightarrow> f \<in> set ys"
proof -
  have "flags_disjoint (flag_values es)"
    using flag_words_disjoint assms(1) by (auto simp: list_all_iff)
  from flags_decode [OF this assms(2,3)] show ?thesis by simp
qed

end
