(* ===== verification/Bpf_Uapi_Structs.thy ===== *)
theory Bpf_Uapi_Structs
  imports C_Layout
begin

text \<open>
  The structures of \<^verbatim>\<open>perf_event/src/ebpf/include/bpf/bpf.h\<close> as C types, member by member. The
  arms of \<open>union bpf_attr\<close>, the argument of the system call \<open>bpf\<close>, are definitions of their own,
  named after the commands that use them. Signedness and byte order of a member do not affect its
  place, so \<open>__s32\<close>, \<open>__be32\<close> and \<open>enum\<close> members are integers of four bytes.
\<close>

section \<open>Building blocks\<close>

definition BPF_BUILD_ID_SIZE :: nat where "BPF_BUILD_ID_SIZE = 20"

definition BPF_OBJ_NAME_LEN :: nat where "BPF_OBJ_NAME_LEN = 16"

definition BPF_TAG_SIZE :: nat where "BPF_TAG_SIZE = 8"

text \<open>\<open>__aligned_u64\<close>, and the macro \<open>__bpf_md_ptr\<close> for a pointer that takes 64 bits everywhere.\<close>

definition c_aligned_u64 :: ctype where
  "c_aligned_u64 = CAligned 8 c_u64"

definition bpf_md_ptr :: "string \<Rightarrow> ctype" where
  "bpf_md_ptr x = CAligned 8 (CUnion [CField x CPtr, CBits [] 8 64])"

section \<open>Structures\<close>

definition struct_bpf_insn :: ctype where
  "struct_bpf_insn = CStruct [
     CField ''code'' c_u8, CBits ''dst_reg'' 1 4, CBits ''src_reg'' 1 4, CField ''off'' c_u16,
     CField ''imm'' c_u32]"

definition struct_bpf_lpm_trie_key :: ctype where
  "struct_bpf_lpm_trie_key = CStruct [
     CField ''prefixlen'' c_u32, CField ''data'' (CArr c_u8 0)]"

definition struct_bpf_cgroup_storage_key :: ctype where
  "struct_bpf_cgroup_storage_key = CStruct [
     CField ''cgroup_inode_id'' c_u64, CField ''attach_type'' c_u32]"

definition union_bpf_iter_link_info :: ctype where
  "union_bpf_iter_link_info = CUnion [
     CField ''map'' (CStruct [
         CField ''map_fd'' c_u32]),
     CField ''cgroup'' (CStruct [
         CField ''order'' c_u32, CField ''cgroup_fd'' c_u32, CField ''cgroup_id'' c_u64]),
     CField ''task'' (CStruct [
         CField ''tid'' c_u32, CField ''pid'' c_u32, CField ''pid_fd'' c_u32])]"

definition struct_bpf_stack_build_id :: ctype where
  "struct_bpf_stack_build_id = CStruct [
     CField ''status'' c_u32, CField ''build_id'' (CArr c_u8 BPF_BUILD_ID_SIZE),
     CField [] (CUnion [
         CField ''offset'' c_u64, CField ''ip'' c_u64])]"

definition attr_map_create :: ctype where
  "attr_map_create = CStruct [
     CField ''map_type'' c_u32, CField ''key_size'' c_u32, CField ''value_size'' c_u32,
     CField ''max_entries'' c_u32, CField ''map_flags'' c_u32, CField ''inner_map_fd'' c_u32,
     CField ''numa_node'' c_u32, CField ''map_name'' (CArr c_u8 BPF_OBJ_NAME_LEN),
     CField ''map_ifindex'' c_u32, CField ''btf_fd'' c_u32, CField ''btf_key_type_id'' c_u32,
     CField ''btf_value_type_id'' c_u32, CField ''btf_vmlinux_value_type_id'' c_u32,
     CField ''map_extra'' c_u64]"

definition attr_map_elem :: ctype where
  "attr_map_elem = CStruct [
     CField ''map_fd'' c_u32, CField ''key'' c_aligned_u64,
     CField [] (CUnion [
         CField ''value'' c_aligned_u64, CField ''next_key'' c_aligned_u64]),
     CField ''flags'' c_u64]"

definition attr_batch :: ctype where
  "attr_batch = CStruct [
     CField ''in_batch'' c_aligned_u64, CField ''out_batch'' c_aligned_u64,
     CField ''keys'' c_aligned_u64, CField ''values'' c_aligned_u64, CField ''count'' c_u32,
     CField ''map_fd'' c_u32, CField ''elem_flags'' c_u64, CField ''flags'' c_u64]"

definition attr_prog_load :: ctype where
  "attr_prog_load = CStruct [
     CField ''prog_type'' c_u32, CField ''insn_cnt'' c_u32, CField ''insns'' c_aligned_u64,
     CField ''license'' c_aligned_u64, CField ''log_level'' c_u32, CField ''log_size'' c_u32,
     CField ''log_buf'' c_aligned_u64, CField ''kern_version'' c_u32,
     CField ''prog_flags'' c_u32, CField ''prog_name'' (CArr c_u8 BPF_OBJ_NAME_LEN),
     CField ''prog_ifindex'' c_u32, CField ''expected_attach_type'' c_u32,
     CField ''prog_btf_fd'' c_u32, CField ''func_info_rec_size'' c_u32,
     CField ''func_info'' c_aligned_u64, CField ''func_info_cnt'' c_u32,
     CField ''line_info_rec_size'' c_u32, CField ''line_info'' c_aligned_u64,
     CField ''line_info_cnt'' c_u32, CField ''attach_btf_id'' c_u32,
     CField [] (CUnion [
         CField ''attach_prog_fd'' c_u32, CField ''attach_btf_obj_fd'' c_u32]),
     CField ''core_relo_cnt'' c_u32, CField ''fd_array'' c_aligned_u64,
     CField ''core_relos'' c_aligned_u64, CField ''core_relo_rec_size'' c_u32,
     CField ''log_true_size'' c_u32]"

definition attr_obj :: ctype where
  "attr_obj = CStruct [
     CField ''pathname'' c_aligned_u64, CField ''bpf_fd'' c_u32, CField ''file_flags'' c_u32]"

definition attr_prog_attach :: ctype where
  "attr_prog_attach = CStruct [
     CField ''target_fd'' c_u32, CField ''attach_bpf_fd'' c_u32, CField ''attach_type'' c_u32,
     CField ''attach_flags'' c_u32, CField ''replace_bpf_fd'' c_u32]"

definition attr_test :: ctype where
  "attr_test = CStruct [
     CField ''prog_fd'' c_u32, CField ''retval'' c_u32, CField ''data_size_in'' c_u32,
     CField ''data_size_out'' c_u32, CField ''data_in'' c_aligned_u64,
     CField ''data_out'' c_aligned_u64, CField ''repeat'' c_u32, CField ''duration'' c_u32,
     CField ''ctx_size_in'' c_u32, CField ''ctx_size_out'' c_u32,
     CField ''ctx_in'' c_aligned_u64, CField ''ctx_out'' c_aligned_u64, CField ''flags'' c_u32,
     CField ''cpu'' c_u32, CField ''batch_size'' c_u32]"

definition attr_get_id :: ctype where
  "attr_get_id = CStruct [
     CField [] (CUnion [
         CField ''start_id'' c_u32, CField ''prog_id'' c_u32, CField ''map_id'' c_u32,
         CField ''btf_id'' c_u32, CField ''link_id'' c_u32]),
     CField ''next_id'' c_u32, CField ''open_flags'' c_u32]"

definition attr_info :: ctype where
  "attr_info = CStruct [
     CField ''bpf_fd'' c_u32, CField ''info_len'' c_u32, CField ''info'' c_aligned_u64]"

definition attr_query :: ctype where
  "attr_query = CStruct [
     CField ''target_fd'' c_u32, CField ''attach_type'' c_u32, CField ''query_flags'' c_u32,
     CField ''attach_flags'' c_u32, CField ''prog_ids'' c_aligned_u64, CField ''prog_cnt'' c_u32,
     CField ''prog_attach_flags'' c_aligned_u64]"

definition attr_raw_tracepoint :: ctype where
  "attr_raw_tracepoint = CStruct [
     CField ''name'' c_u64, CField ''prog_fd'' c_u32]"

definition attr_btf_load :: ctype where
  "attr_btf_load = CStruct [
     CField ''btf'' c_aligned_u64, CField ''btf_log_buf'' c_aligned_u64,
     CField ''btf_size'' c_u32, CField ''btf_log_size'' c_u32, CField ''btf_log_level'' c_u32,
     CField ''btf_log_true_size'' c_u32]"

definition attr_task_fd_query :: ctype where
  "attr_task_fd_query = CStruct [
     CField ''pid'' c_u32, CField ''fd'' c_u32, CField ''flags'' c_u32, CField ''buf_len'' c_u32,
     CField ''buf'' c_aligned_u64, CField ''prog_id'' c_u32, CField ''fd_type'' c_u32,
     CField ''probe_offset'' c_u64, CField ''probe_addr'' c_u64]"

definition attr_link_create :: ctype where
  "attr_link_create = CStruct [
     CField [] (CUnion [
         CField ''prog_fd'' c_u32, CField ''map_fd'' c_u32]),
     CField [] (CUnion [
         CField ''target_fd'' c_u32, CField ''target_ifindex'' c_u32]),
     CField ''attach_type'' c_u32, CField ''flags'' c_u32,
     CField [] (CUnion [
         CField ''target_btf_id'' c_u32,
         CField [] (CStruct [
             CField ''iter_info'' c_aligned_u64, CField ''iter_info_len'' c_u32]),
         CField ''perf_event'' (CStruct [
             CField ''bpf_cookie'' c_u64]),
         CField ''kprobe_multi'' (CStruct [
             CField ''flags'' c_u32, CField ''cnt'' c_u32, CField ''syms'' c_aligned_u64,
             CField ''addrs'' c_aligned_u64, CField ''cookies'' c_aligned_u64]),
         CField ''tracing'' (CStruct [
             CField ''target_btf_id'' c_u32, CField ''cookie'' c_u64]),
         CField ''netfilter'' (CStruct [
             CField ''pf'' c_u32, CField ''hooknum'' c_u32, CField ''priority'' c_u32,
             CField ''flags'' c_u32])])]"

definition attr_link_update :: ctype where
  "attr_link_update = CStruct [
     CField ''link_fd'' c_u32,
     CField [] (CUnion [
         CField ''new_prog_fd'' c_u32, CField ''new_map_fd'' c_u32]),
     CField ''flags'' c_u32,
     CField [] (CUnion [
         CField ''old_prog_fd'' c_u32, CField ''old_map_fd'' c_u32])]"

definition attr_link_detach :: ctype where
  "attr_link_detach = CStruct [
     CField ''link_fd'' c_u32]"

definition attr_enable_stats :: ctype where
  "attr_enable_stats = CStruct [
     CField ''type'' c_u32]"

definition attr_iter_create :: ctype where
  "attr_iter_create = CStruct [
     CField ''link_fd'' c_u32, CField ''flags'' c_u32]"

definition attr_prog_bind_map :: ctype where
  "attr_prog_bind_map = CStruct [
     CField ''prog_fd'' c_u32, CField ''map_fd'' c_u32, CField ''flags'' c_u32]"

definition union_bpf_attr :: ctype where
  "union_bpf_attr = CAligned 8 (CUnion [
     CField [] attr_map_create, CField [] attr_map_elem, CField ''batch'' attr_batch,
     CField [] attr_prog_load, CField [] attr_obj, CField [] attr_prog_attach,
     CField ''test'' attr_test, CField [] attr_get_id, CField ''info'' attr_info,
     CField ''query'' attr_query, CField ''raw_tracepoint'' attr_raw_tracepoint,
     CField [] attr_btf_load, CField ''task_fd_query'' attr_task_fd_query,
     CField ''link_create'' attr_link_create, CField ''link_update'' attr_link_update,
     CField ''link_detach'' attr_link_detach, CField ''enable_stats'' attr_enable_stats,
     CField ''iter_create'' attr_iter_create, CField ''prog_bind_map'' attr_prog_bind_map])"

definition struct_sk_buff :: ctype where
  "struct_sk_buff = CStruct [
     CField ''len'' c_u32, CField ''pkt_type'' c_u32, CField ''mark'' c_u32,
     CField ''queue_mapping'' c_u32, CField ''protocol'' c_u32, CField ''vlan_present'' c_u32,
     CField ''vlan_tci'' c_u32, CField ''vlan_proto'' c_u32, CField ''priority'' c_u32,
     CField ''ingress_ifindex'' c_u32, CField ''ifindex'' c_u32, CField ''tc_index'' c_u32,
     CField ''cb'' (CArr c_u32 5), CField ''hash'' c_u32, CField ''tc_classid'' c_u32,
     CField ''data'' c_u32, CField ''data_end'' c_u32, CField ''napi_id'' c_u32,
     CField ''family'' c_u32, CField ''remote_ip4'' c_u32, CField ''local_ip4'' c_u32,
     CField ''remote_ip6'' (CArr c_u32 4), CField ''local_ip6'' (CArr c_u32 4),
     CField ''remote_port'' c_u32, CField ''local_port'' c_u32, CField ''data_meta'' c_u32,
     CField [] (bpf_md_ptr ''flow_keys''), CField ''tstamp'' c_u64, CField ''wire_len'' c_u32,
     CField ''gso_segs'' c_u32, CField [] (bpf_md_ptr ''sk''), CField ''gso_size'' c_u32,
     CField ''tstamp_type'' c_u8, CBits [] 4 24, CField ''hwtstamp'' c_u64]"

definition struct_bpf_tunnel_key :: ctype where
  "struct_bpf_tunnel_key = CStruct [
     CField ''tunnel_id'' c_u32,
     CField [] (CUnion [
         CField ''remote_ipv4'' c_u32, CField ''remote_ipv6'' (CArr c_u32 4)]),
     CField ''tunnel_tos'' c_u8, CField ''tunnel_ttl'' c_u8,
     CField [] (CUnion [
         CField ''tunnel_ext'' c_u16, CField ''tunnel_flags'' c_u16]),
     CField ''tunnel_label'' c_u32,
     CField [] (CUnion [
         CField ''local_ipv4'' c_u32, CField ''local_ipv6'' (CArr c_u32 4)])]"

definition struct_bpf_xfrm_state :: ctype where
  "struct_bpf_xfrm_state = CStruct [
     CField ''reqid'' c_u32, CField ''spi'' c_u32, CField ''family'' c_u16, CField ''ext'' c_u16,
     CField [] (CUnion [
         CField ''remote_ipv4'' c_u32, CField ''remote_ipv6'' (CArr c_u32 4)])]"

definition struct_bpf_sock :: ctype where
  "struct_bpf_sock = CStruct [
     CField ''bound_dev_if'' c_u32, CField ''family'' c_u32, CField ''type'' c_u32,
     CField ''protocol'' c_u32, CField ''mark'' c_u32, CField ''priority'' c_u32,
     CField ''src_ip4'' c_u32, CField ''src_ip6'' (CArr c_u32 4), CField ''src_port'' c_u32,
     CField ''dst_port'' c_u16, CBits [] 2 16, CField ''dst_ip4'' c_u32,
     CField ''dst_ip6'' (CArr c_u32 4), CField ''state'' c_u32, CField ''rx_queue_mapping'' c_u32]"

definition struct_bpf_tcp_sock :: ctype where
  "struct_bpf_tcp_sock = CStruct [
     CField ''snd_cwnd'' c_u32, CField ''srtt_us'' c_u32, CField ''rtt_min'' c_u32,
     CField ''snd_ssthresh'' c_u32, CField ''rcv_nxt'' c_u32, CField ''snd_nxt'' c_u32,
     CField ''snd_una'' c_u32, CField ''mss_cache'' c_u32, CField ''ecn_flags'' c_u32,
     CField ''rate_delivered'' c_u32, CField ''rate_interval_us'' c_u32,
     CField ''packets_out'' c_u32, CField ''retrans_out'' c_u32, CField ''total_retrans'' c_u32,
     CField ''segs_in'' c_u32, CField ''data_segs_in'' c_u32, CField ''segs_out'' c_u32,
     CField ''data_segs_out'' c_u32, CField ''lost_out'' c_u32, CField ''sacked_out'' c_u32,
     CField ''bytes_received'' c_u64, CField ''bytes_acked'' c_u64, CField ''dsack_dups'' c_u32,
     CField ''delivered'' c_u32, CField ''delivered_ce'' c_u32, CField ''icsk_retransmits'' c_u32]"

definition struct_bpf_sock_tuple :: ctype where
  "struct_bpf_sock_tuple = CStruct [
     CField [] (CUnion [
         CField ''ipv4'' (CStruct [
             CField ''saddr'' c_u32, CField ''daddr'' c_u32, CField ''sport'' c_u16,
             CField ''dport'' c_u16]),
         CField ''ipv6'' (CStruct [
             CField ''saddr'' (CArr c_u32 4), CField ''daddr'' (CArr c_u32 4),
             CField ''sport'' c_u16, CField ''dport'' c_u16])])]"

definition struct_bpf_xdp_sock :: ctype where
  "struct_bpf_xdp_sock = CStruct [
     CField ''queue_id'' c_u32]"

definition struct_xdp_md :: ctype where
  "struct_xdp_md = CStruct [
     CField ''data'' c_u32, CField ''data_end'' c_u32, CField ''data_meta'' c_u32,
     CField ''ingress_ifindex'' c_u32, CField ''rx_queue_index'' c_u32,
     CField ''egress_ifindex'' c_u32]"

definition struct_bpf_devmap_val :: ctype where
  "struct_bpf_devmap_val = CStruct [
     CField ''ifindex'' c_u32,
     CField ''bpf_prog'' (CUnion [
         CField ''fd'' c_u32, CField ''id'' c_u32])]"

definition struct_bpf_cpumap_val :: ctype where
  "struct_bpf_cpumap_val = CStruct [
     CField ''qsize'' c_u32,
     CField ''bpf_prog'' (CUnion [
         CField ''fd'' c_u32, CField ''id'' c_u32])]"

definition struct_sk_msg_md :: ctype where
  "struct_sk_msg_md = CStruct [
     CField [] (bpf_md_ptr ''data''), CField [] (bpf_md_ptr ''data_end''),
     CField ''family'' c_u32, CField ''remote_ip4'' c_u32, CField ''local_ip4'' c_u32,
     CField ''remote_ip6'' (CArr c_u32 4), CField ''local_ip6'' (CArr c_u32 4),
     CField ''remote_port'' c_u32, CField ''local_port'' c_u32, CField ''size'' c_u32,
     CField [] (bpf_md_ptr ''sk'')]"

definition struct_sk_reuseport_md :: ctype where
  "struct_sk_reuseport_md = CStruct [
     CField [] (bpf_md_ptr ''data''), CField [] (bpf_md_ptr ''data_end''), CField ''len'' c_u32,
     CField ''eth_protocol'' c_u32, CField ''ip_protocol'' c_u32, CField ''bind_inany'' c_u32,
     CField ''hash'' c_u32, CField [] (bpf_md_ptr ''sk''),
     CField [] (bpf_md_ptr ''migrating_sk'')]"

definition struct_bpf_prog_info :: ctype where
  "struct_bpf_prog_info = CAligned 8 (CStruct [
     CField ''type'' c_u32, CField ''id'' c_u32, CField ''tag'' (CArr c_u8 BPF_TAG_SIZE),
     CField ''jited_prog_len'' c_u32, CField ''xlated_prog_len'' c_u32,
     CField ''jited_prog_insns'' c_aligned_u64, CField ''xlated_prog_insns'' c_aligned_u64,
     CField ''load_time'' c_u64, CField ''created_by_uid'' c_u32, CField ''nr_map_ids'' c_u32,
     CField ''map_ids'' c_aligned_u64, CField ''name'' (CArr c_u8 BPF_OBJ_NAME_LEN),
     CField ''ifindex'' c_u32, CBits ''gpl_compatible'' 4 1, CBits [] 4 31,
     CField ''netns_dev'' c_u64, CField ''netns_ino'' c_u64, CField ''nr_jited_ksyms'' c_u32,
     CField ''nr_jited_func_lens'' c_u32, CField ''jited_ksyms'' c_aligned_u64,
     CField ''jited_func_lens'' c_aligned_u64, CField ''btf_id'' c_u32,
     CField ''func_info_rec_size'' c_u32, CField ''func_info'' c_aligned_u64,
     CField ''nr_func_info'' c_u32, CField ''nr_line_info'' c_u32,
     CField ''line_info'' c_aligned_u64, CField ''jited_line_info'' c_aligned_u64,
     CField ''nr_jited_line_info'' c_u32, CField ''line_info_rec_size'' c_u32,
     CField ''jited_line_info_rec_size'' c_u32, CField ''nr_prog_tags'' c_u32,
     CField ''prog_tags'' c_aligned_u64, CField ''run_time_ns'' c_u64, CField ''run_cnt'' c_u64,
     CField ''recursion_misses'' c_u64, CField ''verified_insns'' c_u32,
     CField ''attach_btf_obj_id'' c_u32, CField ''attach_btf_id'' c_u32])"

definition struct_bpf_map_info :: ctype where
  "struct_bpf_map_info = CAligned 8 (CStruct [
     CField ''type'' c_u32, CField ''id'' c_u32, CField ''key_size'' c_u32,
     CField ''value_size'' c_u32, CField ''max_entries'' c_u32, CField ''map_flags'' c_u32,
     CField ''name'' (CArr c_u8 BPF_OBJ_NAME_LEN), CField ''ifindex'' c_u32,
     CField ''btf_vmlinux_value_type_id'' c_u32, CField ''netns_dev'' c_u64,
     CField ''netns_ino'' c_u64, CField ''btf_id'' c_u32, CField ''btf_key_type_id'' c_u32,
     CField ''btf_value_type_id'' c_u32, CBits [] 4 32, CField ''map_extra'' c_u64])"

definition struct_bpf_btf_info :: ctype where
  "struct_bpf_btf_info = CAligned 8 (CStruct [
     CField ''btf'' c_aligned_u64, CField ''btf_size'' c_u32, CField ''id'' c_u32,
     CField ''name'' c_aligned_u64, CField ''name_len'' c_u32, CField ''kernel_btf'' c_u32])"

definition struct_bpf_link_info :: ctype where
  "struct_bpf_link_info = CAligned 8 (CStruct [
     CField ''type'' c_u32, CField ''id'' c_u32, CField ''prog_id'' c_u32,
     CField [] (CUnion [
         CField ''raw_tracepoint'' (CStruct [
             CField ''tp_name'' c_aligned_u64, CField ''tp_name_len'' c_u32]),
         CField ''tracing'' (CStruct [
             CField ''attach_type'' c_u32, CField ''target_obj_id'' c_u32,
             CField ''target_btf_id'' c_u32]),
         CField ''cgroup'' (CStruct [
             CField ''cgroup_id'' c_u64, CField ''attach_type'' c_u32]),
         CField ''iter'' (CStruct [
             CField ''target_name'' c_aligned_u64, CField ''target_name_len'' c_u32,
             CField [] (CUnion [
                 CField ''map'' (CStruct [
                     CField ''map_id'' c_u32])]),
             CField [] (CUnion [
                 CField ''cgroup'' (CStruct [
                     CField ''cgroup_id'' c_u64, CField ''order'' c_u32]),
                 CField ''task'' (CStruct [
                     CField ''tid'' c_u32, CField ''pid'' c_u32])])]),
         CField ''netns'' (CStruct [
             CField ''netns_ino'' c_u32, CField ''attach_type'' c_u32]),
         CField ''xdp'' (CStruct [
             CField ''ifindex'' c_u32]),
         CField ''struct_ops'' (CStruct [
             CField ''map_id'' c_u32]),
         CField ''netfilter'' (CStruct [
             CField ''pf'' c_u32, CField ''hooknum'' c_u32, CField ''priority'' c_u32,
             CField ''flags'' c_u32])])])"

definition struct_bpf_sock_addr :: ctype where
  "struct_bpf_sock_addr = CStruct [
     CField ''user_family'' c_u32, CField ''user_ip4'' c_u32, CField ''user_ip6'' (CArr c_u32 4),
     CField ''user_port'' c_u32, CField ''family'' c_u32, CField ''type'' c_u32,
     CField ''protocol'' c_u32, CField ''msg_src_ip4'' c_u32,
     CField ''msg_src_ip6'' (CArr c_u32 4), CField [] (bpf_md_ptr ''sk'')]"

definition struct_bpf_sock_ops :: ctype where
  "struct_bpf_sock_ops = CStruct [
     CField ''op'' c_u32,
     CField [] (CUnion [
         CField ''args'' (CArr c_u32 4), CField ''reply'' c_u32,
         CField ''replylong'' (CArr c_u32 4)]),
     CField ''family'' c_u32, CField ''remote_ip4'' c_u32, CField ''local_ip4'' c_u32,
     CField ''remote_ip6'' (CArr c_u32 4), CField ''local_ip6'' (CArr c_u32 4),
     CField ''remote_port'' c_u32, CField ''local_port'' c_u32, CField ''is_fullsock'' c_u32,
     CField ''snd_cwnd'' c_u32, CField ''srtt_us'' c_u32, CField ''bpf_sock_ops_cb_flags'' c_u32,
     CField ''state'' c_u32, CField ''rtt_min'' c_u32, CField ''snd_ssthresh'' c_u32,
     CField ''rcv_nxt'' c_u32, CField ''snd_nxt'' c_u32, CField ''snd_una'' c_u32,
     CField ''mss_cache'' c_u32, CField ''ecn_flags'' c_u32, CField ''rate_delivered'' c_u32,
     CField ''rate_interval_us'' c_u32, CField ''packets_out'' c_u32,
     CField ''retrans_out'' c_u32, CField ''total_retrans'' c_u32, CField ''segs_in'' c_u32,
     CField ''data_segs_in'' c_u32, CField ''segs_out'' c_u32, CField ''data_segs_out'' c_u32,
     CField ''lost_out'' c_u32, CField ''sacked_out'' c_u32, CField ''sk_txhash'' c_u32,
     CField ''bytes_received'' c_u64, CField ''bytes_acked'' c_u64,
     CField [] (bpf_md_ptr ''sk''), CField [] (bpf_md_ptr ''skb_data''),
     CField [] (bpf_md_ptr ''skb_data_end''), CField ''skb_len'' c_u32,
     CField ''skb_tcp_flags'' c_u32, CField ''skb_hwtstamp'' c_u64]"

definition struct_bpf_perf_event_value :: ctype where
  "struct_bpf_perf_event_value = CStruct [
     CField ''counter'' c_u64, CField ''enabled'' c_u64, CField ''running'' c_u64]"

definition struct_bpf_cgroup_dev_ctx :: ctype where
  "struct_bpf_cgroup_dev_ctx = CStruct [
     CField ''access_type'' c_u32, CField ''major'' c_u32, CField ''minor'' c_u32]"

definition struct_bpf_raw_tracepoint_args :: ctype where
  "struct_bpf_raw_tracepoint_args = CStruct [
     CField ''args'' (CArr c_u64 0)]"

definition struct_bpf_fib_lookup :: ctype where
  "struct_bpf_fib_lookup = CStruct [
     CField ''family'' c_u8, CField ''l4_protocol'' c_u8, CField ''sport'' c_u16,
     CField ''dport'' c_u16,
     CField [] (CUnion [
         CField ''tot_len'' c_u16, CField ''mtu_result'' c_u16]),
     CField ''ifindex'' c_u32,
     CField [] (CUnion [
         CField ''tos'' c_u8, CField ''flowinfo'' c_u32, CField ''rt_metric'' c_u32]),
     CField [] (CUnion [
         CField ''ipv4_src'' c_u32, CField ''ipv6_src'' (CArr c_u32 4)]),
     CField [] (CUnion [
         CField ''ipv4_dst'' c_u32, CField ''ipv6_dst'' (CArr c_u32 4)]),
     CField ''h_vlan_proto'' c_u16, CField ''h_vlan_TCI'' c_u16, CField ''smac'' (CArr c_u8 6),
     CField ''dmac'' (CArr c_u8 6)]"

definition struct_bpf_redir_neigh :: ctype where
  "struct_bpf_redir_neigh = CStruct [
     CField ''nh_family'' c_u32,
     CField [] (CUnion [
         CField ''ipv4_nh'' c_u32, CField ''ipv6_nh'' (CArr c_u32 4)])]"

definition struct_bpf_flow_keys :: ctype where
  "struct_bpf_flow_keys = CStruct [
     CField ''nhoff'' c_u16, CField ''thoff'' c_u16, CField ''addr_proto'' c_u16,
     CField ''is_frag'' c_u8, CField ''is_first_frag'' c_u8, CField ''is_encap'' c_u8,
     CField ''ip_proto'' c_u8, CField ''n_proto'' c_u16, CField ''sport'' c_u16,
     CField ''dport'' c_u16,
     CField [] (CUnion [
         CField [] (CStruct [
             CField ''ipv4_src'' c_u32, CField ''ipv4_dst'' c_u32]),
         CField [] (CStruct [
             CField ''ipv6_src'' (CArr c_u32 4), CField ''ipv6_dst'' (CArr c_u32 4)])]),
     CField ''flags'' c_u32, CField ''flow_label'' c_u32]"

definition struct_bpf_func_info :: ctype where
  "struct_bpf_func_info = CStruct [
     CField ''insn_off'' c_u32, CField ''type_id'' c_u32]"

definition struct_bpf_line_info :: ctype where
  "struct_bpf_line_info = CStruct [
     CField ''insn_off'' c_u32, CField ''file_name_off'' c_u32, CField ''line_off'' c_u32,
     CField ''line_col'' c_u32]"

definition struct_bpf_spin_lock :: ctype where
  "struct_bpf_spin_lock = CStruct [
     CField ''val'' c_u32]"

definition struct_bpf_timer :: ctype where
  "struct_bpf_timer = CAligned 8 (CStruct [
     CBits [] 8 64, CBits [] 8 64])"

definition struct_bpf_dynptr :: ctype where
  "struct_bpf_dynptr = CAligned 8 (CStruct [
     CBits [] 8 64, CBits [] 8 64])"

definition struct_bpf_list_head :: ctype where
  "struct_bpf_list_head = CAligned 8 (CStruct [
     CBits [] 8 64, CBits [] 8 64])"

definition struct_bpf_list_node :: ctype where
  "struct_bpf_list_node = CAligned 8 (CStruct [
     CBits [] 8 64, CBits [] 8 64])"

definition struct_bpf_rb_root :: ctype where
  "struct_bpf_rb_root = CAligned 8 (CStruct [
     CBits [] 8 64, CBits [] 8 64])"

definition struct_bpf_rb_node :: ctype where
  "struct_bpf_rb_node = CAligned 8 (CStruct [
     CBits [] 8 64, CBits [] 8 64, CBits [] 8 64])"

definition struct_bpf_refcount :: ctype where
  "struct_bpf_refcount = CAligned 4 (CStruct [
     CBits [] 4 32])"

definition struct_bpf_sysctl :: ctype where
  "struct_bpf_sysctl = CStruct [
     CField ''write'' c_u32, CField ''file_pos'' c_u32]"

definition struct_bpf_sockopt :: ctype where
  "struct_bpf_sockopt = CStruct [
     CField [] (bpf_md_ptr ''sk''), CField [] (bpf_md_ptr ''optval''),
     CField [] (bpf_md_ptr ''optval_end''), CField ''level'' c_u32, CField ''optname'' c_u32,
     CField ''optlen'' c_u32, CField ''retval'' c_u32]"

definition struct_bpf_pidns_info :: ctype where
  "struct_bpf_pidns_info = CStruct [
     CField ''pid'' c_u32, CField ''tgid'' c_u32]"

definition struct_bpf_sk_lookup :: ctype where
  "struct_bpf_sk_lookup = CStruct [
     CField [] (CUnion [
         CField [] (bpf_md_ptr ''sk''), CField ''cookie'' c_u64]),
     CField ''family'' c_u32, CField ''protocol'' c_u32, CField ''remote_ip4'' c_u32,
     CField ''remote_ip6'' (CArr c_u32 4), CField ''remote_port'' c_u16, CBits [] 2 16,
     CField ''local_ip4'' c_u32, CField ''local_ip6'' (CArr c_u32 4),
     CField ''local_port'' c_u32, CField ''ingress_ifindex'' c_u32]"

definition struct_btf_ptr :: ctype where
  "struct_btf_ptr = CStruct [
     CField ''ptr'' CPtr, CField ''type_id'' c_u32, CField ''flags'' c_u32]"

definition struct_bpf_core_relo :: ctype where
  "struct_bpf_core_relo = CStruct [
     CField ''insn_off'' c_u32, CField ''type_id'' c_u32, CField ''access_str_off'' c_u32,
     CField ''kind'' c_u32]"

definition struct_bpf_iter_num :: ctype where
  "struct_bpf_iter_num = CAligned 8 (CStruct [
     CField ''__opaque'' (CArr c_u64 1)])"

section \<open>All structures by name\<close>

definition uapi_structs :: "(string \<times> ctype) list" where
  "uapi_structs = [
      (''bpf_insn'', struct_bpf_insn), (''bpf_lpm_trie_key'', struct_bpf_lpm_trie_key),
      (''bpf_cgroup_storage_key'', struct_bpf_cgroup_storage_key),
      (''bpf_iter_link_info'', union_bpf_iter_link_info),
      (''bpf_stack_build_id'', struct_bpf_stack_build_id),
      (''bpf_attr.map_create'', attr_map_create), (''bpf_attr.map_elem'', attr_map_elem),
      (''bpf_attr.batch'', attr_batch), (''bpf_attr.prog_load'', attr_prog_load),
      (''bpf_attr.obj'', attr_obj), (''bpf_attr.prog_attach'', attr_prog_attach),
      (''bpf_attr.test'', attr_test), (''bpf_attr.get_id'', attr_get_id),
      (''bpf_attr.info'', attr_info), (''bpf_attr.query'', attr_query),
      (''bpf_attr.raw_tracepoint'', attr_raw_tracepoint),
      (''bpf_attr.btf_load'', attr_btf_load), (''bpf_attr.task_fd_query'', attr_task_fd_query),
      (''bpf_attr.link_create'', attr_link_create),
      (''bpf_attr.link_update'', attr_link_update),
      (''bpf_attr.link_detach'', attr_link_detach),
      (''bpf_attr.enable_stats'', attr_enable_stats),
      (''bpf_attr.iter_create'', attr_iter_create),
      (''bpf_attr.prog_bind_map'', attr_prog_bind_map), (''bpf_attr'', union_bpf_attr),
      (''__sk_buff'', struct_sk_buff), (''bpf_tunnel_key'', struct_bpf_tunnel_key),
      (''bpf_xfrm_state'', struct_bpf_xfrm_state), (''bpf_sock'', struct_bpf_sock),
      (''bpf_tcp_sock'', struct_bpf_tcp_sock), (''bpf_sock_tuple'', struct_bpf_sock_tuple),
      (''bpf_xdp_sock'', struct_bpf_xdp_sock), (''xdp_md'', struct_xdp_md),
      (''bpf_devmap_val'', struct_bpf_devmap_val), (''bpf_cpumap_val'', struct_bpf_cpumap_val),
      (''sk_msg_md'', struct_sk_msg_md), (''sk_reuseport_md'', struct_sk_reuseport_md),
      (''bpf_prog_info'', struct_bpf_prog_info), (''bpf_map_info'', struct_bpf_map_info),
      (''bpf_btf_info'', struct_bpf_btf_info), (''bpf_link_info'', struct_bpf_link_info),
      (''bpf_sock_addr'', struct_bpf_sock_addr), (''bpf_sock_ops'', struct_bpf_sock_ops),
      (''bpf_perf_event_value'', struct_bpf_perf_event_value),
      (''bpf_cgroup_dev_ctx'', struct_bpf_cgroup_dev_ctx),
      (''bpf_raw_tracepoint_args'', struct_bpf_raw_tracepoint_args),
      (''bpf_fib_lookup'', struct_bpf_fib_lookup),
      (''bpf_redir_neigh'', struct_bpf_redir_neigh), (''bpf_flow_keys'', struct_bpf_flow_keys),
      (''bpf_func_info'', struct_bpf_func_info), (''bpf_line_info'', struct_bpf_line_info),
      (''bpf_spin_lock'', struct_bpf_spin_lock), (''bpf_timer'', struct_bpf_timer),
      (''bpf_dynptr'', struct_bpf_dynptr), (''bpf_list_head'', struct_bpf_list_head),
      (''bpf_list_node'', struct_bpf_list_node), (''bpf_rb_root'', struct_bpf_rb_root),
      (''bpf_rb_node'', struct_bpf_rb_node), (''bpf_refcount'', struct_bpf_refcount),
      (''bpf_sysctl'', struct_bpf_sysctl), (''bpf_sockopt'', struct_bpf_sockopt),
      (''bpf_pidns_info'', struct_bpf_pidns_info), (''bpf_sk_lookup'', struct_bpf_sk_lookup),
      (''btf_ptr'', struct_btf_ptr), (''bpf_core_relo'', struct_bpf_core_relo),
      (''bpf_iter_num'', struct_bpf_iter_num)]"

text \<open>The types whose members follow one another; in a union they all start at offset 0.\<close>

fun c_struct :: "ctype \<Rightarrow> bool" where
  "c_struct (CStruct fs) \<longleftrightarrow> True"
| "c_struct (CAligned a t) \<longleftrightarrow> c_struct t"
| "c_struct (CUnion fs) \<longleftrightarrow> False"
| "c_struct (CArr t n) \<longleftrightarrow> False"
| "c_struct (CInt n) \<longleftrightarrow> False"
| "c_struct CPtr \<longleftrightarrow> False"

lemma c_struct_members_ok: "c_struct t \<Longrightarrow> ctype_ok t \<Longrightarrow> list_all cfield_ok (members t)"
  by (induction t rule: c_struct.induct) auto

lemma sizeof_aligned_ge: "ctype_ok t \<Longrightarrow> sizeof t \<le> sizeof (CAligned a t)"
  using alignof_pos [of t] by (simp add: align_up_ge)

lemma c_struct_end: "c_struct t \<Longrightarrow> ctype_ok t \<Longrightarrow> struct_end 0 (members t) \<le> 8 * sizeof t"
proof (induction t rule: c_struct.induct)
  case (1 fs)
  then show ?case using struct_end_le_sizeof [of fs] by simp
next
  case (2 a t)
  then show ?case using sizeof_aligned_ge [of t a] by simp
qed auto

lemma uapi_structs_ok: "list_all (\<lambda>(x, t). ctype_ok t) uapi_structs"
  by code_simp

lemmas uapi_struct_defs =
  struct_bpf_insn_def struct_bpf_lpm_trie_key_def struct_bpf_cgroup_storage_key_def
  union_bpf_iter_link_info_def struct_bpf_stack_build_id_def attr_map_create_def
  attr_map_elem_def attr_batch_def attr_prog_load_def attr_obj_def attr_prog_attach_def
  attr_test_def attr_get_id_def attr_info_def attr_query_def attr_raw_tracepoint_def
  attr_btf_load_def attr_task_fd_query_def attr_link_create_def attr_link_update_def
  attr_link_detach_def attr_enable_stats_def attr_iter_create_def attr_prog_bind_map_def
  union_bpf_attr_def struct_sk_buff_def struct_bpf_tunnel_key_def struct_bpf_xfrm_state_def
  struct_bpf_sock_def struct_bpf_tcp_sock_def struct_bpf_sock_tuple_def struct_bpf_xdp_sock_def
  struct_xdp_md_def struct_bpf_devmap_val_def struct_bpf_cpumap_val_def struct_sk_msg_md_def
  struct_sk_reuseport_md_def struct_bpf_prog_info_def struct_bpf_map_info_def
  struct_bpf_btf_info_def struct_bpf_link_info_def struct_bpf_sock_addr_def
  struct_bpf_sock_ops_def struct_bpf_perf_event_value_def struct_bpf_cgroup_dev_ctx_def
  struct_bpf_raw_tracepoint_args_def struct_bpf_fib_lookup_def struct_bpf_redir_neigh_def
  struct_bpf_flow_keys_def struct_bpf_func_info_def struct_bpf_line_info_def
  struct_bpf_spin_lock_def struct_bpf_timer_def struct_bpf_dynptr_def struct_bpf_list_head_def
  struct_bpf_list_node_def struct_bpf_rb_root_def struct_bpf_rb_node_def struct_bpf_refcount_def
  struct_bpf_sysctl_def struct_bpf_sockopt_def struct_bpf_pidns_info_def
  struct_bpf_sk_lookup_def struct_btf_ptr_def struct_bpf_core_relo_def struct_bpf_iter_num_def

lemmas layout_eval = padding_bits_def align_up_def c_aligned_u64_def bpf_md_ptr_def
  BPF_BUILD_ID_SIZE_def BPF_OBJ_NAME_LEN_def BPF_TAG_SIZE_def

text \<open>The bits that each structure leaves to the compiler.\<close>

lemma struct_paddings:
  "padding_bits struct_bpf_insn = 0"
  "padding_bits struct_bpf_lpm_trie_key = 0"
  "padding_bits struct_bpf_cgroup_storage_key = 32"
  "padding_bits struct_bpf_stack_build_id = 0"
  "padding_bits attr_map_create = 0"
  "padding_bits attr_map_elem = 32"
  "padding_bits attr_batch = 0"
  "padding_bits attr_prog_load = 0"
  "padding_bits attr_obj = 0"
  "padding_bits attr_prog_attach = 0"
  "padding_bits attr_test = 32"
  "padding_bits attr_get_id = 0"
  "padding_bits attr_info = 0"
  "padding_bits attr_query = 32"
  "padding_bits attr_raw_tracepoint = 32"
  "padding_bits attr_btf_load = 0"
  "padding_bits attr_task_fd_query = 0"
  "padding_bits attr_link_create = 0"
  "padding_bits attr_link_update = 0"
  "padding_bits attr_link_detach = 0"
  "padding_bits attr_enable_stats = 0"
  "padding_bits attr_iter_create = 0"
  "padding_bits attr_prog_bind_map = 0"
  "padding_bits struct_sk_buff = 0"
  "padding_bits struct_bpf_tunnel_key = 0"
  "padding_bits struct_bpf_xfrm_state = 0"
  "padding_bits struct_bpf_sock = 0"
  "padding_bits struct_bpf_tcp_sock = 0"
  "padding_bits struct_bpf_sock_tuple = 0"
  "padding_bits struct_bpf_xdp_sock = 0"
  "padding_bits struct_xdp_md = 0"
  "padding_bits struct_bpf_devmap_val = 0"
  "padding_bits struct_bpf_cpumap_val = 0"
  "padding_bits struct_sk_msg_md = 0"
  "padding_bits struct_sk_reuseport_md = 32"
  "padding_bits struct_bpf_prog_info = 32"
  "padding_bits struct_bpf_map_info = 0"
  "padding_bits struct_bpf_btf_info = 0"
  "padding_bits struct_bpf_link_info = 32"
  "padding_bits struct_bpf_sock_addr = 32"
  "padding_bits struct_bpf_sock_ops = 0"
  "padding_bits struct_bpf_perf_event_value = 0"
  "padding_bits struct_bpf_cgroup_dev_ctx = 0"
  "padding_bits struct_bpf_raw_tracepoint_args = 0"
  "padding_bits struct_bpf_fib_lookup = 0"
  "padding_bits struct_bpf_redir_neigh = 0"
  "padding_bits struct_bpf_flow_keys = 0"
  "padding_bits struct_bpf_func_info = 0"
  "padding_bits struct_bpf_line_info = 0"
  "padding_bits struct_bpf_spin_lock = 0"
  "padding_bits struct_bpf_timer = 0"
  "padding_bits struct_bpf_dynptr = 0"
  "padding_bits struct_bpf_list_head = 0"
  "padding_bits struct_bpf_list_node = 0"
  "padding_bits struct_bpf_rb_root = 0"
  "padding_bits struct_bpf_rb_node = 0"
  "padding_bits struct_bpf_refcount = 0"
  "padding_bits struct_bpf_sysctl = 0"
  "padding_bits struct_bpf_sockopt = 0"
  "padding_bits struct_bpf_pidns_info = 0"
  "padding_bits struct_bpf_sk_lookup = 32"
  "padding_bits struct_btf_ptr = 0"
  "padding_bits struct_bpf_core_relo = 0"
  "padding_bits struct_bpf_iter_num = 0"
  by (simp_all add: uapi_struct_defs layout_eval)

lemma struct_kinds:
  "c_struct struct_bpf_insn"
  "c_struct struct_bpf_lpm_trie_key"
  "c_struct struct_bpf_cgroup_storage_key"
  "\<not> c_struct union_bpf_iter_link_info"
  "c_struct struct_bpf_stack_build_id"
  "c_struct attr_map_create"
  "c_struct attr_map_elem"
  "c_struct attr_batch"
  "c_struct attr_prog_load"
  "c_struct attr_obj"
  "c_struct attr_prog_attach"
  "c_struct attr_test"
  "c_struct attr_get_id"
  "c_struct attr_info"
  "c_struct attr_query"
  "c_struct attr_raw_tracepoint"
  "c_struct attr_btf_load"
  "c_struct attr_task_fd_query"
  "c_struct attr_link_create"
  "c_struct attr_link_update"
  "c_struct attr_link_detach"
  "c_struct attr_enable_stats"
  "c_struct attr_iter_create"
  "c_struct attr_prog_bind_map"
  "\<not> c_struct union_bpf_attr"
  "c_struct struct_sk_buff"
  "c_struct struct_bpf_tunnel_key"
  "c_struct struct_bpf_xfrm_state"
  "c_struct struct_bpf_sock"
  "c_struct struct_bpf_tcp_sock"
  "c_struct struct_bpf_sock_tuple"
  "c_struct struct_bpf_xdp_sock"
  "c_struct struct_xdp_md"
  "c_struct struct_bpf_devmap_val"
  "c_struct struct_bpf_cpumap_val"
  "c_struct struct_sk_msg_md"
  "c_struct struct_sk_reuseport_md"
  "c_struct struct_bpf_prog_info"
  "c_struct struct_bpf_map_info"
  "c_struct struct_bpf_btf_info"
  "c_struct struct_bpf_link_info"
  "c_struct struct_bpf_sock_addr"
  "c_struct struct_bpf_sock_ops"
  "c_struct struct_bpf_perf_event_value"
  "c_struct struct_bpf_cgroup_dev_ctx"
  "c_struct struct_bpf_raw_tracepoint_args"
  "c_struct struct_bpf_fib_lookup"
  "c_struct struct_bpf_redir_neigh"
  "c_struct struct_bpf_flow_keys"
  "c_struct struct_bpf_func_info"
  "c_struct struct_bpf_line_info"
  "c_struct struct_bpf_spin_lock"
  "c_struct struct_bpf_timer"
  "c_struct struct_bpf_dynptr"
  "c_struct struct_bpf_list_head"
  "c_struct struct_bpf_list_node"
  "c_struct struct_bpf_rb_root"
  "c_struct struct_bpf_rb_node"
  "c_struct struct_bpf_refcount"
  "c_struct struct_bpf_sysctl"
  "c_struct struct_bpf_sockopt"
  "c_struct struct_bpf_pidns_info"
  "c_struct struct_bpf_sk_lookup"
  "c_struct struct_btf_ptr"
  "c_struct struct_bpf_core_relo"
  "c_struct struct_bpf_iter_num"
  by (simp_all add: uapi_struct_defs)

text \<open>The structures that are not fully covered by their members.\<close>

lemma padded_structs_eq:
  "filter (\<lambda>(x, t). c_struct t \<and> 0 < padding_bits t) uapi_structs =
   [(''bpf_cgroup_storage_key'', struct_bpf_cgroup_storage_key), (''bpf_attr.map_elem'', attr_map_elem),
    (''bpf_attr.test'', attr_test), (''bpf_attr.query'', attr_query),
    (''bpf_attr.raw_tracepoint'', attr_raw_tracepoint), (''sk_reuseport_md'', struct_sk_reuseport_md),
    (''bpf_prog_info'', struct_bpf_prog_info), (''bpf_link_info'', struct_bpf_link_info),
    (''bpf_sock_addr'', struct_bpf_sock_addr), (''bpf_sk_lookup'', struct_bpf_sk_lookup)]"
  by (simp add: uapi_structs_def struct_paddings struct_kinds)

lemma padding_bits_cases: "(x, t) \<in> set uapi_structs \<Longrightarrow> c_struct t \<Longrightarrow> padding_bits t = 0 \<or> padding_bits t = 32"
  by (auto simp: uapi_structs_def struct_paddings struct_kinds)

section \<open>Properties\<close>

text \<open>
  The members of every structure of the kernel interface are disjoint and lie inside it, its
  size is a multiple of its alignment, and the members cover it completely with the exception of
  ten structures, named here, which have one hole of 32 bits each; only these have to be cleared as
  a whole before they are passed to the kernel.
\<close>

lemma uapi_struct_layout:
  "(\<forall>x t. (x, t) \<in> set uapi_structs \<and> c_struct t \<longrightarrow>
      sorted_wrt (\<lambda>(y, p, n) (z, q, k). p + n \<le> q) (layout 0 (members t)) \<and>
      list_all (\<lambda>(y, p, n). p + n \<le> 8 * sizeof t) (layout 0 (members t)) \<and>
      alignof t dvd sizeof t \<and> (padding_bits t = 0 \<or> padding_bits t = 32)) \<and>
   map fst (filter (\<lambda>(x, t). c_struct t \<and> 0 < padding_bits t) uapi_structs) =
     [''bpf_cgroup_storage_key'', ''bpf_attr.map_elem'', ''bpf_attr.test'', ''bpf_attr.query'',
      ''bpf_attr.raw_tracepoint'', ''sk_reuseport_md'', ''bpf_prog_info'', ''bpf_link_info'',
      ''bpf_sock_addr'', ''bpf_sk_lookup'']"
proof (intro conjI allI impI)
  fix x t assume t: "(x, t) \<in> set uapi_structs \<and> c_struct t"
  then have ok: "ctype_ok t" using uapi_structs_ok by (auto simp: list_all_iff)
  note fs = c_struct_members_ok [OF conjunct2 [OF t] ok]
  show "sorted_wrt (\<lambda>(y, p, n) (z, q, k). p + n \<le> q) (layout 0 (members t))"
    by (rule layout_disjoint [OF fs])
  show "list_all (\<lambda>(y, p, n). p + n \<le> 8 * sizeof t) (layout 0 (members t))"
    using layout_bounds [OF fs] c_struct_end [OF conjunct2 [OF t] ok]
    by (fastforce simp: list_all_iff)
  show "alignof t dvd sizeof t" by (rule alignof_dvd_sizeof)
  show "padding_bits t = 0 \<or> padding_bits t = 32" using t by (rule conjE) (rule padding_bits_cases)
qed (simp add: padded_structs_eq)

end
