(* ===== verification/Bpf_Endian.thy ===== *)
theory Bpf_Endian
  imports Defrizer_Prelude
begin

unbundle bit_operations_syntax

text \<open>
  The byte order conversions of \<^verbatim>\<open>include/bpf/bpf_endian.h\<close>: the macro \<open>___bpf_mvb\<close>, the
  three constant byte swaps built from it, the compiler's \<open>__builtin_bswapX\<close>, and the public
  macros, which choose between the two by \<open>__builtin_constant_p\<close> and by the byte order the
  object is compiled for (both \<^verbatim>\<open>tcpsyn_bpfel.o\<close> and \<^verbatim>\<open>tcpsyn_bpfeb.o\<close> are built).
\<close>

datatype byte_order = Little_Endian | Big_Endian

section \<open>The constant byte swaps\<close>

text \<open>
  \<open>___bpf_mvb (x, b, n, m)\<close> is \<open>(__u##b)(x) << (b-(n+1)*8) >> (b-8) << (m*8)\<close>. For
  \<open>b = 16\<close> the operand is promoted to \<open>int\<close>, so the shifts work on 32 bits and the bits
  shifted past the sixteenth survive until the cast of \<open>___bpf_swab16\<close> removes them; for
  \<open>b = 32\<close> and \<open>b = 64\<close> the type is unsigned and at least as wide as \<open>int\<close>.
\<close>

definition bpf_mvb16 :: "u16 \<Rightarrow> nat \<Rightarrow> nat \<Rightarrow> u32" where
  "bpf_mvb16 x n m =
     push_bit (m * 8) (signed_drop_bit (16 - 8) (push_bit (16 - (n + 1) * 8) (ucast x)))"

definition bpf_mvb32 :: "u32 \<Rightarrow> nat \<Rightarrow> nat \<Rightarrow> u32" where
  "bpf_mvb32 x n m = push_bit (m * 8) (drop_bit (32 - 8) (push_bit (32 - (n + 1) * 8) x))"

definition bpf_mvb64 :: "u64 \<Rightarrow> nat \<Rightarrow> nat \<Rightarrow> u64" where
  "bpf_mvb64 x n m = push_bit (m * 8) (drop_bit (64 - 8) (push_bit (64 - (n + 1) * 8) x))"

definition bpf_swab16 :: "u16 \<Rightarrow> u16" where
  "bpf_swab16 x = ucast (bpf_mvb16 x 0 1 OR bpf_mvb16 x 1 0)"

definition bpf_swab32 :: "u32 \<Rightarrow> u32" where
  "bpf_swab32 x =
     bpf_mvb32 x 0 3 OR bpf_mvb32 x 1 2 OR bpf_mvb32 x 2 1 OR bpf_mvb32 x 3 0"

definition bpf_swab64 :: "u64 \<Rightarrow> u64" where
  "bpf_swab64 x =
     bpf_mvb64 x 0 7 OR bpf_mvb64 x 1 6 OR bpf_mvb64 x 2 5 OR bpf_mvb64 x 3 4 OR
     bpf_mvb64 x 4 3 OR bpf_mvb64 x 5 2 OR bpf_mvb64 x 6 1 OR bpf_mvb64 x 7 0"

section \<open>The compiler's byte swaps\<close>

definition builtin_bswap16 :: "u16 \<Rightarrow> u16" where
  "builtin_bswap16 x = word_cat (ucast x :: u8) (ucast (drop_bit 8 x) :: u8)"

definition builtin_bswap32 :: "u32 \<Rightarrow> u32" where
  "builtin_bswap32 x =
     word_cat (builtin_bswap16 (ucast x)) (builtin_bswap16 (ucast (drop_bit 16 x)))"

definition builtin_bswap64 :: "u64 \<Rightarrow> u64" where
  "builtin_bswap64 x =
     word_cat (builtin_bswap32 (ucast x)) (builtin_bswap32 (ucast (drop_bit 32 x)))"

section \<open>The public macros\<close>

text \<open>The argument \<open>cp\<close> is the compiler's answer to \<open>__builtin_constant_p\<close>.\<close>

definition bpf_htons :: "byte_order \<Rightarrow> bool \<Rightarrow> u16 \<Rightarrow> u16" where
  "bpf_htons bo cp x =
     (case bo of Little_Endian \<Rightarrow> (if cp then bpf_swab16 x else builtin_bswap16 x)
      | Big_Endian \<Rightarrow> x)"

definition bpf_ntohs :: "byte_order \<Rightarrow> bool \<Rightarrow> u16 \<Rightarrow> u16" where
  "bpf_ntohs bo cp x =
     (case bo of Little_Endian \<Rightarrow> (if cp then bpf_swab16 x else builtin_bswap16 x)
      | Big_Endian \<Rightarrow> x)"

definition bpf_htonl :: "byte_order \<Rightarrow> bool \<Rightarrow> u32 \<Rightarrow> u32" where
  "bpf_htonl bo cp x =
     (case bo of Little_Endian \<Rightarrow> (if cp then bpf_swab32 x else builtin_bswap32 x)
      | Big_Endian \<Rightarrow> x)"

definition bpf_ntohl :: "byte_order \<Rightarrow> bool \<Rightarrow> u32 \<Rightarrow> u32" where
  "bpf_ntohl bo cp x =
     (case bo of Little_Endian \<Rightarrow> (if cp then bpf_swab32 x else builtin_bswap32 x)
      | Big_Endian \<Rightarrow> x)"

definition bpf_cpu_to_be64 :: "byte_order \<Rightarrow> bool \<Rightarrow> u64 \<Rightarrow> u64" where
  "bpf_cpu_to_be64 bo cp x =
     (case bo of Little_Endian \<Rightarrow> (if cp then bpf_swab64 x else builtin_bswap64 x)
      | Big_Endian \<Rightarrow> x)"

definition bpf_be64_to_cpu :: "byte_order \<Rightarrow> bool \<Rightarrow> u64 \<Rightarrow> u64" where
  "bpf_be64_to_cpu bo cp x =
     (case bo of Little_Endian \<Rightarrow> (if cp then bpf_swab64 x else builtin_bswap64 x)
      | Big_Endian \<Rightarrow> x)"

section \<open>Byte swaps as permutations of bits\<close>

lemma bit_bpf_swab16:
  "bit (bpf_swab16 x) n \<longleftrightarrow> n < 16 \<and> bit x (if n < 8 then 8 + n else n - 8)"
proof -
  have "\<not> bit x (8 + n)" if "8 \<le> n"
    using that by (auto dest: bit_imp_le_length)
  then show ?thesis
    by (auto simp: bpf_swab16_def bpf_mvb16_def bit_simps not_less)
qed

lemma bit_builtin_bswap16:
  "bit (builtin_bswap16 x) n \<longleftrightarrow> n < 16 \<and> bit x (if n < 8 then 8 + n else n - 8)"
  by (auto simp: builtin_bswap16_def bit_simps not_less)

lemma bpf_swab16_eq_builtin: "bpf_swab16 x = builtin_bswap16 x"
  by (rule bit_word_eqI) (simp add: bit_bpf_swab16 bit_builtin_bswap16)

lemma builtin_bswap16_invol [simp]: "builtin_bswap16 (builtin_bswap16 x) = x"
  by (rule bit_word_eqI) (auto simp: bit_builtin_bswap16)

text \<open>The wider swaps, byte by byte.\<close>

lemma bit_bpf_mvb32:
  assumes "k < 4" and "m < 4"
  shows "bit (bpf_mvb32 x k m) n \<longleftrightarrow> 8 * m \<le> n \<and> n < 8 * m + 8 \<and> bit x (8 * k + n - 8 * m)"
  using assms
  by (auto simp: bpf_mvb32_def bit_simps dest: bit_imp_le_length) (auto simp: algebra_simps)

lemma bit_bpf_swab32:
  "bit (bpf_swab32 x) n \<longleftrightarrow>
     (if n < 8 then bit x (24 + n) else if n < 16 then bit x (8 + n)
      else if n < 24 then bit x (n - 8) else n < 32 \<and> bit x (n - 24))"
  by (auto simp: bpf_swab32_def bit_bpf_mvb32 bit_or_iff)

lemma bit_builtin_bswap32:
  "bit (builtin_bswap32 x) n \<longleftrightarrow>
     (if n < 8 then bit x (24 + n) else if n < 16 then bit x (8 + n)
      else if n < 24 then bit x (n - 8) else n < 32 \<and> bit x (n - 24))"
  by (auto simp: builtin_bswap32_def bit_simps bit_builtin_bswap16 dest: bit_imp_le_length)

lemma bpf_swab32_eq_builtin: "bpf_swab32 x = builtin_bswap32 x"
  by (rule bit_word_eqI) (simp add: bit_bpf_swab32 bit_builtin_bswap32)

lemma builtin_bswap32_invol [simp]: "builtin_bswap32 (builtin_bswap32 x) = x"
  by (rule bit_word_eqI) (auto simp: bit_builtin_bswap32)

lemma bit_bpf_mvb64:
  assumes "k < 8" and "m < 8"
  shows "bit (bpf_mvb64 x k m) n \<longleftrightarrow> 8 * m \<le> n \<and> n < 8 * m + 8 \<and> bit x (8 * k + n - 8 * m)"
  using assms
  by (auto simp: bpf_mvb64_def bit_simps dest: bit_imp_le_length) (auto simp: algebra_simps)

lemma bit_bpf_swab64:
  "bit (bpf_swab64 x) n \<longleftrightarrow>
     (if n < 8 then bit x (56 + n) else if n < 16 then bit x (40 + n)
      else if n < 24 then bit x (24 + n) else if n < 32 then bit x (8 + n)
      else if n < 40 then bit x (n - 8) else if n < 48 then bit x (n - 24)
      else if n < 56 then bit x (n - 40) else n < 64 \<and> bit x (n - 56))"
  by (simp add: bpf_swab64_def bit_bpf_mvb64 bit_or_iff)

lemma bit_builtin_bswap64:
  "bit (builtin_bswap64 x) n \<longleftrightarrow>
     (if n < 8 then bit x (56 + n) else if n < 16 then bit x (40 + n)
      else if n < 24 then bit x (24 + n) else if n < 32 then bit x (8 + n)
      else if n < 40 then bit x (n - 8) else if n < 48 then bit x (n - 24)
      else if n < 56 then bit x (n - 40) else n < 64 \<and> bit x (n - 56))"
  by (auto simp: builtin_bswap64_def bit_simps bit_builtin_bswap32 dest: bit_imp_le_length)

lemma bpf_swab64_eq_builtin: "bpf_swab64 x = builtin_bswap64 x"
  by (rule bit_word_eqI) (simp only: bit_bpf_swab64 bit_builtin_bswap64)

lemma builtin_bswap64_invol [simp]: "builtin_bswap64 (builtin_bswap64 x) = x"
proof (rule bit_word_eqI)
  fix n assume "n < LENGTH(64)"
  then have "n < 64" by simp
  then consider "n < 8" | "8 \<le> n" "n < 16" | "16 \<le> n" "n < 24" | "24 \<le> n" "n < 32"
    | "32 \<le> n" "n < 40" | "40 \<le> n" "n < 48" | "48 \<le> n" "n < 56" | "56 \<le> n" "n < 64"
    by linarith
  then show "bit (builtin_bswap64 (builtin_bswap64 x)) n = bit x n"
    by cases (auto simp: bit_builtin_bswap64)
qed

lemmas bpf_swab_eq_builtin = bpf_swab16_eq_builtin bpf_swab32_eq_builtin bpf_swab64_eq_builtin

lemmas bpf_order_defs =
  bpf_htons_def bpf_ntohs_def bpf_htonl_def bpf_ntohl_def bpf_cpu_to_be64_def bpf_be64_to_cpu_def

section \<open>Byte order conversion as an interface\<close>

text \<open>
  What a program relies on when it compares a field in network order with a converted constant or
  converts a field to host order: the two directions undo each other, whatever the compiler decides
  about constancy in either place.
\<close>

locale net_order =
  fixes hton :: "byte_order \<Rightarrow> bool \<Rightarrow> 'a::len word \<Rightarrow> 'a word"
    and ntoh :: "byte_order \<Rightarrow> bool \<Rightarrow> 'a word \<Rightarrow> 'a word"
  assumes ntoh_hton: "ntoh bo cp (hton bo cp' x) = x"
    and hton_ntoh: "hton bo cp (ntoh bo cp' x) = x"
begin

lemma hton_cp: "hton bo cp x = hton bo cp' x"
  using hton_ntoh [of bo cp True "hton bo cp' x"] by (simp add: ntoh_hton)

lemma ntoh_cp: "ntoh bo cp x = ntoh bo cp' x"
  using ntoh_hton [of bo cp True "ntoh bo cp' x"] by (simp add: hton_ntoh)

lemma eq_hton_iff: "w = hton bo cp x \<longleftrightarrow> ntoh bo cp' w = x"
proof
  show "ntoh bo cp' w = x" if "w = hton bo cp x"
    using that by (simp add: ntoh_hton)
  show "w = hton bo cp x" if "ntoh bo cp' w = x"
    using that hton_ntoh [of bo cp cp' w] by simp
qed

lemma hton_inject: "hton bo cp x = hton bo cp' y \<longleftrightarrow> x = y"
  by (simp add: eq_hton_iff [where cp' = True] ntoh_hton)

end

interpretation net16: net_order bpf_htons bpf_ntohs
  by unfold_locales (simp_all add: bpf_order_defs bpf_swab_eq_builtin split: byte_order.split)

interpretation net32: net_order bpf_htonl bpf_ntohl
  by unfold_locales (simp_all add: bpf_order_defs bpf_swab_eq_builtin split: byte_order.split)

interpretation net64: net_order bpf_cpu_to_be64 bpf_be64_to_cpu
  by unfold_locales (simp_all add: bpf_order_defs bpf_swab_eq_builtin split: byte_order.split)

section \<open>Multi-byte values in memory\<close>

text \<open>How the target reads a 16-bit and a 32-bit object from the bytes it occupies.\<close>

definition u16_of_bytes :: "byte_order \<Rightarrow> u8 \<Rightarrow> u8 \<Rightarrow> u16" where
  "u16_of_bytes bo b0 b1 =
     (case bo of Little_Endian \<Rightarrow> word_cat b1 b0 | Big_Endian \<Rightarrow> word_cat b0 b1)"

definition u32_of_bytes :: "byte_order \<Rightarrow> u8 \<Rightarrow> u8 \<Rightarrow> u8 \<Rightarrow> u8 \<Rightarrow> u32" where
  "u32_of_bytes bo b0 b1 b2 b3 =
     (case bo of
        Little_Endian \<Rightarrow> word_cat (u16_of_bytes Little_Endian b2 b3) (u16_of_bytes Little_Endian b0 b1)
      | Big_Endian \<Rightarrow> word_cat (u16_of_bytes Big_Endian b0 b1) (u16_of_bytes Big_Endian b2 b3))"

text \<open>The value a field has on the wire: most significant byte first.\<close>

abbreviation be16 :: "u8 \<Rightarrow> u8 \<Rightarrow> u16" where
  "be16 \<equiv> u16_of_bytes Big_Endian"

lemma builtin_bswap16_word_cat: "builtin_bswap16 (word_cat a b) = word_cat (b :: u8) (a :: u8)"
  by (rule bit_word_eqI) (auto simp: bit_builtin_bswap16 bit_simps)

lemma bpf_ntohs_u16_of_bytes [simp]: "bpf_ntohs bo cp (u16_of_bytes bo a b) = be16 a b"
  by (cases bo)
    (simp_all add: bpf_ntohs_def u16_of_bytes_def bpf_swab_eq_builtin builtin_bswap16_word_cat)

lemma u16_of_bytes_eq_htons [simp]:
  "u16_of_bytes bo a b = bpf_htons bo cp x \<longleftrightarrow> be16 a b = x"
  by (simp add: net16.eq_hton_iff [where cp' = True])

section \<open>Properties\<close>

text \<open>
  The preprocessor's two expansions of every byte order macro agree: whether the compiler takes
  its argument for a constant (\<open>___bpf_swabX\<close>) or not (\<open>__builtin_bswapX\<close>), the value is the
  same, for 16, 32 and 64 bits and both byte orders.
\<close>

lemma bpf_order_constant_runtime:
  "bpf_htons bo True x16 = bpf_htons bo False x16 \<and> bpf_ntohs bo True x16 = bpf_ntohs bo False x16 \<and>
   bpf_htonl bo True x32 = bpf_htonl bo False x32 \<and> bpf_ntohl bo True x32 = bpf_ntohl bo False x32 \<and>
   bpf_cpu_to_be64 bo True x64 = bpf_cpu_to_be64 bo False x64 \<and>
   bpf_be64_to_cpu bo True x64 = bpf_be64_to_cpu bo False x64"
  by (intro conjI net16.hton_cp net16.ntoh_cp net32.hton_cp net32.ntoh_cp net64.hton_cp net64.ntoh_cp)

text \<open>
  C36: converting to network order and back, in either direction and with any constancy decisions of
  the compiler, is the identity for all three widths.
\<close>

theorem bpf_order_roundtrip:
  "bpf_ntohs bo cp (bpf_htons bo cp' x16) = x16 \<and> bpf_htons bo cp (bpf_ntohs bo cp' x16) = x16 \<and>
   bpf_ntohl bo cp (bpf_htonl bo cp' x32) = x32 \<and> bpf_htonl bo cp (bpf_ntohl bo cp' x32) = x32 \<and>
   bpf_be64_to_cpu bo cp (bpf_cpu_to_be64 bo cp' x64) = x64 \<and>
   bpf_cpu_to_be64 bo cp (bpf_be64_to_cpu bo cp' x64) = x64"
  by (simp add: net16.ntoh_hton net16.hton_ntoh net32.ntoh_hton net32.hton_ntoh
      net64.ntoh_hton net64.hton_ntoh)

lemma unat_be16: "unat (be16 b0 b1) = 256 * unat b0 + unat b1"
proof -
  have b: "uint b0 < 256" "uint b1 < 256"
    using unsigned_less [of b0, where ?'a = int] unsigned_less [of b1, where ?'a = int] by simp_all
  have "0 \<le> uint b0" "0 \<le> uint b1" by simp_all
  have u: "uint (ucast b0 :: u16) = uint b0"
    using b \<open>0 \<le> uint b0\<close> by (simp add: unsigned_ucast_eq take_bit_eq_mod)
  have "uint (be16 b0 b1) = (uint b1 mod 256 + 256 * uint b0) mod 65536"
    by (simp add: u16_of_bytes_def word_cat_eq' concat_bit_eq take_bit_eq_mod push_bit_eq_mult
        unsigned_of_int uint_word_ariths mod_simps mult.commute u)
  also have "\<dots> = uint b1 + 256 * uint b0"
    using b \<open>0 \<le> uint b0\<close> \<open>0 \<le> uint b1\<close>
    by (subst mod_pos_pos_trivial; simp)
  finally have "int (unat (be16 b0 b1)) = int (256 * unat b0 + unat b1)" by simp
  then show ?thesis by (rule of_nat_eq_iff [THEN iffD1])
qed

lemma builtin_bswap32_word_cat:
  "builtin_bswap32 (word_cat a b) = word_cat (builtin_bswap16 b) (builtin_bswap16 a)"
  by (rule bit_word_eqI) (auto simp: bit_builtin_bswap32 bit_builtin_bswap16 bit_simps)

text \<open>
  \<open>bpf_ntohs\<close> and \<open>bpf_ntohl\<close> of a field read from packet memory give the number whose
  most significant byte is the field's first byte, on little and on big endian targets alike.
\<close>

lemma bpf_ntoh_wire_value:
  "unat (bpf_ntohs bo cp (u16_of_bytes bo b0 b1)) = 256 * unat b0 + unat b1 \<and>
   bpf_ntohl bo cp (u32_of_bytes bo b0 b1 b2 b3) = u32_of_bytes Big_Endian b0 b1 b2 b3"
proof
  show "unat (bpf_ntohs bo cp (u16_of_bytes bo b0 b1)) = 256 * unat b0 + unat b1"
    by (simp add: unat_be16)
  show "bpf_ntohl bo cp (u32_of_bytes bo b0 b1 b2 b3) = u32_of_bytes Big_Endian b0 b1 b2 b3"
    by (cases bo) (simp_all add: bpf_ntohl_def u32_of_bytes_def u16_of_bytes_def
        bpf_swab_eq_builtin builtin_bswap32_word_cat builtin_bswap16_word_cat)
qed

end
