(* ===== verification/Xdp_Context.thy ===== *)
theory Xdp_Context
  imports Bpf_Endian C_Layout
begin

unbundle bit_operations_syntax

text \<open>
  What an XDP program sees of the packet: \<open>struct xdp_md\<close> and \<open>enum xdp_action\<close> of
  \<^verbatim>\<open>include/bpf/bpf.h\<close>, the packet bytes between \<open>ctx->data\<close> and \<open>ctx->data_end\<close>, and
  reads through 64-bit pointers, where a read that leaves that window is a fault and not a value.
\<close>

section \<open>Return codes and context\<close>

datatype xdp_action = XDP_ABORTED | XDP_DROP | XDP_PASS | XDP_TX | XDP_REDIRECT

primrec xdp_code :: "xdp_action \<Rightarrow> u32" where
  "xdp_code XDP_ABORTED = 0"
| "xdp_code XDP_DROP = 1"
| "xdp_code XDP_PASS = 2"
| "xdp_code XDP_TX = 3"
| "xdp_code XDP_REDIRECT = 4"

definition xdp_of_code :: "u32 \<Rightarrow> xdp_action option" where
  "xdp_of_code w = map_of (map (\<lambda>a. (xdp_code a, a))
     [XDP_ABORTED, XDP_DROP, XDP_PASS, XDP_TX, XDP_REDIRECT]) w"

lemma xdp_of_code_code [simp]: "xdp_of_code (xdp_code a) = Some a"
  by (cases a) (simp_all add: xdp_of_code_def)

lemma xdp_code_inject [simp]: "xdp_code a = xdp_code b \<longleftrightarrow> a = b"
  by (metis option.inject xdp_of_code_code)

record xdp_md =
  data :: u32
  data_end :: u32
  data_meta :: u32
  ingress_ifindex :: u32
  rx_queue_index :: u32
  egress_ifindex :: u32

section \<open>Packet memory\<close>

type_synonym ptr = u64

text \<open>The context together with the packet bytes that start at \<open>ctx->data\<close>.\<close>

record xdp_ctx =
  md :: xdp_md
  pkt :: "u8 list"

text \<open>The bytes fill the window \<open>[data, data_end)\<close> exactly.\<close>

definition ctx_ok :: "xdp_ctx \<Rightarrow> bool" where
  "ctx_ok c \<longleftrightarrow> unat (data_end (md c)) = unat (data (md c)) + length (pkt c)"

text \<open>\<open>(void*)(long)ctx->data\<close> and \<open>(void*)(long)ctx->data_end\<close>.\<close>

definition data_ptr :: "xdp_ctx \<Rightarrow> ptr" where
  "data_ptr c = ucast (data (md c))"

definition data_end_ptr :: "xdp_ctx \<Rightarrow> ptr" where
  "data_end_ptr c = ucast (data_end (md c))"

datatype fault = Bad_Load ptr nat

definition load :: "xdp_ctx \<Rightarrow> ptr \<Rightarrow> nat \<Rightarrow> fault + u8 list" where
  "load c p n =
     (if unat (data (md c)) \<le> unat p \<and> unat p + n \<le> unat (data_end (md c))
      then Inr (take n (drop (unat p - unat (data (md c))) (pkt c)))
      else Inl (Bad_Load p n))"

definition load8 :: "xdp_ctx \<Rightarrow> ptr \<Rightarrow> fault + u8" where
  "load8 c p = rbind (load c p 1) (\<lambda>bs. Inr (bs ! 0))"

definition load16 :: "byte_order \<Rightarrow> xdp_ctx \<Rightarrow> ptr \<Rightarrow> fault + u16" where
  "load16 bo c p = rbind (load c p 2) (\<lambda>bs. Inr (u16_of_bytes bo (bs ! 0) (bs ! 1)))"

definition load32 :: "byte_order \<Rightarrow> xdp_ctx \<Rightarrow> ptr \<Rightarrow> fault + u32" where
  "load32 bo c p =
     rbind (load c p 4) (\<lambda>bs. Inr (u32_of_bytes bo (bs ! 0) (bs ! 1) (bs ! 2) (bs ! 3)))"

section \<open>Pointers as offsets\<close>

text \<open>\<open>points c off p\<close>: the pointer is \<open>off\<close> bytes into the packet, or just past its end.\<close>

definition points :: "xdp_ctx \<Rightarrow> nat \<Rightarrow> ptr \<Rightarrow> bool" where
  "points c off p \<longleftrightarrow> off \<le> length (pkt c) \<and> unat p = unat (data (md c)) + off"

lemma points_le: "points c off p \<Longrightarrow> off \<le> length (pkt c)"
  by (simp add: points_def)

lemma points_data [simp]: "points c 0 (data_ptr c)"
  by (simp add: points_def data_ptr_def)

lemma ctx_window_bound: "ctx_ok c \<Longrightarrow> unat (data (md c)) + length (pkt c) < 4294967296"
  using unat_u32_bound [of "data_end (md c)"] by (simp add: ctx_ok_def)

lemma points_unat_add:
  assumes "ctx_ok c" and "points c off p" and "n \<le> 65536"
  shows "unat (p + of_nat n) = unat p + n"
  using assms ctx_window_bound [OF assms(1)]
  by (intro unat_add_of_nat_small) (simp add: points_def)

lemma points_add:
  assumes "ctx_ok c" and "points c off p" and "n \<le> 65536" and "off + n \<le> length (pkt c)"
  shows "points c (off + n) (p + of_nat n)"
  using assms points_unat_add [OF assms(1-3)] by (simp add: points_def)

text \<open>The bounds check \<open>p + n > data_end\<close>: no wrap-around, so it compares offsets.\<close>

lemma bounds_check:
  assumes "ctx_ok c" and "points c off p" and "n \<le> 65536"
  shows "data_end_ptr c < p + of_nat n \<longleftrightarrow> length (pkt c) < off + n"
  using assms points_unat_add [OF assms]
  by (simp add: word_less_nat_alt data_end_ptr_def ctx_ok_def points_def)

lemma load_points:
  assumes "ctx_ok c" and "points c off p" and "k \<le> 65536" and "off + k + n \<le> length (pkt c)"
  shows "load c (p + of_nat k) n = Inr (take n (drop (off + k) (pkt c)))"
  using assms points_unat_add [OF assms(1-3)] by (simp add: load_def ctx_ok_def points_def)

lemma load8_points:
  assumes "ctx_ok c" and "points c off p" and "k \<le> 65536" and "off + k < length (pkt c)"
  shows "load8 c (p + of_nat k) = Inr (pkt c ! (off + k))"
  using assms by (simp add: load8_def load_points take_drop_one)

lemma load16_points:
  assumes "ctx_ok c" and "points c off p" and "k \<le> 65536" and "off + k + 1 < length (pkt c)"
  shows "load16 bo c (p + of_nat k) =
    Inr (u16_of_bytes bo (pkt c ! (off + k)) (pkt c ! (off + k + 1)))"
  using assms by (simp add: load16_def load_points take_drop_two)

lemma load32_points:
  assumes "ctx_ok c" and "points c off p" and "k \<le> 65536" and "off + k + 3 < length (pkt c)"
  shows "load32 bo c (p + of_nat k) = Inr (u32_of_bytes bo (pkt c ! (off + k))
    (pkt c ! (off + k + 1)) (pkt c ! (off + k + 2)) (pkt c ! (off + k + 3)))"
  using assms by (simp add: load32_def load_points)

end
