(* ===== verification/Packet_Parse.thy ===== *)
theory Packet_Parse
  imports Xdp_Context
begin

unbundle bit_operations_syntax

text \<open>
  The header parsers of \<^verbatim>\<open>tcp_syn_kern.h\<close> (the file is the same in \<^verbatim>\<open>dumpframes\<close> and
  \<^verbatim>\<open>perf_event\<close>). Each parser is given the cursor and the end of the packet, reads through the
  checked loads of \<open>Xdp_Context\<close>, and returns its C result together with the new cursor and the
  header pointer it stores for its caller.
\<close>

section \<open>The network headers of the system\<close>

text \<open>
  \<^verbatim>\<open>linux/if_ether.h\<close>, \<^verbatim>\<open>linux/ip.h\<close>, \<^verbatim>\<open>linux/ipv6.h\<close>, \<^verbatim>\<open>linux/udp.h\<close>,
  \<^verbatim>\<open>linux/tcp.h\<close> and \<^verbatim>\<open>linux/in.h\<close> are headers of the build system, not of the repository:
  the constants, sizes and member offsets that the parsers take from them are a parameter.
\<close>

record net_uapi =
  ETH_P_IP :: u16
  ETH_P_IPV6 :: u16
  ETH_P_8021Q :: u16
  ETH_P_8021AD :: u16
  IPPROTO_TCP :: nat
  sizeof_ethhdr :: nat
  eth_h_proto :: nat
  sizeof_iphdr :: nat
  ip_ihl :: nat
  ip_ihl_shift :: nat
  ip_protocol :: nat
  sizeof_ipv6hdr :: nat
  ip6_nexthdr :: nat
  sizeof_udphdr :: nat
  udp_len :: nat
  sizeof_tcphdr :: nat
  tcp_source :: nat
  tcp_dest :: nat
  tcp_seq :: nat
  tcp_doff :: nat
  tcp_doff_shift :: nat

text \<open>
  What the parsers rely on: every member they read lies inside its header, and no header is
  larger than a page.
\<close>

definition net_uapi_ok :: "net_uapi \<Rightarrow> bool" where
  "net_uapi_ok u \<longleftrightarrow>
     eth_h_proto u + 2 \<le> sizeof_ethhdr u \<and> sizeof_ethhdr u \<le> 4096 \<and>
     ip_ihl u < sizeof_iphdr u \<and> ip_protocol u < sizeof_iphdr u \<and> sizeof_iphdr u \<le> 4096 \<and>
     ip6_nexthdr u < sizeof_ipv6hdr u \<and> sizeof_ipv6hdr u \<le> 4096 \<and>
     udp_len u + 2 \<le> sizeof_udphdr u \<and> sizeof_udphdr u \<le> 4096 \<and>
     tcp_source u + 2 \<le> sizeof_tcphdr u \<and> tcp_dest u + 2 \<le> sizeof_tcphdr u \<and>
     tcp_seq u + 4 \<le> sizeof_tcphdr u \<and> tcp_doff u < sizeof_tcphdr u \<and> sizeof_tcphdr u \<le> 4096"

text \<open>The values of Linux, which are those of the wire formats (RFC 894, 791, 8200, 768, 793).\<close>

definition linux_net_uapi :: net_uapi where
  "linux_net_uapi = \<lparr>
     ETH_P_IP = 0x0800, ETH_P_IPV6 = 0x86DD, ETH_P_8021Q = 0x8100, ETH_P_8021AD = 0x88A8,
     IPPROTO_TCP = 6,
     sizeof_ethhdr = 14, eth_h_proto = 12,
     sizeof_iphdr = 20, ip_ihl = 0, ip_ihl_shift = 0, ip_protocol = 9,
     sizeof_ipv6hdr = 40, ip6_nexthdr = 6,
     sizeof_udphdr = 8, udp_len = 4,
     sizeof_tcphdr = 20, tcp_source = 0, tcp_dest = 2, tcp_seq = 4,
     tcp_doff = 12, tcp_doff_shift = 4\<rparr>"

lemma linux_net_uapi_ok: "net_uapi_ok linux_net_uapi"
  by (simp add: net_uapi_ok_def linux_net_uapi_def)

text \<open>A member declared as a bit-field of four bits.\<close>

definition nibble :: "nat \<Rightarrow> u8 \<Rightarrow> nat" where
  "nibble s b = unat (drop_bit s b AND 15)"

lemma nibble_le: "nibble s b \<le> 15"
  using word_and_le1 [of "drop_bit s b" "15 :: u8"]
  by (simp add: nibble_def word_le_nat_alt)

section \<open>Cursor and VLAN header\<close>

record hdr_cursor =
  pos :: ptr

record stats_datarec =
  rx_packets :: u64
  rx_bytes :: u64

definition XDP_ACTION_MAX :: u32 where
  "XDP_ACTION_MAX = xdp_code XDP_REDIRECT + 1"

lemma xdp_action_max: "xdp_code a < XDP_ACTION_MAX"
  by (cases a) (simp_all add: XDP_ACTION_MAX_def)

definition vlan_hdr :: ctype where
  "vlan_hdr = CStruct [CField ''h_vlan_TCI'' c_u16, CField ''h_vlan_encapsulated_proto'' c_u16]"

definition VLAN_MAX_DEPTH :: nat where
  "VLAN_MAX_DEPTH = 2"

definition VLAN_VID_MASK :: u16 where
  "VLAN_VID_MASK = 0x0fff"

record collect_vlans =
  vlan_id :: "u16 list"

definition proto_is_vlan :: "net_uapi \<Rightarrow> byte_order \<Rightarrow> u16 \<Rightarrow> bool" where
  "proto_is_vlan u bo h_proto \<longleftrightarrow>
     h_proto = bpf_htons bo True (ETH_P_8021Q u) \<or> h_proto = bpf_htons bo True (ETH_P_8021AD u)"

section \<open>The parsers\<close>

text \<open>
  The loop of \<open>parse_ethhdr_vlan\<close> from iteration \<open>i\<close>, with \<open>vlh\<close>, \<open>h_proto\<close> and the
  collected ids as its variables; \<open>break\<close> and the end of the loop return them.
\<close>

function parse_vlans ::
  "net_uapi \<Rightarrow> byte_order \<Rightarrow> xdp_ctx \<Rightarrow> ptr \<Rightarrow> nat \<Rightarrow> ptr \<Rightarrow> u16 \<Rightarrow> collect_vlans option \<Rightarrow>
   fault + (ptr \<times> u16 \<times> collect_vlans option)" where
  "parse_vlans u bo c dend i vlh h_proto vlans =
     (if i < VLAN_MAX_DEPTH then
        if \<not> proto_is_vlan u bo h_proto then Inr (vlh, h_proto, vlans)
        else if dend < vlh + of_nat (sizeof vlan_hdr) then Inr (vlh, h_proto, vlans)
        else rbind (load16 bo c (vlh + of_nat (the (offsetof vlan_hdr ''h_vlan_encapsulated_proto''))))
          (\<lambda>h_proto'.
            (case vlans of
               None \<Rightarrow> parse_vlans u bo c dend (Suc i) (vlh + of_nat (sizeof vlan_hdr)) h_proto' None
             | Some v \<Rightarrow>
                 rbind (load16 bo c (vlh + of_nat (the (offsetof vlan_hdr ''h_vlan_TCI''))))
                   (\<lambda>tci. parse_vlans u bo c dend (Suc i) (vlh + of_nat (sizeof vlan_hdr)) h_proto'
                      (Some (v\<lparr>vlan_id := (vlan_id v)[i := bpf_ntohs bo False tci AND VLAN_VID_MASK]\<rparr>)))))
      else Inr (vlh, h_proto, vlans))"
  by pat_completeness auto
termination
  by (relation "measure (\<lambda>(u, bo, c, dend, i, vlh, h, vs). VLAN_MAX_DEPTH - i)") auto

declare parse_vlans.simps [simp del]

definition parse_ethhdr_vlan ::
  "net_uapi \<Rightarrow> byte_order \<Rightarrow> xdp_ctx \<Rightarrow> hdr_cursor \<Rightarrow> ptr \<Rightarrow> ptr \<Rightarrow> collect_vlans option \<Rightarrow>
   fault + (int \<times> hdr_cursor \<times> ptr \<times> collect_vlans option)" where
  "parse_ethhdr_vlan u bo c nh dend ethhdr vlans =
     (let eth = pos nh; hdrsize = sizeof_ethhdr u in
      if dend < pos nh + of_nat hdrsize then Inr (-1, nh, ethhdr, vlans)
      else rbind (load16 bo c (eth + of_nat (eth_h_proto u)))
        (\<lambda>h_proto. rbind (parse_vlans u bo c dend 0 (pos nh + of_nat hdrsize) h_proto vlans)
          (\<lambda>(vlh, h_proto', vlans'). Inr (int (unat h_proto'), nh\<lparr>pos := vlh\<rparr>, eth, vlans'))))"

definition parse_ethhdr ::
  "net_uapi \<Rightarrow> byte_order \<Rightarrow> xdp_ctx \<Rightarrow> hdr_cursor \<Rightarrow> ptr \<Rightarrow> ptr \<Rightarrow> fault + (int \<times> hdr_cursor \<times> ptr)" where
  "parse_ethhdr u bo c nh dend ethhdr =
     rbind (parse_ethhdr_vlan u bo c nh dend ethhdr None) (\<lambda>(r, nh', eth, _). Inr (r, nh', eth))"

definition parse_iphdr ::
  "net_uapi \<Rightarrow> xdp_ctx \<Rightarrow> hdr_cursor \<Rightarrow> ptr \<Rightarrow> ptr \<Rightarrow> fault + (int \<times> hdr_cursor \<times> ptr)" where
  "parse_iphdr u c nh dend iphdr =
     (let iph = pos nh in
      if dend < iph + of_nat (sizeof_iphdr u) then Inr (-1, nh, iphdr)
      else rbind (load8 c (iph + of_nat (ip_ihl u)))
        (\<lambda>b. let hdrsize = nibble (ip_ihl_shift u) b * 4 in
          if hdrsize < sizeof_iphdr u then Inr (-1, nh, iphdr)
          else if dend < pos nh + of_nat hdrsize then Inr (-1, nh, iphdr)
          else rbind (load8 c (iph + of_nat (ip_protocol u)))
            (\<lambda>pr. Inr (int (unat pr), nh\<lparr>pos := pos nh + of_nat hdrsize\<rparr>, iph))))"

definition parse_ip6hdr ::
  "net_uapi \<Rightarrow> xdp_ctx \<Rightarrow> hdr_cursor \<Rightarrow> ptr \<Rightarrow> ptr \<Rightarrow> fault + (int \<times> hdr_cursor \<times> ptr)" where
  "parse_ip6hdr u c nh dend ip6hdr =
     (let ip6h = pos nh in
      if dend < ip6h + of_nat (sizeof_ipv6hdr u) then Inr (-1, nh, ip6hdr)
      else rbind (load8 c (ip6h + of_nat (ip6_nexthdr u)))
        (\<lambda>pr. Inr (int (unat pr), nh\<lparr>pos := ip6h + of_nat (sizeof_ipv6hdr u)\<rparr>, ip6h)))"

text \<open>
  In \<open>parse_udphdr\<close> the length is computed in \<open>size_t\<close>, where it wraps, and then converted to
  \<open>int\<close>, where a wrapped difference is negative again.
\<close>

definition parse_udphdr ::
  "net_uapi \<Rightarrow> byte_order \<Rightarrow> xdp_ctx \<Rightarrow> hdr_cursor \<Rightarrow> ptr \<Rightarrow> ptr \<Rightarrow> fault + (int \<times> hdr_cursor \<times> ptr)" where
  "parse_udphdr u bo c nh dend udphdr =
     (let h = pos nh in
      if dend < h + of_nat (sizeof_udphdr u) then Inr (-1, nh, udphdr)
      else let nh' = nh\<lparr>pos := h + of_nat (sizeof_udphdr u)\<rparr> in
        rbind (load16 bo c (h + of_nat (udp_len u)))
          (\<lambda>w. let len = sint (ucast ((ucast (bpf_ntohs bo False w) :: u64) -
                                      of_nat (sizeof_udphdr u)) :: u32) in
            if len < 0 then Inr (-1, nh', h) else Inr (len, nh', h)))"

definition parse_tcphdr ::
  "net_uapi \<Rightarrow> xdp_ctx \<Rightarrow> hdr_cursor \<Rightarrow> ptr \<Rightarrow> ptr \<Rightarrow> fault + (int \<times> hdr_cursor \<times> ptr)" where
  "parse_tcphdr u c nh dend tcphdr =
     (let h = pos nh in
      if dend < h + of_nat (sizeof_tcphdr u) then Inr (-1, nh, tcphdr)
      else rbind (load8 c (h + of_nat (tcp_doff u)))
        (\<lambda>b. let len = nibble (tcp_doff_shift u) b * 4 in
          if len < sizeof_tcphdr u then Inr (-1, nh, tcphdr)
          else if dend < pos nh + of_nat len then Inr (-1, nh, tcphdr)
          else Inr (int len, nh\<lparr>pos := pos nh + of_nat len\<rparr>, h)))"

section \<open>The parsers on byte offsets\<close>

text \<open>
  The same computations on a list of bytes and offsets into it, in network byte order: no pointers,
  no host byte order, nothing that can fault. The results are \<open>None\<close> for the C result \<open>-1\<close>.
\<close>

definition is_vlan :: "net_uapi \<Rightarrow> u16 \<Rightarrow> bool" where
  "is_vlan u pr \<longleftrightarrow> pr = ETH_P_8021Q u \<or> pr = ETH_P_8021AD u"

fun skip_vlans :: "net_uapi \<Rightarrow> u8 list \<Rightarrow> nat \<Rightarrow> nat \<Rightarrow> u16 \<Rightarrow> u16 \<times> nat" where
  "skip_vlans u bs 0 off pr = (pr, off)"
| "skip_vlans u bs (Suc d) off pr =
     (if is_vlan u pr \<and> off + 4 \<le> length bs
      then skip_vlans u bs d (off + 4) (be16 (bs ! (off + 2)) (bs ! (off + 3)))
      else (pr, off))"

definition eth_spec :: "net_uapi \<Rightarrow> u8 list \<Rightarrow> nat \<Rightarrow> (u16 \<times> nat) option" where
  "eth_spec u bs off =
     (if length bs < off + sizeof_ethhdr u then None
      else Some (skip_vlans u bs VLAN_MAX_DEPTH (off + sizeof_ethhdr u)
        (be16 (bs ! (off + eth_h_proto u)) (bs ! (off + eth_h_proto u + 1)))))"

definition ip_spec :: "net_uapi \<Rightarrow> u8 list \<Rightarrow> nat \<Rightarrow> (nat \<times> nat) option" where
  "ip_spec u bs off =
     (if length bs < off + sizeof_iphdr u then None
      else let n = nibble (ip_ihl_shift u) (bs ! (off + ip_ihl u)) * 4 in
        if n < sizeof_iphdr u \<or> length bs < off + n then None
        else Some (unat (bs ! (off + ip_protocol u)), off + n))"

definition ip6_spec :: "net_uapi \<Rightarrow> u8 list \<Rightarrow> nat \<Rightarrow> (nat \<times> nat) option" where
  "ip6_spec u bs off =
     (if length bs < off + sizeof_ipv6hdr u then None
      else Some (unat (bs ! (off + ip6_nexthdr u)), off + sizeof_ipv6hdr u))"

definition tcp_spec :: "net_uapi \<Rightarrow> u8 list \<Rightarrow> nat \<Rightarrow> nat option" where
  "tcp_spec u bs off =
     (if length bs < off + sizeof_tcphdr u then None
      else let n = nibble (tcp_doff_shift u) (bs ! (off + tcp_doff u)) * 4 in
        if n < sizeof_tcphdr u \<or> length bs < off + n then None else Some n)"

section \<open>The parsers compute their specification\<close>

lemma vlan_hdr_layout [simp]:
  "sizeof vlan_hdr = 4"
  "offsetof vlan_hdr ''h_vlan_TCI'' = Some 0"
  "offsetof vlan_hdr ''h_vlan_encapsulated_proto'' = Some 2"
  by (simp_all add: vlan_hdr_def offsetof_def align_up_def)

lemma proto_is_vlan_htons [simp]:
  "proto_is_vlan u bo (bpf_htons bo cp pr) \<longleftrightarrow> is_vlan u pr"
  by (simp add: proto_is_vlan_def is_vlan_def net16.hton_inject)

lemma u16_of_bytes_htons: "u16_of_bytes bo a b = bpf_htons bo True (be16 a b)"
  by (simp only: u16_of_bytes_eq_htons)

lemma skip_vlans_bounds:
  "off \<le> length bs \<Longrightarrow> skip_vlans u bs d off pr = (pr', off') \<Longrightarrow>
   off \<le> off' \<and> off' \<le> length bs \<and> off' \<le> off + 4 * d"
  by (induction u bs d off pr rule: skip_vlans.induct) (fastforce split: if_splits)+

text \<open>
  What the loop does to the collected ids: the array keeps its length, and every entry is an old
  one or a VLAN identifier of twelve bits.
\<close>

definition vlans_upd :: "collect_vlans option \<Rightarrow> collect_vlans option \<Rightarrow> bool" where
  "vlans_upd vs vs' \<longleftrightarrow>
     (case vs of None \<Rightarrow> vs' = None
      | Some v \<Rightarrow> (\<exists>v'. vs' = Some v' \<and> length (vlan_id v') = length (vlan_id v) \<and>
          (\<forall>x \<in> set (vlan_id v'). x \<in> set (vlan_id v) \<or> x \<le> VLAN_VID_MASK)))"

lemma vlans_upd_refl [simp]: "vlans_upd vs vs"
  by (cases vs) (auto simp: vlans_upd_def)

lemma vlans_upd_store:
  assumes "vlans_upd (Some (v\<lparr>vlan_id := (vlan_id v)[i := x AND VLAN_VID_MASK]\<rparr>)) vs'"
  shows "vlans_upd (Some v) vs'"
proof -
  have "set ((vlan_id v)[i := x AND VLAN_VID_MASK]) \<subseteq> insert (x AND VLAN_VID_MASK) (set (vlan_id v))"
    by (rule set_update_subset_insert)
  with assms show ?thesis
    by (fastforce simp: vlans_upd_def word_and_le1)
qed

text \<open>The loop, from any iteration, with or without a place to collect VLAN ids.\<close>

lemma parse_vlans_spec:
  assumes "ctx_ok c" and "points c off vlh" and "i \<le> VLAN_MAX_DEPTH"
    and "skip_vlans u (pkt c) (VLAN_MAX_DEPTH - i) off pr = (pr', off')"
  shows "\<exists>vlh' vs'. parse_vlans u bo c (data_end_ptr c) i vlh (bpf_htons bo True pr) vs =
           Inr (vlh', bpf_htons bo True pr', vs') \<and> points c off' vlh' \<and> vlans_upd vs vs'"
  using assms(2-)
proof (induction "VLAN_MAX_DEPTH - i" arbitrary: i off vlh pr vs)
  case 0
  then show ?case by (auto simp: parse_vlans.simps)
next
  case (Suc d)
  then have i: "i < VLAN_MAX_DEPTH" and d: "VLAN_MAX_DEPTH - Suc i = d" by auto
  note chk = bounds_check [OF assms(1) Suc.prems(1), of 4, simplified]
  have skp: "skip_vlans u (pkt c) (Suc d) off pr = (pr', off')"
    using Suc.prems(3) Suc.hyps(2) by simp
  show ?case
  proof (cases "is_vlan u pr \<and> off + 4 \<le> length (pkt c)")
    case False
    with Suc.prems(1) skp i show ?thesis
      by (subst parse_vlans.simps) (auto simp: chk)
  next
    case True
    let ?pr = "be16 (pkt c ! (off + 2)) (pkt c ! (off + 3))"
    have ld: "load16 bo c (vlh + 2) = Inr (bpf_htons bo True ?pr)"
      using load16_points [OF assms(1) Suc.prems(1), of 2 bo] True
      by (simp add: numeral_3_eq_3 flip: u16_of_bytes_htons)
    have ld0: "\<exists>w. load16 bo c vlh = Inr w"
      using load16_points [OF assms(1) Suc.prems(1), of 0 bo] True by simp
    have pt: "points c (off + 4) (vlh + 4)"
      using points_add [OF assms(1) Suc.prems(1), of 4] True by simp
    have sk: "skip_vlans u (pkt c) (VLAN_MAX_DEPTH - Suc i) (off + 4) ?pr = (pr', off')"
      using skp True d by simp
    note IH = Suc.hyps(1) [OF d [symmetric] pt _ sk]
    show ?thesis
    proof (cases vs)
      case None
      with True i ld chk IH [of None] show ?thesis by (subst parse_vlans.simps) auto
    next
      case (Some v)
      from ld0 obtain w where w: "load16 bo c vlh = Inr w" by blast
      let ?vs = "Some (v\<lparr>vlan_id := (vlan_id v)[i := bpf_ntohs bo False w AND VLAN_VID_MASK]\<rparr>)"
      from IH [of ?vs] obtain vlh' vs' where
        "parse_vlans u bo c (data_end_ptr c) (Suc i) (vlh + 4) (bpf_htons bo True ?pr) ?vs =
           Inr (vlh', bpf_htons bo True pr', vs')" and "points c off' vlh'" and "vlans_upd (Some v) vs'"
        using i by (auto dest: vlans_upd_store)
      with Some w True i ld chk show ?thesis by (subst parse_vlans.simps) simp
    qed
  qed
qed

lemma parse_ethhdr_spec:
  assumes "ctx_ok c" and "net_uapi_ok u" and "points c off (pos nh)"
  shows "case eth_spec u (pkt c) off of
      None \<Rightarrow> parse_ethhdr u bo c nh (data_end_ptr c) eth = Inr (-1, nh, eth)
    | Some (pr, off') \<Rightarrow> \<exists>p. points c off' p \<and>
        parse_ethhdr u bo c nh (data_end_ptr c) eth =
          Inr (int (unat (bpf_htons bo True pr)), nh\<lparr>pos := p\<rparr>, pos nh)"
proof (cases "length (pkt c) < off + sizeof_ethhdr u")
  case True
  then show ?thesis
    using bounds_check [OF assms(1,3), of "sizeof_ethhdr u"] assms(2)
    by (simp add: eth_spec_def parse_ethhdr_def parse_ethhdr_vlan_def net_uapi_ok_def)
next
  case False
  let ?pr = "be16 (pkt c ! (off + eth_h_proto u)) (pkt c ! (off + eth_h_proto u + 1))"
  have ld: "load16 bo c (pos nh + of_nat (eth_h_proto u)) = Inr (bpf_htons bo True ?pr)"
    using load16_points [OF assms(1,3), of "eth_h_proto u" bo] assms(2) False
    by (simp add: net_uapi_ok_def flip: u16_of_bytes_htons)
  have pt: "points c (off + sizeof_ethhdr u) (pos nh + of_nat (sizeof_ethhdr u))"
    using points_add [OF assms(1,3), of "sizeof_ethhdr u"] assms(2) False
    by (simp add: net_uapi_ok_def)
  obtain pr' off' where
    sk: "skip_vlans u (pkt c) (VLAN_MAX_DEPTH - 0) (off + sizeof_ethhdr u) ?pr = (pr', off')"
    by (cases "skip_vlans u (pkt c) (VLAN_MAX_DEPTH - 0) (off + sizeof_ethhdr u) ?pr")
  from parse_vlans_spec [OF assms(1) pt _ sk, of bo None] obtain p where
    "points c off' p" and
    "parse_vlans u bo c (data_end_ptr c) 0 (pos nh + of_nat (sizeof_ethhdr u))
       (bpf_htons bo True ?pr) None = Inr (p, bpf_htons bo True pr', None)"
    by (auto simp: vlans_upd_def)
  with False sk ld bounds_check [OF assms(1,3), of "sizeof_ethhdr u"] assms(2) show ?thesis
    by (auto simp: eth_spec_def parse_ethhdr_def parse_ethhdr_vlan_def net_uapi_ok_def)
qed

text \<open>Bounds checks and reads inside a header of a supported size.\<close>

lemma header_reads:
  assumes "ctx_ok c" and "points c off p" and "off + n \<le> length (pkt c)" and "k < n" and "n \<le> 4096"
  shows "load8 c (p + of_nat k) = Inr (pkt c ! (off + k))"
  using load8_points [OF assms(1,2), of k] assms(3-) by simp

lemma parse_iphdr_spec:
  assumes "ctx_ok c" and "net_uapi_ok u" and "points c off (pos nh)"
  shows "case ip_spec u (pkt c) off of
      None \<Rightarrow> parse_iphdr u c nh (data_end_ptr c) ip = Inr (-1, nh, ip)
    | Some (pr, off') \<Rightarrow> \<exists>p. points c off' p \<and>
        parse_iphdr u c nh (data_end_ptr c) ip = Inr (int pr, nh\<lparr>pos := p\<rparr>, pos nh)"
proof (cases "length (pkt c) < off + sizeof_iphdr u")
  case True
  then show ?thesis
    using bounds_check [OF assms(1,3), of "sizeof_iphdr u"] assms(2)
    by (simp add: ip_spec_def parse_iphdr_def net_uapi_ok_def)
next
  case False
  define n where "n = nibble (ip_ihl_shift u) (pkt c ! (off + ip_ihl u)) * 4"
  have n: "n \<le> 60" using nibble_le [of "ip_ihl_shift u"] by (simp add: n_def)
  have ld: "load8 c (pos nh + of_nat (ip_ihl u)) = Inr (pkt c ! (off + ip_ihl u))"
    "load8 c (pos nh + of_nat (ip_protocol u)) = Inr (pkt c ! (off + ip_protocol u))"
    using header_reads [OF assms(1,3), of "sizeof_iphdr u" "ip_ihl u"]
      header_reads [OF assms(1,3), of "sizeof_iphdr u" "ip_protocol u"] assms(2) False
    by (simp_all add: net_uapi_ok_def)
  have "points c (off + n) (pos nh + of_nat n)" if "off + n \<le> length (pkt c)"
    using points_add [OF assms(1,3), of n] n that by simp
  with False n ld bounds_check [OF assms(1,3), of "sizeof_iphdr u"]
    bounds_check [OF assms(1,3), of n] assms(2) show ?thesis
    by (auto simp: ip_spec_def parse_iphdr_def net_uapi_ok_def Let_def simp flip: n_def
        intro!: exI [of _ "pos nh + of_nat n"])
qed

lemma parse_ip6hdr_spec:
  assumes "ctx_ok c" and "net_uapi_ok u" and "points c off (pos nh)"
  shows "case ip6_spec u (pkt c) off of
      None \<Rightarrow> parse_ip6hdr u c nh (data_end_ptr c) ip6 = Inr (-1, nh, ip6)
    | Some (pr, off') \<Rightarrow> \<exists>p. points c off' p \<and>
        parse_ip6hdr u c nh (data_end_ptr c) ip6 = Inr (int pr, nh\<lparr>pos := p\<rparr>, pos nh)"
  using bounds_check [OF assms(1,3), of "sizeof_ipv6hdr u"] assms(2)
    header_reads [OF assms(1,3), of "sizeof_ipv6hdr u" "ip6_nexthdr u"]
    points_add [OF assms(1,3), of "sizeof_ipv6hdr u"]
  by (cases "length (pkt c) < off + sizeof_ipv6hdr u")
    (auto simp: ip6_spec_def parse_ip6hdr_def net_uapi_ok_def Let_def
      intro!: exI [of _ "pos nh + of_nat (sizeof_ipv6hdr u)"])

lemma parse_tcphdr_spec:
  assumes "ctx_ok c" and "net_uapi_ok u" and "points c off (pos nh)"
  shows "case tcp_spec u (pkt c) off of
      None \<Rightarrow> parse_tcphdr u c nh (data_end_ptr c) tcp = Inr (-1, nh, tcp)
    | Some n \<Rightarrow> \<exists>p. points c (off + n) p \<and>
        parse_tcphdr u c nh (data_end_ptr c) tcp = Inr (int n, nh\<lparr>pos := p\<rparr>, pos nh)"
proof (cases "length (pkt c) < off + sizeof_tcphdr u")
  case True
  then show ?thesis
    using bounds_check [OF assms(1,3), of "sizeof_tcphdr u"] assms(2)
    by (simp add: tcp_spec_def parse_tcphdr_def net_uapi_ok_def)
next
  case False
  define n where "n = nibble (tcp_doff_shift u) (pkt c ! (off + tcp_doff u)) * 4"
  have n: "n \<le> 60" using nibble_le [of "tcp_doff_shift u"] by (simp add: n_def)
  have ld: "load8 c (pos nh + of_nat (tcp_doff u)) = Inr (pkt c ! (off + tcp_doff u))"
    using header_reads [OF assms(1,3), of "sizeof_tcphdr u" "tcp_doff u"] assms(2) False
    by (simp add: net_uapi_ok_def)
  have "points c (off + n) (pos nh + of_nat n)" if "off + n \<le> length (pkt c)"
    using points_add [OF assms(1,3), of n] n that by simp
  with False n ld bounds_check [OF assms(1,3), of "sizeof_tcphdr u"]
    bounds_check [OF assms(1,3), of n] assms(2) show ?thesis
    by (auto simp: tcp_spec_def parse_tcphdr_def net_uapi_ok_def Let_def simp flip: n_def
        intro!: exI [of _ "pos nh + of_nat n"])
qed

text \<open>
  The conversion of the wrapped \<open>size_t\<close> difference to \<open>int\<close> gives the signed difference.
\<close>

lemma sint_ucast_diff:
  assumes "n \<le> 4096"
  shows "sint (ucast ((ucast (w :: u16) :: u64) - of_nat n) :: u32) = int (unat w) - int n"
proof -
  have n: "uint (of_nat n :: u64) = int n"
    using assms by (simp add: unsigned_of_nat take_bit_nat_eq_self)
  have w: "uint w < 65536" using unsigned_less [of w, where ?'a = int] by simp
  then have m: "uint w mod 18446744073709551616 = uint w" by simp
  have u: "uint (ucast ((ucast w :: u64) - of_nat n) :: u32) = (int (unat w) - int n) mod 4294967296"
    by (simp add: unsigned_ucast_eq uint_word_ariths take_bit_eq_mod mod_mod_cancel n m)
  have "0 \<le> uint w" by simp
  then have d: "(uint w - int n + 2147483648) mod 4294967296 = uint w - int n + 2147483648"
    using w assms by (intro mod_pos_pos_trivial) linarith+
  have "sint (ucast ((ucast w :: u64) - of_nat n) :: u32) =
      signed_take_bit 31 ((int (unat w) - int n) mod 4294967296)"
    by (simp add: sint_uint u)
  also have "\<dots> = int (unat w) - int n"
    by (simp add: signed_take_bit_eq_take_bit_shift take_bit_eq_mod mod_simps d)
  finally show ?thesis .
qed

text \<open>
  \<open>parse_udphdr\<close>: a length below the header's own size is reported as \<open>-1\<close>, but only after
  the cursor has moved past the header and the header pointer has been stored.
\<close>

lemma parse_udphdr_spec:
  assumes "ctx_ok c" and "net_uapi_ok u" and "points c off (pos nh)"
  shows "parse_udphdr u bo c nh (data_end_ptr c) udp =
    (if length (pkt c) < off + sizeof_udphdr u then Inr (-1, nh, udp)
     else let n = int (unat (be16 (pkt c ! (off + udp_len u)) (pkt c ! (off + udp_len u + 1)))) -
                  int (sizeof_udphdr u)
          in Inr (if n < 0 then -1 else n, nh\<lparr>pos := pos nh + of_nat (sizeof_udphdr u)\<rparr>, pos nh))"
proof (cases "length (pkt c) < off + sizeof_udphdr u")
  case True
  then show ?thesis
    using bounds_check [OF assms(1,3), of "sizeof_udphdr u"] assms(2)
    by (simp add: parse_udphdr_def net_uapi_ok_def)
next
  case False
  have "load16 bo c (pos nh + of_nat (udp_len u)) =
      Inr (u16_of_bytes bo (pkt c ! (off + udp_len u)) (pkt c ! (off + udp_len u + 1)))"
    using load16_points [OF assms(1,3), of "udp_len u" bo] assms(2) False
    by (simp add: net_uapi_ok_def)
  with False bounds_check [OF assms(1,3), of "sizeof_udphdr u"] assms(2) show ?thesis
    by (simp add: parse_udphdr_def net_uapi_ok_def Let_def sint_ucast_diff del: of_nat_diff)
qed

section \<open>Classification of a frame\<close>

text \<open>
  What the parsers together find in a frame that starts at the first byte of the packet: a header
  that is too short or inconsistent where the programs report it, something that is not TCP over
  IPv4 or IPv6, or a TCP header at some offset. An IP header that does not parse counts as
  \<open>Not_Tcp\<close>: the programs only compare the parser's \<open>-1\<close> with \<open>IPPROTO_TCP\<close>.
\<close>

datatype frame_class = Malformed | Not_Tcp | Tcp nat

definition l4_class :: "net_uapi \<Rightarrow> u8 list \<Rightarrow> (nat \<times> nat) option \<Rightarrow> frame_class" where
  "l4_class u bs net =
     (case net of
        None \<Rightarrow> Not_Tcp
      | Some (proto, off) \<Rightarrow>
          if proto = IPPROTO_TCP u
          then (case tcp_spec u bs off of None \<Rightarrow> Malformed | Some n \<Rightarrow> Tcp off)
          else Not_Tcp)"

definition classify :: "net_uapi \<Rightarrow> u8 list \<Rightarrow> frame_class" where
  "classify u bs =
     (case eth_spec u bs 0 of
        None \<Rightarrow> Malformed
      | Some (pr, off) \<Rightarrow>
          if pr = ETH_P_IP u then l4_class u bs (ip_spec u bs off)
          else if pr = ETH_P_IPV6 u then l4_class u bs (ip6_spec u bs off)
          else Not_Tcp)"

text \<open>The destination port of the TCP header at an offset, in host order.\<close>

definition dest_port :: "net_uapi \<Rightarrow> u8 list \<Rightarrow> nat \<Rightarrow> u16" where
  "dest_port u bs off = be16 (bs ! (off + tcp_dest u)) (bs ! (off + tcp_dest u + 1))"

lemma ip_spec_bounds:
  "ip_spec u bs off = Some (pr, off') \<Longrightarrow> off + sizeof_iphdr u \<le> off' \<and> off' \<le> off + 60 \<and> off' \<le> length bs"
  using nibble_le [of "ip_ihl_shift u" "bs ! (off + ip_ihl u)"]
  by (auto simp: ip_spec_def Let_def split: if_splits)

lemma ip6_spec_bounds: "ip6_spec u bs off = Some (pr, off') \<Longrightarrow> off' = off + sizeof_ipv6hdr u \<and> off' \<le> length bs"
  by (auto simp: ip6_spec_def split: if_splits)

lemma tcp_spec_bounds:
  "tcp_spec u bs off = Some n \<Longrightarrow> sizeof_tcphdr u \<le> n \<and> n \<le> 60 \<and> off + n \<le> length bs"
  using nibble_le [of "tcp_doff_shift u" "bs ! (off + tcp_doff u)"]
  by (auto simp: tcp_spec_def Let_def split: if_splits)

lemma classify_Tcp_bound: "classify u bs = Tcp off \<Longrightarrow> off + sizeof_tcphdr u \<le> length bs"
  by (auto simp: classify_def l4_class_def split: option.splits if_splits prod.splits
      dest!: tcp_spec_bounds)

lemma uint_htons_eq [simp]:
  "uint (bpf_htons bo cp x) = uint (bpf_htons bo cp' y) \<longleftrightarrow> x = y"
  by (simp only: word_uint_eq_iff [symmetric] net16.hton_inject)

text \<open>
  Both programs run the parsers in the same stages and differ only in what they return. The stages
  read nothing outside the packet and follow the classification. First the transport stage, given
  the outcome of an IP parser.
\<close>

lemma transport_stage:
  fixes abort pass :: "fault + 'r" and final :: "ptr \<Rightarrow> fault + 'r"
  assumes "ctx_ok c" and "net_uapi_ok u"
    and "case net of None \<Rightarrow> m = Inr (-1, nh, x)
         | Some (pr, off') \<Rightarrow> \<exists>p. points c off' p \<and> m = Inr (int pr, nh\<lparr>pos := p\<rparr>, y)"
  shows "\<exists>p. (\<forall>off. l4_class u (pkt c) net = Tcp off \<longrightarrow> points c off p) \<and>
    rbind m (\<lambda>(ip_type, nh, ip).
        if ip_type \<noteq> int (IPPROTO_TCP u) then pass
        else rbind (parse_tcphdr u c nh (data_end_ptr c) tcp) (\<lambda>(r, nh, tcp).
          if r < 0 then abort else final tcp)) =
    (case l4_class u (pkt c) net of Malformed \<Rightarrow> abort | Not_Tcp \<Rightarrow> pass | Tcp off \<Rightarrow> final p)"
proof (cases net)
  case None
  with assms(3) show ?thesis by (simp add: l4_class_def)
next
  case (Some po)
  obtain proto off where po: "po = (proto, off)" by (cases po)
  with Some assms(3) obtain p where
    p: "points c off (pos (nh\<lparr>pos := p\<rparr>))" and m: "m = Inr (int proto, nh\<lparr>pos := p\<rparr>, y)"
    by auto
  from parse_tcphdr_spec [OF assms(1,2) p, of tcp] p Some po m show ?thesis
    by (auto simp: l4_class_def split: option.splits)
qed

lemma frame_stages:
  fixes abort pass :: "fault + 'r" and final :: "ptr \<Rightarrow> fault + 'r"
  assumes "ctx_ok c" and "net_uapi_ok u"
  shows "\<exists>p. (\<forall>off. classify u (pkt c) = Tcp off \<longrightarrow> points c off p) \<and>
    rbind (parse_ethhdr u bo c \<lparr>pos = data_ptr c\<rparr> (data_end_ptr c) (data_ptr c))
      (\<lambda>(eth_type, nh, eth).
        if eth_type < 0 then abort
        else if eth_type = int (unat (bpf_htons bo True (ETH_P_IP u))) then
          rbind (parse_iphdr u c nh (data_end_ptr c) ip) (\<lambda>(ip_type, nh, ip).
            if ip_type \<noteq> int (IPPROTO_TCP u) then pass
            else rbind (parse_tcphdr u c nh (data_end_ptr c) tcp) (\<lambda>(r, nh, tcp).
              if r < 0 then abort else final tcp))
        else if eth_type = int (unat (bpf_htons bo True (ETH_P_IPV6 u))) then
          rbind (parse_ip6hdr u c nh (data_end_ptr c) ipv6) (\<lambda>(ip_type, nh, ipv6).
            if ip_type \<noteq> int (IPPROTO_TCP u) then pass
            else rbind (parse_tcphdr u c nh (data_end_ptr c) tcp) (\<lambda>(r, nh, tcp).
              if r < 0 then abort else final tcp))
        else pass) =
    (case classify u (pkt c) of Malformed \<Rightarrow> abort | Not_Tcp \<Rightarrow> pass | Tcp off \<Rightarrow> final p)"
proof (cases "eth_spec u (pkt c) 0")
  case None
  with parse_ethhdr_spec [OF assms, of 0 "\<lparr>pos = data_ptr c\<rparr>" bo "data_ptr c"] show ?thesis
    by (simp add: classify_def)
next
  case (Some po)
  obtain pr off where po: "po = (pr, off)" by (cases po)
  with Some parse_ethhdr_spec [OF assms, of 0 "\<lparr>pos = data_ptr c\<rparr>" bo "data_ptr c"] obtain p where
    p: "points c off (pos \<lparr>pos = p\<rparr>)" and
    e: "parse_ethhdr u bo c \<lparr>pos = data_ptr c\<rparr> (data_end_ptr c) (data_ptr c) =
        Inr (int (unat (bpf_htons bo True pr)), \<lparr>pos = p\<rparr>, data_ptr c)"
    by auto
  note stage = transport_stage [where tcp = tcp and pass = pass and abort = abort and final = final,
      OF assms]
  note v4 = stage [OF parse_iphdr_spec [OF assms p, of ip]]
  note v6 = stage [OF parse_ip6hdr_spec [OF assms p, of ipv6]]
  consider "pr = ETH_P_IP u" | "pr \<noteq> ETH_P_IP u" "pr = ETH_P_IPV6 u"
    | "pr \<noteq> ETH_P_IP u" "pr \<noteq> ETH_P_IPV6 u" by blast
  then show ?thesis
  proof cases
    case 1
    with v4 Some po e show ?thesis by (simp add: classify_def)
  next
    case 2
    with v6 Some po e show ?thesis by (simp add: classify_def)
  next
    case 3
    with Some po e show ?thesis by (simp add: classify_def)
  qed
qed

section \<open>Frames the parsers give up on\<close>

text \<open>The protocol numbers of the two IP versions and of the two kinds of tag are all different.\<close>

definition net_uapi_distinct :: "net_uapi \<Rightarrow> bool" where
  "net_uapi_distinct u \<longleftrightarrow> distinct [ETH_P_IP u, ETH_P_IPV6 u, ETH_P_8021Q u, ETH_P_8021AD u]"

lemma linux_net_uapi_distinct: "net_uapi_distinct linux_net_uapi"
  by (simp add: net_uapi_distinct_def linux_net_uapi_def)

text \<open>A frame with a tag where the innermost protocol should be is not looked into any further.\<close>

lemma skip_vlans_still_tagged:
  assumes "is_vlan u pr" and "off + 4 * d \<le> length bs"
    and "\<And>i. i < d \<Longrightarrow> is_vlan u (be16 (bs ! (off + 4 * i + 2)) (bs ! (off + 4 * i + 3)))"
  shows "is_vlan u (fst (skip_vlans u bs d off pr))"
  using assms
proof (induction d arbitrary: off pr)
  case (Suc d)
  have "is_vlan u (be16 (bs ! (off + 2)) (bs ! (off + 3)))"
    using Suc.prems(3) [of 0] by simp
  moreover have "is_vlan u (be16 (bs ! (off + 4 + 4 * i + 2)) (bs ! (off + 4 + 4 * i + 3)))"
    if "i < d" for i
    using Suc.prems(3) [of "Suc i"] that by (simp add: algebra_simps)
  ultimately show ?case
    using Suc.IH [of "be16 (bs ! (off + 2)) (bs ! (off + 3))" "off + 4"] Suc.prems(1,2) by simp
qed simp

lemma classify_vlan:
  assumes "net_uapi_distinct u" and "eth_spec u bs 0 = Some (pr, off)" and "is_vlan u pr"
  shows "classify u bs = Not_Tcp"
  using assms by (auto simp: classify_def is_vlan_def net_uapi_distinct_def)

section \<open>Properties\<close>

text \<open>A small frame for the witnesses: Ethernet, one 802.1Q tag, IPv4 and TCP to port 7777.\<close>

definition demo_md :: "u32 \<Rightarrow> nat \<Rightarrow> xdp_md" where
  "demo_md q n = \<lparr>data = 4096, data_end = 4096 + of_nat n, data_meta = 4096, ingress_ifindex = 1,
     rx_queue_index = q, egress_ifindex = 0\<rparr>"

definition demo_eth :: "u8 list" where
  "demo_eth = [0, 0, 0, 0, 0, 0, 0, 0, 0, 0, 0, 0, 0x81, 0x00, 0x00, 0x05, 0x08, 0x00]"

definition demo_ip :: "u8 list" where
  "demo_ip = [0x45, 0, 0, 40, 0, 0, 0, 0, 64, 6, 0, 0, 10, 0, 0, 1, 10, 0, 0, 2]"

definition demo_tcp :: "u8 list" where
  "demo_tcp = [0, 110, 0x1E, 0x61, 0, 0, 0, 1, 0, 0, 0, 0, 0x50, 2, 0, 0, 0, 0, 0, 0]"

definition demo_frame :: "u8 list" where
  "demo_frame = demo_eth @ demo_ip @ demo_tcp"

definition demo_ctx :: "u32 \<Rightarrow> u8 list \<Rightarrow> xdp_ctx" where
  "demo_ctx q bs = \<lparr>md = demo_md q (length bs), pkt = bs\<rparr>"

lemmas demo_defs = demo_md_def demo_eth_def demo_ip_def demo_tcp_def demo_frame_def demo_ctx_def

lemma demo_ctx_ok: "ctx_ok (demo_ctx q demo_frame)"
  by (simp add: ctx_ok_def demo_defs)

lemma demo_ctx_points: "points (demo_ctx q demo_frame) 18 0x1012"
  by (simp add: points_def demo_defs)

text \<open>
  C35: \<open>parse_ethhdr_vlan\<close> on any packet, from a cursor inside it: no read leaves the packet; on
  success the cursor is still inside and has moved over the Ethernet header and at most two VLAN
  tags; the collected ids keep their number, and each new one has at most twelve bits.
\<close>

theorem parse_ethhdr_vlan_safe:
  assumes "ctx_ok c" and "net_uapi_ok u" and "points c off (pos nh)"
  shows "\<exists>r nh' eth' vs'. parse_ethhdr_vlan u bo c nh (data_end_ptr c) eth vs = Inr (r, nh', eth', vs') \<and>
    vlans_upd vs vs' \<and>
    (r = -1 \<and> nh' = nh \<and> eth' = eth \<or>
     0 \<le> r \<and> eth' = pos nh \<and> (\<exists>off'. points c off' (pos nh') \<and>
       off + sizeof_ethhdr u \<le> off' \<and> off' \<le> off + sizeof_ethhdr u + 4 * VLAN_MAX_DEPTH))"
proof (cases "length (pkt c) < off + sizeof_ethhdr u")
  case True
  then show ?thesis
    using bounds_check [OF assms(1,3), of "sizeof_ethhdr u"] assms(2)
    by (simp add: parse_ethhdr_vlan_def net_uapi_ok_def)
next
  case False
  let ?pr = "be16 (pkt c ! (off + eth_h_proto u)) (pkt c ! (off + eth_h_proto u + 1))"
  have ld: "load16 bo c (pos nh + of_nat (eth_h_proto u)) = Inr (bpf_htons bo True ?pr)"
    using load16_points [OF assms(1,3), of "eth_h_proto u" bo] assms(2) False
    by (simp add: net_uapi_ok_def flip: u16_of_bytes_htons)
  have pt: "points c (off + sizeof_ethhdr u) (pos nh + of_nat (sizeof_ethhdr u))"
    using points_add [OF assms(1,3), of "sizeof_ethhdr u"] assms(2) False
    by (simp add: net_uapi_ok_def)
  obtain pr' off' where
    sk: "skip_vlans u (pkt c) (VLAN_MAX_DEPTH - 0) (off + sizeof_ethhdr u) ?pr = (pr', off')"
    by (cases "skip_vlans u (pkt c) (VLAN_MAX_DEPTH - 0) (off + sizeof_ethhdr u) ?pr")
  from skip_vlans_bounds [OF points_le [OF pt] sk]
  have "off + sizeof_ethhdr u \<le> off' \<and> off' \<le> off + sizeof_ethhdr u + 4 * VLAN_MAX_DEPTH" by simp
  with parse_vlans_spec [OF assms(1) pt _ sk, of bo vs] False ld
    bounds_check [OF assms(1,3), of "sizeof_ethhdr u"] assms(2) show ?thesis
    by (fastforce simp: parse_ethhdr_vlan_def net_uapi_ok_def)
qed

theorem parse_ethhdr_vlan_safe_witness:
  "\<exists>r nh' eth' vs'. parse_ethhdr_vlan linux_net_uapi Little_Endian (demo_ctx 0 demo_frame)
      \<lparr>pos = data_ptr (demo_ctx 0 demo_frame)\<rparr> (data_end_ptr (demo_ctx 0 demo_frame)) 0
      (Some \<lparr>vlan_id = [0, 0]\<rparr>) = Inr (r, nh', eth', vs')"
  using parse_ethhdr_vlan_safe [OF demo_ctx_ok linux_net_uapi_ok, of 0 0 "\<lparr>pos = data_ptr (demo_ctx 0 demo_frame)\<rparr>"
      Little_Endian 0 "Some \<lparr>vlan_id = [0, 0]\<rparr>"] by auto

text \<open>
  C39: \<open>parse_iphdr\<close> on any packet, from a cursor inside it, never reads outside the packet. It
  returns \<open>-1\<close> and leaves cursor and header pointer alone, or returns the protocol byte and moves
  the cursor by four times the header length field, which is at least the fixed header, at most 60
  bytes and still inside the packet.
\<close>

theorem parse_iphdr_correct:
  assumes "ctx_ok c" and "net_uapi_ok u" and "points c off (pos nh)"
  shows "parse_iphdr u c nh (data_end_ptr c) ip = Inr (-1, nh, ip) \<and> ip_spec u (pkt c) off = None \<or>
    (\<exists>n nh'. parse_iphdr u c nh (data_end_ptr c) ip =
        Inr (int (unat (pkt c ! (off + ip_protocol u))), nh', pos nh) \<and>
      points c (off + n) (pos nh') \<and> n = 4 * nibble (ip_ihl_shift u) (pkt c ! (off + ip_ihl u)) \<and>
      sizeof_iphdr u \<le> n \<and> n \<le> 60)"
proof (cases "ip_spec u (pkt c) off")
  case None
  with parse_iphdr_spec [OF assms, of ip] show ?thesis by simp
next
  case (Some x)
  then obtain pr off' where x: "ip_spec u (pkt c) off = Some (pr, off')" by (cases x) auto
  then have "pr = unat (pkt c ! (off + ip_protocol u))"
    and "off' = off + 4 * nibble (ip_ihl_shift u) (pkt c ! (off + ip_ihl u))"
    by (auto simp: ip_spec_def Let_def split: if_splits)
  with ip_spec_bounds [OF x] x parse_iphdr_spec [OF assms, of ip] show ?thesis by fastforce
qed

theorem parse_iphdr_correct_witness:
  "\<exists>nh'. parse_iphdr linux_net_uapi (demo_ctx 0 demo_frame) \<lparr>pos = 0x1012\<rparr>
      (data_end_ptr (demo_ctx 0 demo_frame)) 0 = Inr (6, nh', 0x1012)"
  using parse_iphdr_correct [OF demo_ctx_ok linux_net_uapi_ok, of 0 18 "\<lparr>pos = 0x1012\<rparr>" 0]
    demo_ctx_points [of 0]
  by (auto simp: ip_spec_def linux_net_uapi_def demo_defs nibble_def)

text \<open>
  \<open>parse_tcphdr\<close> on any packet, from a cursor inside it, never reads outside the packet. It
  returns \<open>-1\<close> and changes nothing, or returns the header length given by the data offset field,
  between the fixed header and 60 bytes, and moves the cursor by exactly that much, inside the packet.
\<close>

lemma parse_tcphdr_correct:
  assumes "ctx_ok c" and "net_uapi_ok u" and "points c off (pos nh)"
  shows "parse_tcphdr u c nh (data_end_ptr c) tcp = Inr (-1, nh, tcp) \<and> tcp_spec u (pkt c) off = None \<or>
    (\<exists>n nh'. parse_tcphdr u c nh (data_end_ptr c) tcp = Inr (int n, nh', pos nh) \<and>
      points c (off + n) (pos nh') \<and> n = 4 * nibble (tcp_doff_shift u) (pkt c ! (off + tcp_doff u)) \<and>
      sizeof_tcphdr u \<le> n \<and> n \<le> 60)"
proof (cases "tcp_spec u (pkt c) off")
  case None
  with parse_tcphdr_spec [OF assms, of tcp] show ?thesis by simp
next
  case (Some n)
  then have "n = 4 * nibble (tcp_doff_shift u) (pkt c ! (off + tcp_doff u))"
    by (auto simp: tcp_spec_def Let_def split: if_splits)
  with tcp_spec_bounds [OF Some] Some parse_tcphdr_spec [OF assms, of tcp] show ?thesis by fastforce
qed

text \<open>
  \<open>parse_udphdr\<close> on any packet, from a cursor inside it: a packet too short for the header
  gives \<open>-1\<close> and changes nothing; otherwise the header pointer is stored and the cursor moves over
  the header whatever the length field says, and the result is the payload length, or \<open>-1\<close> where
  the length field is smaller than the header, although the code computes it in a type that wraps.
\<close>

lemma parse_udphdr_correct:
  assumes "ctx_ok c" and "net_uapi_ok u" and "points c off (pos nh)"
  shows "parse_udphdr u bo c nh (data_end_ptr c) udp =
    (if length (pkt c) < off + sizeof_udphdr u then Inr (-1, nh, udp)
     else let n = int (unat (be16 (pkt c ! (off + udp_len u)) (pkt c ! (off + udp_len u + 1)))) -
                  int (sizeof_udphdr u)
          in Inr (if n < 0 then -1 else n, nh\<lparr>pos := pos nh + of_nat (sizeof_udphdr u)\<rparr>, pos nh))"
  by (rule parse_udphdr_spec [OF assms])

end
