(* ===== verification/Bpf_Helpers.thy ===== *)
theory Bpf_Helpers
  imports C_Layout Bpf_Helper_Defs
begin

text \<open>
  \<^verbatim>\<open>include/bpf/bpf_helpers.h\<close>: the map definitions that the loader reads from the object
  file, its two enumerations, the macros \<open>container_of\<close> and \<open>bpf_printk\<close>, the latter over the
  helper \<open>bpf_trace_printk\<close>, and the macros for attributes and for members of map definitions.
\<close>

record bpf_map_def =
  map_type :: u32
  key_size :: u32
  value_size :: u32
  max_entries :: u32
  map_flags :: u32

text \<open>The C structure as the loader finds it in the object file.\<close>

definition bpf_map_def_struct :: ctype where
  "bpf_map_def_struct = CStruct
     [CField ''type'' c_u32, CField ''key_size'' c_u32, CField ''value_size'' c_u32,
      CField ''max_entries'' c_u32, CField ''map_flags'' c_u32]"

definition libbpf_pin_type :: "(string \<times> enum_init) list" where
  "libbpf_pin_type = [(''LIBBPF_PIN_NONE'', Next), (''LIBBPF_PIN_BY_NAME'', Next)]"

definition libbpf_tristate :: "(string \<times> enum_init) list" where
  "libbpf_tristate = [(''TRI_NO'', Val 0), (''TRI_YES'', Val 1), (''TRI_MODULE'', Val 2)]"

text \<open>
  \<open>bpf_printk (fmt, ...)\<close> copies the format into a local array and passes it with its size, which
  counts the terminating NUL. The helper is a parameter that acts on a state of its own.
\<close>

definition bpf_printk ::
  "('s \<Rightarrow> string \<Rightarrow> nat \<Rightarrow> int list \<Rightarrow> int \<times> 's) \<Rightarrow> 's \<Rightarrow> string \<Rightarrow> int list \<Rightarrow> int \<times> 's" where
  "bpf_printk trace_printk s fmt args = trace_printk s (fmt @ [CHR 0x00]) (length fmt + 1) args"

text \<open>
  \<open>container_of (ptr, type, member)\<close>, on 64-bit pointers; \<open>offsetof\<close> is the function of
  \<^verbatim>\<open>C_Layout\<close>. A member that does not exist does not compile.
\<close>

definition container_of :: "u64 \<Rightarrow> ctype \<Rightarrow> string \<Rightarrow> u64 option" where
  "container_of ptr t member = map_option (\<lambda>off. ptr - of_nat off) (offsetof t member)"

lemma container_of_member:
  "offsetof t x = Some off \<Longrightarrow> container_of (p + of_nat off) t x = Some p"
  by (simp add: container_of_def)

lemma bpf_map_def_layout:
  "sizeof bpf_map_def_struct = 20"
  "padding_bits bpf_map_def_struct = 0"
  by (simp_all add: bpf_map_def_struct_def align_up_def padding_bits_def)

section \<open>Attributes\<close>

text \<open>
  The macros that expand to \<open>__attribute__\<close>, as the attributes they attach. A declaration is placed in
  the section that its attributes name, or in a default one, and its symbol is global unless it is weak.
\<close>

datatype attribute = Section string | Used | Always_Inline | Weak

definition SEC :: "string \<Rightarrow> attribute list" where
  "SEC NAME = [Section NAME, Used]"

definition always_inline_attr :: "attribute list" where
  "always_inline_attr = [Always_Inline]"

definition weak_attr :: "attribute list" where
  "weak_attr = [Weak]"

definition kconfig_attr :: "attribute list" where
  "kconfig_attr = [Section ''.kconfig'']"

definition ksym_attr :: "attribute list" where
  "ksym_attr = [Section ''.ksyms'']"

fun section_of :: "string \<Rightarrow> attribute list \<Rightarrow> string" where
  "section_of dflt [] = dflt"
| "section_of dflt (Section x # as) = x"
| "section_of dflt (a # as) = section_of dflt as"

definition is_weak :: "attribute list \<Rightarrow> bool" where
  "is_weak as \<longleftrightarrow> Weak \<in> set as"

text \<open>Only \<open>SEC\<close> keeps an unreferenced symbol, and the sections of \<open>__kconfig\<close> and \<open>__ksym\<close> are fixed.\<close>

lemma attribute_macros:
  "section_of dflt (SEC x) = x" "Used \<in> set (SEC x)" "\<not> is_weak (SEC x)"
  "section_of dflt kconfig_attr = ''.kconfig''" "Used \<notin> set kconfig_attr"
  "section_of dflt ksym_attr = ''.ksyms''" "Used \<notin> set ksym_attr"
  "section_of dflt (always_inline_attr @ as) = section_of dflt as"
  "section_of dflt (weak_attr @ as) = section_of dflt as" "is_weak (weak_attr @ as)"
  by (simp_all add: SEC_def kconfig_attr_def ksym_attr_def always_inline_attr_def weak_attr_def is_weak_def)

section \<open>Members that carry values in their types\<close>

text \<open>
  The macros \<open>__uint\<close>, \<open>__type\<close> and \<open>__array\<close> declare members of a structure that describes a map. The
  loader never reads the members; it reads their types from the debug information. \<open>Base\<close> is any
  type that is no pointer or array here; the array of \<open>__array\<close> has no length.
\<close>

datatype btype = Base ctype | Ptr btype | Arr btype nat | Open_Arr btype

definition uint_member :: "string \<Rightarrow> nat \<Rightarrow> string \<times> btype" where
  "uint_member name val = (name, Ptr (Arr (Base (CInt 4)) val))"

definition type_member :: "string \<Rightarrow> btype \<Rightarrow> string \<times> btype" where
  "type_member name val = (name, Ptr val)"

definition array_member :: "string \<Rightarrow> btype \<Rightarrow> string \<times> btype" where
  "array_member name val = (name, Open_Arr (Ptr val))"

text \<open>The type as a member of a structure in memory; an array without length takes no room.\<close>

fun member_type :: "btype \<Rightarrow> ctype" where
  "member_type (Base t) = t"
| "member_type (Ptr t) = CPtr"
| "member_type (Arr t n) = CArr (member_type t) n"
| "member_type (Open_Arr t) = CArr (member_type t) 0"

text \<open>What the loader reads back from the type of a member.\<close>

fun read_uint :: "btype \<Rightarrow> nat option" where
  "read_uint (Ptr (Arr t n)) = Some n"
| "read_uint _ = None"

fun read_pointed :: "btype \<Rightarrow> btype option" where
  "read_pointed (Ptr t) = Some t"
| "read_pointed _ = None"

fun read_element :: "btype \<Rightarrow> btype option" where
  "read_element (Open_Arr t) = read_pointed t"
| "read_element _ = None"

text \<open>
  A structure of such members describes what the macros were given: each value can be read from the
  declared types. A member of the first two kinds takes eight bytes whatever its value is, one of the
  third kind none.
\<close>

lemma member_macros:
  "read_uint (snd (uint_member x n)) = Some n"
  "read_pointed (snd (type_member x t)) = Some t"
  "read_element (snd (array_member x t)) = Some t"
  "sizeof (member_type (snd (uint_member x n))) = 8"
  "sizeof (member_type (snd (type_member x t))) = 8"
  "sizeof (member_type (snd (array_member x t))) = 0"
  by (simp_all add: uint_member_def type_member_def array_member_def)

lemma member_macros_inj:
  "uint_member x m = uint_member y n \<longleftrightarrow> x = y \<and> m = n"
  "type_member x t = type_member y t' \<longleftrightarrow> x = y \<and> t = t'"
  "array_member x t = array_member y t' \<longleftrightarrow> x = y \<and> t = t'"
  by (auto simp: uint_member_def type_member_def array_member_def)

end
