(* ===== verification/Xdp_Sock_Prog.thy ===== *)
theory Xdp_Sock_Prog
  imports Packet_Parse Bpf_Helpers
begin

unbundle bit_operations_syntax

text \<open>
  The XDP program of \<^verbatim>\<open>dumpframes/src/ebpf/tcp_syn_kern.c\<close>: it redirects TCP segments for
  port 7777 to the AF_XDP socket of the receive queue, provided that user space has set the queue's
  entry in \<open>qidconf_map\<close>, and leaves every other packet to the network stack.
\<close>

section \<open>Maps\<close>

definition MAX_SOCKS :: u32 where
  "MAX_SOCKS = 64"

text \<open>The map types are \<open>BPF_MAP_TYPE_XSKMAP\<close> and \<open>BPF_MAP_TYPE_ARRAY\<close>.\<close>

definition xsks_map :: bpf_map_def where
  "xsks_map = \<lparr>map_type = 17, key_size = 4, value_size = 4, max_entries = MAX_SOCKS, map_flags = 0\<rparr>"

definition qidconf_map :: bpf_map_def where
  "qidconf_map = \<lparr>map_type = 2, key_size = 4, value_size = 4, max_entries = MAX_SOCKS, map_flags = 0\<rparr>"

section \<open>The program\<close>

text \<open>
  The helpers it calls, as parameters: the element of \<open>qidconf_map\<close> for a key
  (\<open>bpf_map_lookup_elem\<close>, \<open>None\<close> for NULL) and \<open>bpf_redirect_map\<close> on \<open>xsks_map\<close> with
  its key and flags.
\<close>

record sock_env =
  qidconf_lookup :: "u32 \<Rightarrow> u32 option"
  redirect_map :: "u32 \<Rightarrow> u64 \<Rightarrow> int"

definition TCP_PORT :: u16 where
  "TCP_PORT = 7777"

text \<open>
  Each \<open>goto out\<close> returns the action it has set. The header pointers \<open>ip\<close>, \<open>ipv6\<close> and
  \<open>tcp\<close> are uninitialised in the source; the parsers only write them.
\<close>

definition xdp_sock_prog ::
  "net_uapi \<Rightarrow> byte_order \<Rightarrow> sock_env \<Rightarrow> xdp_ctx \<Rightarrow> fault + u32" where
  "xdp_sock_prog u bo env ctx =
     (let index = rx_queue_index (md ctx) in
      case qidconf_lookup env index of
        None \<Rightarrow> Inr (xdp_code XDP_PASS)
      | Some qidconf \<Rightarrow>
          (let dta = data_ptr ctx; dend = data_end_ptr ctx; nh = \<lparr>pos = dta\<rparr> in
           rbind (parse_ethhdr u bo ctx nh dend dta) (\<lambda>(eth_type, nh, eth).
             if eth_type < 0 then Inr (xdp_code XDP_ABORTED)
             else if eth_type = int (unat (bpf_htons bo True (ETH_P_IP u))) then
               rbind (parse_iphdr u ctx nh dend 0) (\<lambda>(ip_type, nh, ip).
                 if ip_type \<noteq> int (IPPROTO_TCP u) then Inr (xdp_code XDP_PASS)
                 else rbind (parse_tcphdr u ctx nh dend 0) (\<lambda>(r, nh, tcp).
                   if r < 0 then Inr (xdp_code XDP_ABORTED)
                   else rbind (load16 bo ctx (tcp + of_nat (tcp_dest u))) (\<lambda>dest.
                     if bpf_ntohs bo False dest = TCP_PORT \<and> qidconf \<noteq> 0
                     then Inr (word_of_int (redirect_map env index 0))
                     else Inr (xdp_code XDP_PASS))))
             else if eth_type = int (unat (bpf_htons bo True (ETH_P_IPV6 u))) then
               rbind (parse_ip6hdr u ctx nh dend 0) (\<lambda>(ip_type, nh, ipv6).
                 if ip_type \<noteq> int (IPPROTO_TCP u) then Inr (xdp_code XDP_PASS)
                 else rbind (parse_tcphdr u ctx nh dend 0) (\<lambda>(r, nh, tcp).
                   if r < 0 then Inr (xdp_code XDP_ABORTED)
                   else rbind (load16 bo ctx (tcp + of_nat (tcp_dest u))) (\<lambda>dest.
                     if bpf_ntohs bo False dest = TCP_PORT \<and> qidconf \<noteq> 0
                     then Inr (word_of_int (redirect_map env index 0))
                     else Inr (xdp_code XDP_PASS))))
             else Inr (xdp_code XDP_PASS))))"

section \<open>What it computes\<close>

text \<open>The program as a function of the classification of the frame.\<close>

definition sock_spec :: "net_uapi \<Rightarrow> sock_env \<Rightarrow> u32 \<Rightarrow> u8 list \<Rightarrow> u32" where
  "sock_spec u env index bs =
     (case qidconf_lookup env index of
        None \<Rightarrow> xdp_code XDP_PASS
      | Some q \<Rightarrow>
          (case classify u bs of
             Malformed \<Rightarrow> xdp_code XDP_ABORTED
           | Not_Tcp \<Rightarrow> xdp_code XDP_PASS
           | Tcp off \<Rightarrow>
               if dest_port u bs off = TCP_PORT \<and> q \<noteq> 0
               then word_of_int (redirect_map env index 0)
               else xdp_code XDP_PASS))"

lemma load_tcp_dest:
  assumes "ctx_ok c" and "net_uapi_ok u" and "classify u (pkt c) = Tcp off" and "points c off p"
  shows "load16 bo c (p + of_nat (tcp_dest u)) =
    Inr (u16_of_bytes bo (pkt c ! (off + tcp_dest u)) (pkt c ! (off + tcp_dest u + 1)))"
  using load16_points [OF assms(1,4), of "tcp_dest u" bo] assms(2) classify_Tcp_bound [OF assms(3)]
  by (simp add: net_uapi_ok_def)

lemma xdp_sock_prog_eq:
  assumes "ctx_ok c" and "net_uapi_ok u"
  shows "xdp_sock_prog u bo env c = Inr (sock_spec u env (rx_queue_index (md c)) (pkt c))"
proof (cases "qidconf_lookup env (rx_queue_index (md c))")
  case None
  then show ?thesis by (simp add: xdp_sock_prog_def sock_spec_def)
next
  case (Some q)
  let ?final = "\<lambda>tcp. rbind (load16 bo c (tcp + of_nat (tcp_dest u))) (\<lambda>dest.
    if bpf_ntohs bo False dest = TCP_PORT \<and> q \<noteq> 0
    then Inr (word_of_int (redirect_map env (rx_queue_index (md c)) 0))
    else Inr (xdp_code XDP_PASS))"
  from frame_stages [OF assms, of bo "Inr (xdp_code XDP_ABORTED)" 0 "Inr (xdp_code XDP_PASS)" 0 ?final 0]
  obtain p where p: "\<And>off. classify u (pkt c) = Tcp off \<Longrightarrow> points c off p"
    and run: "xdp_sock_prog u bo env c =
      (case classify u (pkt c) of Malformed \<Rightarrow> Inr (xdp_code XDP_ABORTED)
       | Not_Tcp \<Rightarrow> Inr (xdp_code XDP_PASS) | Tcp off \<Rightarrow> ?final p)"
    using Some by (auto simp: xdp_sock_prog_def Let_def)
  show ?thesis
  proof (cases "classify u (pkt c)")
    case (Tcp off)
    with run p load_tcp_dest [OF assms Tcp, of p bo] Some show ?thesis
      by (simp add: sock_spec_def dest_port_def)
  qed (simp_all add: run sock_spec_def Some)
qed

section \<open>Properties\<close>

text \<open>What \<^verbatim>\<open>bpf_helper_defs.h\<close> promises of \<open>bpf_redirect_map\<close>.\<close>

definition redirect_ok :: "sock_env \<Rightarrow> bool" where
  "redirect_ok env \<longleftrightarrow>
     (\<forall>key flags. ret_ok (h_doc bpf_redirect_map_decl) flags (redirect_map env key flags))"

lemma redirect_ok_zero: "redirect_ok env \<Longrightarrow> redirect_map env key 0 \<in> {0, 4}"
  by (force simp: redirect_ok_def bpf_redirect_map_decl_def)

text \<open>An environment in which queue 0 is registered and queue 1 is not.\<close>

definition demo_env :: sock_env where
  "demo_env = \<lparr>qidconf_lookup = (\<lambda>i. if i = 0 then Some 1 else if i < MAX_SOCKS then Some 0 else None),
     redirect_map = (\<lambda>key flags. if key = 0 then 4 else uint (flags AND 3))\<rparr>"

lemma demo_env_ok: "redirect_ok demo_env"
  by (simp add: redirect_ok_def demo_env_def bpf_redirect_map_decl_def)

lemma demo_classify: "classify linux_net_uapi demo_frame = Tcp 38"
  by code_simp

lemma demo_port: "dest_port linux_net_uapi demo_frame 38 = TCP_PORT"
  by (simp add: dest_port_def linux_net_uapi_def demo_defs TCP_PORT_def u16_of_bytes_def word_cat_eq')

text \<open>
  C32: for every packet, every receive queue, either byte order and any behaviour of the helpers,
  \<open>xdp_sock_prog\<close> terminates without reading outside the packet and returns what the abstract
  classification of the frame's bytes prescribes: pass for a queue without entry, abort for a frame
  with a truncated or inconsistent Ethernet or TCP header, the result of the redirect for TCP to port
  7777 on a queue whose entry is set, and pass for all other frames.
\<close>

theorem xdp_sock_prog_refines:
  assumes "ctx_ok c" and "net_uapi_ok u"
  shows "xdp_sock_prog u bo env c = Inr (sock_spec u env (rx_queue_index (md c)) (pkt c))"
  using assms by (rule xdp_sock_prog_eq)

theorem xdp_sock_prog_refines_witness:
  "xdp_sock_prog linux_net_uapi Little_Endian demo_env (demo_ctx 0 demo_frame) = Inr (xdp_code XDP_REDIRECT)"
  using xdp_sock_prog_refines [OF demo_ctx_ok linux_net_uapi_ok, of Little_Endian demo_env 0]
  by (simp add: sock_spec_def demo_classify demo_port demo_env_def demo_ctx_def demo_md_def)

text \<open>
  With a redirect helper that keeps its documented promise, the program returns one of the three
  actions abort, pass and redirect. It returns redirect exactly when the queue's entry in
  \<open>qidconf_map\<close> is present and not zero, the frame is TCP over IPv4 or IPv6 with destination port
  7777, and the helper finds a socket; nothing else ever reaches the user space program.
\<close>

lemma xdp_sock_prog_redirect_iff:
  assumes "ctx_ok c" and "net_uapi_ok u" and "redirect_ok env"
  shows "\<exists>a \<in> {XDP_ABORTED, XDP_PASS, XDP_REDIRECT}. xdp_sock_prog u bo env c = Inr (xdp_code a) \<and>
    (a = XDP_REDIRECT \<longleftrightarrow>
       (\<exists>q off. qidconf_lookup env (rx_queue_index (md c)) = Some q \<and> q \<noteq> 0 \<and>
         classify u (pkt c) = Tcp off \<and> dest_port u (pkt c) off = TCP_PORT \<and>
         redirect_map env (rx_queue_index (md c)) 0 = 4))"
  using redirect_ok_zero [OF assms(3), of "rx_queue_index (md c)"]
  by (auto simp: xdp_sock_prog_eq [OF assms(1,2)] sock_spec_def split: option.splits frame_class.splits)

text \<open>
  The unrolled loop bounds the VLAN depth: a frame with three or more tags, that is, one whose
  protocol field and whose first two tags all announce a further tag, is passed to the network
  stack, whatever it carries.
\<close>

lemma xdp_sock_prog_three_vlan_tags:
  assumes "ctx_ok c" and "net_uapi_ok u" and "net_uapi_distinct u"
    and "qidconf_lookup env (rx_queue_index (md c)) = Some q"
    and "sizeof_ethhdr u + 8 \<le> length (pkt c)"
    and "is_vlan u (be16 (pkt c ! eth_h_proto u) (pkt c ! (eth_h_proto u + 1)))"
    and "is_vlan u (be16 (pkt c ! (sizeof_ethhdr u + 2)) (pkt c ! (sizeof_ethhdr u + 3)))"
    and "is_vlan u (be16 (pkt c ! (sizeof_ethhdr u + 6)) (pkt c ! (sizeof_ethhdr u + 7)))"
  shows "xdp_sock_prog u bo env c = Inr (xdp_code XDP_PASS)"
proof -
  let ?r = "skip_vlans u (pkt c) 2 (sizeof_ethhdr u) (be16 (pkt c ! eth_h_proto u) (pkt c ! (eth_h_proto u + 1)))"
  have "is_vlan u (be16 (pkt c ! (sizeof_ethhdr u + 4 * i + 2)) (pkt c ! (sizeof_ethhdr u + 4 * i + 3)))"
    if "i < 2" for i
  proof -
    from that have "i = 0 \<or> i = 1" by auto
    then show ?thesis using assms(7,8) by (auto simp: add.commute)
  qed
  then have "is_vlan u (fst ?r)"
    using skip_vlans_still_tagged [OF assms(6), of "sizeof_ethhdr u" 2] assms(5) by simp
  then have "classify u (pkt c) = Not_Tcp"
    using classify_vlan [OF assms(3), of "pkt c" "fst ?r" "snd ?r"] assms(5)
    by (simp add: eth_spec_def VLAN_MAX_DEPTH_def)
  with assms(4) show ?thesis by (simp add: xdp_sock_prog_eq [OF assms(1,2)] sock_spec_def)
qed

definition demo_tagged :: "u8 list" where
  "demo_tagged = [0, 0, 0, 0, 0, 0, 0, 0, 0, 0, 0, 0, 0x88, 0xA8, 0, 1, 0x81, 0, 0, 2, 0x81, 0, 0, 3, 8, 0]"

end
