(* ===== verification/Go_Runtime.thy ===== *)
theory Go_Runtime
  imports Defrizer_Prelude
begin

text \<open>
  What the Go sources use of the language: the run-time panics, reads through pointers that may be
  nil, bounds-checked indexing and slicing, unsigned division, and the conversions between the
  64-bit \<open>int\<close> (modelled as \<open>int\<close>, with \<open>to_int\<close> where it may overflow) and the unsigned types.
\<close>

datatype go_panic = Nil_Dereference | Index_Out_Of_Range | Slice_Out_Of_Range | Divide_By_Zero
  | Make_Out_Of_Range | Panic_Errno nat

definition deref :: "'a option \<Rightarrow> go_panic + 'a" where
  "deref p = (case p of None \<Rightarrow> Inl Nil_Dereference | Some v \<Rightarrow> Inr v)"

definition go_index :: "'a list \<Rightarrow> nat \<Rightarrow> go_panic + 'a" where
  "go_index xs i = (if i < length xs then Inr (xs ! i) else Inl Index_Out_Of_Range)"

definition go_store :: "'a list \<Rightarrow> nat \<Rightarrow> 'a \<Rightarrow> go_panic + 'a list" where
  "go_store xs i v = (if i < length xs then Inr (xs[i := v]) else Inl Index_Out_Of_Range)"

definition go_div :: "u64 \<Rightarrow> u64 \<Rightarrow> go_panic + u64" where
  "go_div a b = (if b = 0 then Inl Divide_By_Zero else Inr (a div b))"

text \<open>\<open>xs[lo:hi]\<close> for a slice whose capacity is its length.\<close>

definition go_slice :: "'a list \<Rightarrow> nat \<Rightarrow> nat \<Rightarrow> go_panic + 'a list" where
  "go_slice xs lo hi =
     (if lo \<le> hi \<and> hi \<le> length xs then Inr (take (hi - lo) (drop lo xs)) else Inl Slice_Out_Of_Range)"

definition to_u32 :: "int \<Rightarrow> u32" where
  "to_u32 n = word_of_int n"

definition to_u64 :: "int \<Rightarrow> u64" where
  "to_u64 n = word_of_int n"

text \<open>The result of an operation on \<open>int\<close>, which wraps around at 64 bits.\<close>

definition to_int :: "int \<Rightarrow> int" where
  "to_int n = sint (word_of_int n :: u64)"

lemma to_int_small: "- (2 ^ 63) \<le> n \<Longrightarrow> n < 2 ^ 63 \<Longrightarrow> to_int n = n"
  by (simp add: to_int_def signed_of_int signed_take_bit_int_eq_self)

text \<open>\<open>make\<close> with sizes that are known at run time only panics for a negative one.\<close>

definition go_make :: "int list \<Rightarrow> go_panic + unit" where
  "go_make sizes = (if list_all (\<lambda>n. 0 \<le> n) sizes then Inr () else Inl Make_Out_Of_Range)"

lemma deref_simps [simp]: "deref None = Inl Nil_Dereference" "deref (Some v) = Inr v"
  by (simp_all add: deref_def)

lemma go_index_in [simp]: "i < length xs \<Longrightarrow> go_index xs i = Inr (xs ! i)"
  by (simp add: go_index_def)

lemma go_store_in [simp]: "i < length xs \<Longrightarrow> go_store xs i v = Inr (xs[i := v])"
  by (simp add: go_store_def)

lemma go_div_nonzero [simp]: "b \<noteq> 0 \<Longrightarrow> go_div a b = Inr (a div b)"
  by (simp add: go_div_def)

lemma unat_to_u32: "0 \<le> n \<Longrightarrow> n < 2 ^ 32 \<Longrightarrow> unat (to_u32 n) = nat n"
  by (simp add: to_u32_def unsigned_of_int take_bit_int_eq_self)

lemma unat_to_u64: "0 \<le> n \<Longrightarrow> n < 2 ^ 64 \<Longrightarrow> unat (to_u64 n) = nat n"
  by (simp add: to_u64_def unsigned_of_int take_bit_int_eq_self)

lemma uint_to_u32: "0 \<le> n \<Longrightarrow> n < 2 ^ 32 \<Longrightarrow> uint (to_u32 n) = n"
  by (simp add: to_u32_def unsigned_of_int take_bit_int_eq_self)

end
