(* ===== verification/Default_Prog.thy ===== *)
theory Default_Prog
  imports Xdp_Sock_Prog Go_Runtime
begin

text \<open>
  \<open>NewProgram\<close> of \<^verbatim>\<open>dumpframes/program.go\<close>: it creates the two maps and loads an XDP program that
  is given as a list of eBPF instructions. The instructions are run here by an interpreter for the
  part of the eBPF instruction set that they use, with pointers kept apart from numbers as the
  kernel's verifier demands, and shown to compute what the list was translated from.
\<close>

section \<open>Instructions\<close>

text \<open>The members of \<open>asm.Instruction\<close> that the source sets.\<close>

record instr =
  OpCode :: nat
  Dst :: nat
  Src :: nat
  Offset :: int
  Constant :: int

definition ins :: "nat \<Rightarrow> nat \<Rightarrow> nat \<Rightarrow> int \<Rightarrow> int \<Rightarrow> instr" where
  "ins op d s off k = \<lparr>OpCode = op, Dst = d, Src = s, Offset = off, Constant = k\<rparr>"

text \<open>The instructions of \<open>NewProgram\<close>, for the file descriptors of the two maps.\<close>

definition xsk_ebpf :: "int \<Rightarrow> int \<Rightarrow> instr list" where
  "xsk_ebpf qidconf_fd xsks_fd =
     [ins 97 1 1 16 0,
      ins 99 10 1 (-4) 0,
      ins 191 2 10 0 0,
      ins 7 2 0 0 (-4),
      ins 24 1 1 0 qidconf_fd,
      ins 133 0 0 0 1,
      ins 191 1 0 0 0,
      ins 180 0 0 0 0,
      ins 21 1 0 8 0,
      ins 180 0 0 0 2,
      ins 97 1 1 0 0,
      ins 21 1 0 5 0,
      ins 24 1 1 0 xsks_fd,
      ins 97 2 10 (-4) 0,
      ins 180 3 0 0 0,
      ins 133 0 0 0 51,
      ins 149 0 0 0 0]"

section \<open>Interpreter\<close>

text \<open>
  Register contents: numbers, the context pointer, a pointer relative to the frame pointer, a map,
  a pointer to a map element (with the value it points to), or nothing readable.
\<close>

datatype bpf_val = Scalar u64 | Ctx | Stack int | Map_Fd int | Elem u32 | Uninit

datatype bpf_fault = Bad_Pc | Bad_Access | Bad_Opcode | Bad_Call | Bad_Exit

record bpf_state =
  pc :: nat
  regs :: "nat \<Rightarrow> bpf_val"
  stack :: "int \<Rightarrow> u32 option"

text \<open>A load-immediate of 64 bits (opcode 24) takes two slots; jumps count slots.\<close>

definition slots :: "instr list \<Rightarrow> instr option list" where
  "slots p = concat (map (\<lambda>i. if OpCode i = 24 then [Some i, None] else [Some i]) p)"

text \<open>A 32-bit load from the context: the members of \<open>xdp_md\<close> by their offset.\<close>

definition ctx_load :: "xdp_md \<Rightarrow> int \<Rightarrow> bpf_fault + u32" where
  "ctx_load cx off =
     (case map_of [(0, data cx), (4, data_end cx), (8, data_meta cx), (12, ingress_ifindex cx),
                   (16, rx_queue_index cx), (20, egress_ifindex cx)] off of
        None \<Rightarrow> Inl Bad_Access | Some w \<Rightarrow> Inr w)"

definition mem_load :: "xdp_md \<Rightarrow> bpf_state \<Rightarrow> bpf_val \<Rightarrow> int \<Rightarrow> bpf_fault + u32" where
  "mem_load cx st p off =
     (case p of
        Ctx \<Rightarrow> ctx_load cx off
      | Stack s \<Rightarrow> (case stack st (s + off) of None \<Rightarrow> Inl Bad_Access | Some w \<Rightarrow> Inr w)
      | Elem w \<Rightarrow> if off = 0 then Inr w else Inl Bad_Access
      | _ \<Rightarrow> Inl Bad_Access)"

text \<open>
  The two helpers by their numbers: the lookup takes the map and a pointer to the key on the stack,
  the redirect takes the map, the key and the flags. A call makes the argument registers unreadable.
\<close>

definition bpf_call :: "int \<Rightarrow> int \<Rightarrow> sock_env \<Rightarrow> bpf_state \<Rightarrow> int \<Rightarrow> bpf_fault + bpf_val" where
  "bpf_call qidconf_fd xsks_fd env st k =
     (if k = int (h_id bpf_map_lookup_elem_decl) then
        (case (regs st 1, regs st 2) of
           (Map_Fd f, Stack s) \<Rightarrow>
             (case stack st s of
                Some key \<Rightarrow>
                  if f = qidconf_fd then
                    Inr (case qidconf_lookup env key of None \<Rightarrow> Scalar 0 | Some v \<Rightarrow> Elem v)
                  else Inl Bad_Call
              | None \<Rightarrow> Inl Bad_Call)
         | _ \<Rightarrow> Inl Bad_Call)
      else if k = int (h_id bpf_redirect_map_decl) then
        (case (regs st 1, regs st 2, regs st 3) of
           (Map_Fd f, Scalar key, Scalar flags) \<Rightarrow>
             if f = xsks_fd then Inr (Scalar (word_of_int (redirect_map env (ucast key) flags))) else Inl Bad_Call
         | _ \<Rightarrow> Inl Bad_Call)
      else Inl Bad_Call)"

definition clobber :: "(nat \<Rightarrow> bpf_val) \<Rightarrow> bpf_val \<Rightarrow> nat \<Rightarrow> bpf_val" where
  "clobber r v = (\<lambda>i. if i = 0 then v else if i \<le> 5 then Uninit else r i)"

text \<open>One instruction: a fault, the result of the program, or the next state.\<close>

definition bpf_step ::
  "int \<Rightarrow> int \<Rightarrow> sock_env \<Rightarrow> xdp_md \<Rightarrow> instr \<Rightarrow> bpf_state \<Rightarrow> bpf_fault + (u32 + bpf_state)" where
  "bpf_step qfd xfd env cx i st =
     (if OpCode i = 97 then
        rbind (mem_load cx st (regs st (Src i)) (Offset i)) (\<lambda>w.
          Inr (Inr (st\<lparr>pc := pc st + 1, regs := (regs st)(Dst i := Scalar (ucast w))\<rparr>)))
      else if OpCode i = 99 then
        (case (regs st (Dst i), regs st (Src i)) of
           (Stack s, Scalar v) \<Rightarrow>
             Inr (Inr (st\<lparr>pc := pc st + 1, stack := (stack st)(s + Offset i := Some (ucast v))\<rparr>))
         | _ \<Rightarrow> Inl Bad_Access)
      else if OpCode i = 191 then
        Inr (Inr (st\<lparr>pc := pc st + 1, regs := (regs st)(Dst i := regs st (Src i))\<rparr>))
      else if OpCode i = 7 then
        (case regs st (Dst i) of
           Stack s \<Rightarrow> Inr (Inr (st\<lparr>pc := pc st + 1, regs := (regs st)(Dst i := Stack (s + Constant i))\<rparr>))
         | Scalar v \<Rightarrow>
             Inr (Inr (st\<lparr>pc := pc st + 1, regs := (regs st)(Dst i := Scalar (v + word_of_int (Constant i)))\<rparr>))
         | _ \<Rightarrow> Inl Bad_Access)
      else if OpCode i = 24 then
        Inr (Inr (st\<lparr>pc := pc st + 2,
          regs := (regs st)(Dst i := if Src i = 1 then Map_Fd (Constant i) else Scalar (word_of_int (Constant i)))\<rparr>))
      else if OpCode i = 133 then
        rbind (bpf_call qfd xfd env st (Constant i)) (\<lambda>v.
          Inr (Inr (st\<lparr>pc := pc st + 1, regs := clobber (regs st) v\<rparr>)))
      else if OpCode i = 180 then
        Inr (Inr (st\<lparr>pc := pc st + 1,
          regs := (regs st)(Dst i := Scalar (ucast (word_of_int (Constant i) :: u32)))\<rparr>))
      else if OpCode i = 21 then
        (case regs st (Dst i) of
           Scalar v \<Rightarrow>
             Inr (Inr (st\<lparr>pc := if v = word_of_int (Constant i) then nat (int (pc st) + 1 + Offset i)
                              else pc st + 1\<rparr>))
         | Elem v \<Rightarrow> if Constant i = 0 then Inr (Inr (st\<lparr>pc := pc st + 1\<rparr>)) else Inl Bad_Access
         | _ \<Rightarrow> Inl Bad_Access)
      else if OpCode i = 149 then
        (case regs st 0 of Scalar v \<Rightarrow> Inr (Inl (ucast v)) | _ \<Rightarrow> Inl Bad_Exit)
      else Inl Bad_Opcode)"

text \<open>A program, with a bound on the number of instructions it may execute.\<close>

fun bpf_run ::
  "nat \<Rightarrow> int \<Rightarrow> int \<Rightarrow> sock_env \<Rightarrow> xdp_md \<Rightarrow> instr option list \<Rightarrow> bpf_state \<Rightarrow> (bpf_fault + u32) option" where
  "bpf_run 0 qfd xfd env cx p st = None"
| "bpf_run (Suc n) qfd xfd env cx p st =
     (if pc st < length p then
        (case p ! pc st of
           None \<Rightarrow> Some (Inl Bad_Pc)
         | Some i \<Rightarrow>
             (case bpf_step qfd xfd env cx i st of
                Inl e \<Rightarrow> Some (Inl e)
              | Inr (Inl r) \<Rightarrow> Some (Inr r)
              | Inr (Inr st) \<Rightarrow> bpf_run n qfd xfd env cx p st))
      else Some (Inl Bad_Pc))"

definition bpf_init :: bpf_state where
  "bpf_init = \<lparr>pc = 0, regs = (\<lambda>i. if i = 1 then Ctx else if i = 10 then Stack 0 else Uninit),
     stack = (\<lambda>_. None)\<rparr>"

section \<open>What the program computes\<close>

definition default_spec :: "sock_env \<Rightarrow> u32 \<Rightarrow> u32" where
  "default_spec env index =
     (case qidconf_lookup env index of
        None \<Rightarrow> xdp_code XDP_ABORTED
      | Some v \<Rightarrow> if v = 0 then xdp_code XDP_PASS else word_of_int (redirect_map env index 0))"

lemma slots_xsk_ebpf:
  "slots (xsk_ebpf q x) =
     [Some (ins 97 1 1 16 0), Some (ins 99 10 1 (-4) 0), Some (ins 191 2 10 0 0), Some (ins 7 2 0 0 (-4)),
      Some (ins 24 1 1 0 q), None, Some (ins 133 0 0 0 1), Some (ins 191 1 0 0 0), Some (ins 180 0 0 0 0),
      Some (ins 21 1 0 8 0), Some (ins 180 0 0 0 2), Some (ins 97 1 1 0 0), Some (ins 21 1 0 5 0),
      Some (ins 24 1 1 0 x), None, Some (ins 97 2 10 (-4) 0), Some (ins 180 3 0 0 0), Some (ins 133 0 0 0 51),
      Some (ins 149 0 0 0 0)]"
  by (simp add: slots_def xsk_ebpf_def ins_def)

lemma helper_numbers: "h_id bpf_map_lookup_elem_decl = 1" "h_id bpf_redirect_map_decl = 51"
  by (simp_all add: bpf_map_lookup_elem_decl_def bpf_redirect_map_decl_def)

lemmas bpf_exec = bpf_step_def mem_load_def ctx_load_def bpf_call_def clobber_def ins_def helper_numbers

lemma bpf_run_numeral:
  "bpf_run (numeral k) qfd xfd env cx p st =
     (if pc st < length p then
        (case p ! pc st of
           None \<Rightarrow> Some (Inl Bad_Pc)
         | Some i \<Rightarrow>
             (case bpf_step qfd xfd env cx i st of
                Inl e \<Rightarrow> Some (Inl e)
              | Inr (Inl r) \<Rightarrow> Some (Inr r)
              | Inr (Inr st) \<Rightarrow> bpf_run (pred_numeral k) qfd xfd env cx p st))
      else Some (Inl Bad_Pc))"
  by (simp add: numeral_eq_Suc)

lemma ucast_u32_u64 [simp]:
  "ucast (ucast (w :: u32) :: u64) = w" "ucast (word_of_int k :: u64) = (word_of_int k :: u32)"
  by (rule bit_word_eqI, simp add: bit_simps)+

lemma ucast_u32_eq_0 [simp]: "(ucast (w :: u32) :: u64) = 0 \<longleftrightarrow> w = 0"
  by (metis ucast_u32_u64(1) ucast_0)

lemma xsk_ebpf_run:
  "bpf_run 17 qfd xfd env cx (slots (xsk_ebpf qfd xfd)) bpf_init = Some (Inr (default_spec env (rx_queue_index cx)))"
  unfolding slots_xsk_ebpf default_spec_def
  by (simp add: bpf_run_numeral bpf_init_def bpf_exec split: option.split)

lemma bpf_run_more:
  "bpf_run n qfd xfd env cx p st = Some r \<Longrightarrow> n \<le> k \<Longrightarrow> bpf_run k qfd xfd env cx p st = Some r"
proof (induction n arbitrary: k st)
  case (Suc n)
  then obtain k' where "k = Suc k'" by (cases k) auto
  with Suc show ?case by (auto split: if_splits option.splits sum.splits)
qed simp

section \<open>Programs without backward jumps\<close>

definition forward_slot :: "instr option \<Rightarrow> bool" where
  "forward_slot k = (case k of None \<Rightarrow> True | Some i \<Rightarrow> OpCode i = 21 \<longrightarrow> 0 \<le> Offset i)"

lemma bpf_step_forward:
  assumes "bpf_step qfd xfd env cx i st = Inr (Inr st')" and "forward_slot (Some i)"
  shows "pc st < pc st'"
  using assms
  by (auto simp: bpf_step_def forward_slot_def rbind_eq_Inr split: if_splits bpf_val.splits)

lemma bpf_run_forward:
  assumes "list_all forward_slot p" and "length p \<le> pc st + n"
  shows "\<exists>r. bpf_run (Suc n) qfd xfd env cx p st = Some r"
  using assms(2)
proof (induction n arbitrary: st)
  case 0
  then show ?case by simp
next
  case (Suc n)
  show ?case
  proof (cases "pc st < length p \<and> (\<exists>i st'. p ! pc st = Some i \<and> bpf_step qfd xfd env cx i st = Inr (Inr st'))")
    case True
    then obtain i st' where i: "pc st < length p" "p ! pc st = Some i" "bpf_step qfd xfd env cx i st = Inr (Inr st')"
      by blast
    then have "forward_slot (Some i)" using assms(1) by (metis list_all_length)
    with i(3) have "pc st < pc st'" by (rule bpf_step_forward)
    with Suc.IH [of st'] Suc.prems i show ?thesis by simp
  next
    case False
    then show ?thesis by (subst bpf_run.simps) (auto split: option.splits sum.splits)
  qed
qed

section \<open>Properties\<close>

text \<open>
  C13: the instruction list of \<open>NewProgram\<close> runs to its end in at most seventeen instructions, for
  every context, every map content and whatever the file descriptors are, without reading an
  unreadable register, a wrong address or an unknown helper, and returns: abort for a queue without
  entry, pass for a queue whose entry is zero, and otherwise the result of redirecting to the socket
  of the receive queue.
\<close>

theorem xsk_ebpf_correct:
  assumes "17 \<le> n"
  shows "bpf_run n qfd xfd env cx (slots (xsk_ebpf qfd xfd)) bpf_init =
    Some (Inr (default_spec env (rx_queue_index cx)))"
  using bpf_run_more [OF xsk_ebpf_run assms] .

theorem xsk_ebpf_correct_witness:
  "bpf_run 17 4 5 demo_env (demo_md 0 100) (slots (xsk_ebpf 4 5)) bpf_init = Some (Inr (xdp_code XDP_REDIRECT))"
  using xsk_ebpf_correct [of 17 4 5 demo_env "demo_md 0 100"]
  by (simp add: default_spec_def demo_env_def demo_md_def)

text \<open>
  How the TCP program changes the default program, frame by frame: it redirects only what the
  default program redirects, namely the part that is TCP to port 7777; on a queue whose entry is zero
  it passes what the default passes unless the frame is malformed; and on a queue without an entry it
  passes where the default aborts.
\<close>

lemma sock_prog_narrows_default:
  assumes "ctx_ok c" and "net_uapi_ok u" and "redirect_ok env"
  shows "(xdp_sock_prog u bo env c = Inr (xdp_code XDP_REDIRECT) \<longleftrightarrow>
      default_spec env (rx_queue_index (md c)) = xdp_code XDP_REDIRECT \<and>
      (\<exists>off. classify u (pkt c) = Tcp off \<and> dest_port u (pkt c) off = TCP_PORT)) \<and>
    (qidconf_lookup env (rx_queue_index (md c)) = None \<longrightarrow>
      xdp_sock_prog u bo env c = Inr (xdp_code XDP_PASS) \<and>
      default_spec env (rx_queue_index (md c)) = xdp_code XDP_ABORTED) \<and>
    (qidconf_lookup env (rx_queue_index (md c)) = Some 0 \<longrightarrow>
      xdp_sock_prog u bo env c =
        Inr (if classify u (pkt c) = Malformed then xdp_code XDP_ABORTED else xdp_code XDP_PASS) \<and>
      default_spec env (rx_queue_index (md c)) = xdp_code XDP_PASS)"
  using redirect_ok_zero [OF assms(3), of "rx_queue_index (md c)"]
  by (auto simp: xdp_sock_prog_eq [OF assms(1,2)] sock_spec_def default_spec_def
      split: option.splits frame_class.splits)

text \<open>
  The instruction list of \<open>NewProgram\<close> terminates from every state of registers, stack and program
  counter, whatever the context, the maps and the helpers are: all its jumps go forward, so at most as
  many instructions are executed as there are slots left, and the run ends with a result or a fault.
\<close>

lemma xsk_ebpf_terminates:
  "\<exists>r. bpf_run (Suc (length (slots (xsk_ebpf q x)))) qfd xfd env cx (slots (xsk_ebpf q x)) st = Some r"
proof -
  have "list_all forward_slot (slots (xsk_ebpf q x))"
    by (simp add: slots_xsk_ebpf forward_slot_def ins_def)
  then show ?thesis by (rule bpf_run_forward) simp
qed

end
