(* ===== verification/Xdp_Event_Prog.thy ===== *)
theory Xdp_Event_Prog
  imports Packet_Parse Bpf_Helpers
begin

text \<open>
  The XDP program of \<^verbatim>\<open>perf_event/src/ebpf/tcp_syn_kern.c\<close>: it parses frames as the socket
  program does, logs every TCP header, and for port 7777 writes a fixed record to the ring buffer
  \<open>events\<close> while the packet itself goes on to the network stack.
\<close>

section \<open>Map and message\<close>

text \<open>The type is \<open>BPF_MAP_TYPE_RINGBUF\<close>; members without initialiser are zero.\<close>

definition events_map :: bpf_map_def where
  "events_map = \<lparr>map_type = 27, key_size = 0, value_size = 0, max_entries = 256 * 1024, map_flags = 0\<rparr>"

text \<open>\<open>unsigned char buf[] = "hello!"\<close>, with its NUL.\<close>

definition hello_buf :: "u8 list" where
  "hello_buf = map (\<lambda>ch. of_nat (of_char ch)) ''hello!'' @ [0]"

section \<open>The program\<close>

text \<open>
  The helpers act on a state: \<open>bpf_ringbuf_output\<close> on \<open>events\<close> with the data and flags, and
  \<open>bpf_trace_printk\<close> with format, size and arguments. Both return a result and the new state.
\<close>

record 's event_env =
  ringbuf_output :: "'s \<Rightarrow> u8 list \<Rightarrow> u64 \<Rightarrow> int \<times> 's"
  trace_printk :: "'s \<Rightarrow> string \<Rightarrow> nat \<Rightarrow> int list \<Rightarrow> int \<times> 's"

text \<open>A \<open>long\<close> stored in an \<open>int\<close> keeps its low 32 bits.\<close>

definition c_int :: "int \<Rightarrow> int" where
  "c_int x = sint (word_of_int x :: 32 word)"

lemma c_int_small: "- (2 ^ 31) \<le> x \<Longrightarrow> x < 2 ^ 31 \<Longrightarrow> c_int x = x"
  by (simp add: c_int_def sint_sbintrunc' signed_take_bit_int_eq_self)

lemma c_int_0 [simp]: "c_int 0 = 0"
  by (simp add: c_int_def)

definition EVENT_PORT :: u16 where
  "EVENT_PORT = 7777"

text \<open>The tail of the program, from the log line on, for the TCP header at \<open>tcp\<close>.\<close>

definition event_tail ::
  "net_uapi \<Rightarrow> byte_order \<Rightarrow> 's event_env \<Rightarrow> xdp_ctx \<Rightarrow> 's \<Rightarrow> ptr \<Rightarrow> fault + (u32 \<times> 's)" where
  "event_tail u bo env ctx s tcp =
     rbind (load16 bo ctx (tcp + of_nat (tcp_source u))) (\<lambda>source.
     rbind (load16 bo ctx (tcp + of_nat (tcp_dest u))) (\<lambda>dest.
     rbind (load32 bo ctx (tcp + of_nat (tcp_seq u))) (\<lambda>sq.
       let (r, s) = bpf_printk (trace_printk env) s ''TCP(source=%u, dest=%u, seq=%d, ''
                      [int (unat (bpf_ntohs bo False source)), int (unat (bpf_ntohs bo False dest)),
                       int (unat sq)] in
       if bpf_ntohs bo False dest = EVENT_PORT then
         let (r, s) = ringbuf_output env s hello_buf 0; ret = c_int r in
         if ret \<noteq> 0 then Inr (xdp_code XDP_ABORTED, s) else Inr (xdp_code XDP_PASS, s)
       else Inr (xdp_code XDP_PASS, s))))"

definition perf_event_test ::
  "net_uapi \<Rightarrow> byte_order \<Rightarrow> 's event_env \<Rightarrow> xdp_ctx \<Rightarrow> 's \<Rightarrow> fault + (u32 \<times> 's)" where
  "perf_event_test u bo env ctx s =
     (let dta = data_ptr ctx; dend = data_end_ptr ctx; nh = \<lparr>pos = dta\<rparr> in
      rbind (parse_ethhdr u bo ctx nh dend dta) (\<lambda>(eth_type, nh, eth).
        if eth_type < 0 then Inr (xdp_code XDP_ABORTED, s)
        else if eth_type = int (unat (bpf_htons bo True (ETH_P_IP u))) then
          rbind (parse_iphdr u ctx nh dend 0) (\<lambda>(ip_type, nh, ip).
            if ip_type \<noteq> int (IPPROTO_TCP u) then Inr (xdp_code XDP_PASS, s)
            else rbind (parse_tcphdr u ctx nh dend 0) (\<lambda>(r, nh, tcp).
              if r < 0 then Inr (xdp_code XDP_ABORTED, s) else event_tail u bo env ctx s tcp))
        else if eth_type = int (unat (bpf_htons bo True (ETH_P_IPV6 u))) then
          rbind (parse_ip6hdr u ctx nh dend 0) (\<lambda>(ip_type, nh, ipv6).
            if ip_type \<noteq> int (IPPROTO_TCP u) then Inr (xdp_code XDP_PASS, s)
            else rbind (parse_tcphdr u ctx nh dend 0) (\<lambda>(r, nh, tcp).
              if r < 0 then Inr (xdp_code XDP_ABORTED, s) else event_tail u bo env ctx s tcp))
        else Inr (xdp_code XDP_PASS, s)))"

section \<open>What it computes\<close>

text \<open>
  The log line passes \<open>tcp->seq\<close> without conversion, so the logged number, and only that, depends
  on the byte order of the target.
\<close>

definition seq_arg :: "net_uapi \<Rightarrow> byte_order \<Rightarrow> u8 list \<Rightarrow> nat \<Rightarrow> int" where
  "seq_arg u bo bs off = int (unat (u32_of_bytes bo (bs ! (off + tcp_seq u))
     (bs ! (off + tcp_seq u + 1)) (bs ! (off + tcp_seq u + 2)) (bs ! (off + tcp_seq u + 3))))"

definition source_port :: "net_uapi \<Rightarrow> u8 list \<Rightarrow> nat \<Rightarrow> u16" where
  "source_port u bs off = be16 (bs ! (off + tcp_source u)) (bs ! (off + tcp_source u + 1))"

definition log_tcp :: "net_uapi \<Rightarrow> byte_order \<Rightarrow> 's event_env \<Rightarrow> 's \<Rightarrow> u8 list \<Rightarrow> nat \<Rightarrow> 's" where
  "log_tcp u bo env s bs off =
     snd (bpf_printk (trace_printk env) s ''TCP(source=%u, dest=%u, seq=%d, ''
       [int (unat (source_port u bs off)), int (unat (dest_port u bs off)), seq_arg u bo bs off])"

definition event_spec ::
  "net_uapi \<Rightarrow> byte_order \<Rightarrow> 's event_env \<Rightarrow> u8 list \<Rightarrow> 's \<Rightarrow> u32 \<times> 's" where
  "event_spec u bo env bs s =
     (case classify u bs of
        Malformed \<Rightarrow> (xdp_code XDP_ABORTED, s)
      | Not_Tcp \<Rightarrow> (xdp_code XDP_PASS, s)
      | Tcp off \<Rightarrow>
          (let s' = log_tcp u bo env s bs off in
           if dest_port u bs off = EVENT_PORT then
             let (ret, s'') = ringbuf_output env s' hello_buf 0 in
             (if c_int ret = 0 then xdp_code XDP_PASS else xdp_code XDP_ABORTED, s'')
           else (xdp_code XDP_PASS, s')))"

lemma event_tail_eq:
  assumes "ctx_ok c" and "net_uapi_ok u" and cls: "classify u (pkt c) = Tcp off" and "points c off p"
  shows "event_tail u bo env c s p = Inr (event_spec u bo env (pkt c) s)"
proof -
  note b = classify_Tcp_bound [OF cls] assms(2) [unfolded net_uapi_ok_def]
  have "load16 bo c (p + of_nat (tcp_source u)) = Inr (u16_of_bytes bo
      (pkt c ! (off + tcp_source u)) (pkt c ! (off + tcp_source u + 1)))"
    using load16_points [OF assms(1,4), of "tcp_source u" bo] b by simp
  moreover have "load16 bo c (p + of_nat (tcp_dest u)) = Inr (u16_of_bytes bo
      (pkt c ! (off + tcp_dest u)) (pkt c ! (off + tcp_dest u + 1)))"
    using load16_points [OF assms(1,4), of "tcp_dest u" bo] b by simp
  moreover have "load32 bo c (p + of_nat (tcp_seq u)) = Inr (u32_of_bytes bo
      (pkt c ! (off + tcp_seq u)) (pkt c ! (off + tcp_seq u + 1))
      (pkt c ! (off + tcp_seq u + 2)) (pkt c ! (off + tcp_seq u + 3)))"
    using load32_points [OF assms(1,4), of "tcp_seq u" bo] b by simp
  ultimately show ?thesis
    by (auto simp: event_tail_def event_spec_def log_tcp_def seq_arg_def cls source_port_def
        dest_port_def Let_def split: prod.splits)
qed

lemma perf_event_test_eq:
  assumes "ctx_ok c" and "net_uapi_ok u"
  shows "perf_event_test u bo env c s = Inr (event_spec u bo env (pkt c) s)"
proof -
  from frame_stages [OF assms, of bo "Inr (xdp_code XDP_ABORTED, s)" 0 "Inr (xdp_code XDP_PASS, s)"
      0 "event_tail u bo env c s" 0]
  obtain p where p: "\<And>off. classify u (pkt c) = Tcp off \<Longrightarrow> points c off p"
    and run: "perf_event_test u bo env c s =
      (case classify u (pkt c) of Malformed \<Rightarrow> Inr (xdp_code XDP_ABORTED, s)
       | Not_Tcp \<Rightarrow> Inr (xdp_code XDP_PASS, s) | Tcp off \<Rightarrow> event_tail u bo env c s p)"
    by (auto simp: perf_event_test_def Let_def)
  show ?thesis
  proof (cases "classify u (pkt c)")
    case (Tcp off)
    with run p [OF Tcp] event_tail_eq [OF assms Tcp] show ?thesis by simp
  qed (simp_all add: run event_spec_def)
qed

section \<open>Properties\<close>

text \<open>
  A helper environment for the witnesses: the state is the list of records in the ring buffer,
  which takes two of them, and the log is discarded.
\<close>

definition demo_event_env :: "u8 list list event_env" where
  "demo_event_env = \<lparr>ringbuf_output = (\<lambda>s d flags. if length s < 2 then (0, s @ [d]) else (-11, s)),
     trace_printk = (\<lambda>s fmt n args. (int n, s))\<rparr>"

text \<open>
  C33: for every packet, either byte order and any behaviour of the helpers, \<open>perf_event_test\<close>
  terminates without reading outside the packet, calls the helpers exactly as the classification of
  the frame prescribes, in the order log then ring buffer, and returns the prescribed action.
\<close>

theorem perf_event_test_refines:
  assumes "ctx_ok c" and "net_uapi_ok u"
  shows "perf_event_test u bo env c s = Inr (event_spec u bo env (pkt c) s)"
  using assms by (rule perf_event_test_eq)

theorem perf_event_test_refines_witness:
  "perf_event_test linux_net_uapi Little_Endian demo_event_env (demo_ctx 0 demo_frame) [] =
     Inr (xdp_code XDP_PASS, [hello_buf])"
proof -
  have "classify linux_net_uapi demo_frame = Tcp 38" by code_simp
  moreover have "dest_port linux_net_uapi demo_frame 38 = EVENT_PORT" by code_simp
  ultimately show ?thesis
    using perf_event_test_refines [OF demo_ctx_ok linux_net_uapi_ok, of Little_Endian demo_event_env 0 "[]"]
    by (simp add: event_spec_def demo_event_env_def demo_ctx_def log_tcp_def bpf_printk_def)
qed

text \<open>
  The program never drops, transmits or redirects: it returns pass or abort. It aborts exactly when a
  header is malformed or when the frame is TCP to port 7777 and the ring buffer reports an error, which
  the source itself calls questionable: a full event buffer makes the machine drop the segment.
\<close>

lemma perf_event_test_actions:
  assumes "ctx_ok c" and "net_uapi_ok u"
  shows "\<exists>a s'. perf_event_test u bo env c s = Inr (xdp_code a, s') \<and> a \<in> {XDP_PASS, XDP_ABORTED} \<and>
    (a = XDP_ABORTED \<longleftrightarrow> classify u (pkt c) = Malformed \<or>
       (\<exists>off. classify u (pkt c) = Tcp off \<and> dest_port u (pkt c) off = EVENT_PORT \<and>
          c_int (fst (ringbuf_output env (log_tcp u bo env s (pkt c) off) hello_buf 0)) \<noteq> 0))"
proof (cases "classify u (pkt c)")
  case (Tcp off)
  then show ?thesis
    by (auto simp: perf_event_test_eq [OF assms(1,2)] event_spec_def Let_def split: prod.splits
        intro: exI [of _ XDP_PASS] exI [of _ XDP_ABORTED])
qed (auto simp: perf_event_test_eq [OF assms(1,2)] event_spec_def
      intro: exI [of _ XDP_PASS] exI [of _ XDP_ABORTED])

text \<open>
  An event is written for TCP to port 7777 and for nothing else: in an environment whose log
  leaves the buffer alone and whose buffer appends a record when it reports success and is unchanged
  otherwise, one run adds the seven bytes of \<open>hello!\<close> with its NUL, once, when such a frame arrives
  and the buffer accepts it, and adds nothing for every other frame.
\<close>

lemma perf_event_test_one_event:
  assumes "ctx_ok c" and "net_uapi_ok u"
    and log: "\<And>t fmt n args. snd (trace_printk env t fmt n args) = t"
    and put: "\<And>t d flags. snd (ringbuf_output env t d flags) =
        (if fst (ringbuf_output env t d flags) = 0 then t @ [d] else t)"
  shows "\<exists>a. perf_event_test u bo env c s = Inr (a,
    if (\<exists>off. classify u (pkt c) = Tcp off \<and> dest_port u (pkt c) off = EVENT_PORT) \<and>
       fst (ringbuf_output env s hello_buf 0) = 0
    then s @ [hello_buf] else s)"
proof (cases "classify u (pkt c)")
  case (Tcp off)
  have "log_tcp u bo env s (pkt c) off = s" by (simp add: log_tcp_def bpf_printk_def log)
  with Tcp put [of s hello_buf 0] show ?thesis
    by (auto simp: perf_event_test_eq [OF assms(1,2)] event_spec_def Let_def split: prod.splits)
qed (auto simp: perf_event_test_eq [OF assms(1,2)] event_spec_def)

end
