(* ===== verification/Bpf_Interface.thy ===== *)
theory Bpf_Interface
  imports Bpf_Uapi_Codes Bpf_Uapi_Structs Default_Prog Xdp_Event_Prog
begin

text \<open>
  The programs against the kernel interface: the numbers that the C sources and the instruction
  list of \<open>NewProgram\<close> spell out, and the model's own encodings of actions and context, are those
  that \<^verbatim>\<open>bpf.h\<close> defines.
\<close>

section \<open>Values of the interface\<close>

lemma xdp_action_values:
  "c_enum enum_xdp_action =
   [(''XDP_ABORTED'', 0), (''XDP_DROP'', 1), (''XDP_PASS'', 2), (''XDP_TX'', 3), (''XDP_REDIRECT'', 4)]"
  by code_simp

lemma map_type_values:
  "enum_val enum_bpf_map_type ''BPF_MAP_TYPE_ARRAY'' = Some 2"
  "enum_val enum_bpf_map_type ''BPF_MAP_TYPE_XSKMAP'' = Some 17"
  "enum_val enum_bpf_map_type ''BPF_MAP_TYPE_RINGBUF'' = Some 27"
  by (simp_all add: enum_val_def c_enum_def enum_bpf_map_type_def)

lemma xdp_md_offsets:
  "offsetof struct_xdp_md ''data'' = Some 0"
  "offsetof struct_xdp_md ''data_end'' = Some 4"
  "offsetof struct_xdp_md ''data_meta'' = Some 8"
  "offsetof struct_xdp_md ''ingress_ifindex'' = Some 12"
  "offsetof struct_xdp_md ''rx_queue_index'' = Some 16"
  "offsetof struct_xdp_md ''egress_ifindex'' = Some 20"
  by (simp_all add: offsetof_def struct_xdp_md_def align_up_def)

text \<open>The context load of the interpreter, for the C expression \<open>ctx->x\<close>.\<close>

definition ctx_member :: "xdp_md \<Rightarrow> string \<Rightarrow> bpf_fault + u32" where
  "ctx_member cx x = (case offsetof struct_xdp_md x of None \<Rightarrow> Inl Bad_Access | Some off \<Rightarrow> ctx_load cx (int off))"

section \<open>Properties\<close>

text \<open>
  The programs and the interface agree on every number. The return codes are the values of
  \<open>enum xdp_action\<close>; the three maps have the types array, socket map and ring buffer; a load at the
  offset of a member of \<open>struct xdp_md\<close> reads that member, in particular the first instruction of
  \<open>NewProgram\<close> reads \<open>rx_queue_index\<close>; and its two calls are to \<open>map_lookup_elem\<close> and \<open>redirect_map\<close>.
\<close>

lemma programs_match_interface:
  "c_enum enum_xdp_action =
     [(''XDP_ABORTED'', uint (xdp_code XDP_ABORTED)), (''XDP_DROP'', uint (xdp_code XDP_DROP)),
      (''XDP_PASS'', uint (xdp_code XDP_PASS)), (''XDP_TX'', uint (xdp_code XDP_TX)),
      (''XDP_REDIRECT'', uint (xdp_code XDP_REDIRECT))] \<and>
   enum_val enum_bpf_map_type ''BPF_MAP_TYPE_ARRAY'' = Some (uint (map_type qidconf_map)) \<and>
   enum_val enum_bpf_map_type ''BPF_MAP_TYPE_XSKMAP'' = Some (uint (map_type xsks_map)) \<and>
   enum_val enum_bpf_map_type ''BPF_MAP_TYPE_RINGBUF'' = Some (uint (map_type events_map)) \<and>
   (\<forall>cx. ctx_member cx ''data'' = Inr (data cx) \<and> ctx_member cx ''data_end'' = Inr (data_end cx) \<and>
      ctx_member cx ''data_meta'' = Inr (data_meta cx) \<and>
      ctx_member cx ''ingress_ifindex'' = Inr (ingress_ifindex cx) \<and>
      ctx_member cx ''rx_queue_index'' = Inr (rx_queue_index cx) \<and>
      ctx_member cx ''egress_ifindex'' = Inr (egress_ifindex cx)) \<and>
   (\<forall>q x. Some (Offset (xsk_ebpf q x ! 0)) = map_option int (offsetof struct_xdp_md ''rx_queue_index'') \<and>
      (''BPF_FUNC_map_lookup_elem'', Constant (xsk_ebpf q x ! 5)) \<in> set (c_enum enum_bpf_func_id) \<and>
      (''BPF_FUNC_redirect_map'', Constant (xsk_ebpf q x ! 15)) \<in> set (c_enum enum_bpf_func_id))"
proof (intro conjI allI)
  fix q x
  show "(''BPF_FUNC_map_lookup_elem'', Constant (xsk_ebpf q x ! 5)) \<in> set (c_enum enum_bpf_func_id)"
    using helper_enum_value [of bpf_map_lookup_elem_decl]
    by (simp add: bpf_helpers_def bpf_map_lookup_elem_decl_def xsk_ebpf_def ins_def)
  show "(''BPF_FUNC_redirect_map'', Constant (xsk_ebpf q x ! 15)) \<in> set (c_enum enum_bpf_func_id)"
    using helper_enum_value [of bpf_redirect_map_decl]
    by (simp add: bpf_helpers_def bpf_redirect_map_decl_def xsk_ebpf_def ins_def)
qed (simp_all add: xdp_action_values map_type_values xdp_md_offsets ctx_member_def ctx_load_def
    qidconf_map_def xsks_map_def events_map_def xsk_ebpf_def ins_def)

end
