(* ===== verification/Bpf_Typing.thy ===== *)
theory Bpf_Typing
  imports Default_Prog
begin

text \<open>
  Types for the instructions of \<open>NewProgram\<close> in \<^verbatim>\<open>dumpframes/program.go\<close>. Before it accepts a
  program the kernel follows all its paths and keeps track of what every register holds; this theory
  has such a check for the instructions that \<open>Default_Prog\<close> interprets, proves that a program it
  accepts ends with a result from every context and over all maps, and that it accepts the program of
  \<open>NewProgram\<close>.
\<close>

section \<open>Register types\<close>

text \<open>
  A map element is what a lookup returns when it finds the key; before it has been compared with null
  it may be null. \<open>TAny\<close> is the type of a register that must not be read.
\<close>

datatype reg_type = TScalar | TCtx | TStack int | TMap int | TElem | TElem_Or_Null | TAny

fun has_type :: "bpf_val \<Rightarrow> reg_type \<Rightarrow> bool" where
  "has_type (Scalar w) t \<longleftrightarrow> t = TScalar \<or> t = TAny \<or> t = TElem_Or_Null \<and> w = 0"
| "has_type Ctx t \<longleftrightarrow> t = TCtx \<or> t = TAny"
| "has_type (Stack s) t \<longleftrightarrow> t = TStack s \<or> t = TAny"
| "has_type (Map_Fd f) t \<longleftrightarrow> t = TMap f \<or> t = TAny"
| "has_type (Elem w) t \<longleftrightarrow> t = TElem \<or> t = TElem_Or_Null \<or> t = TAny"
| "has_type Uninit t \<longleftrightarrow> t = TAny"

text \<open>The types of the registers 0 to 10 and the initialised words of the stack frame.\<close>

record type_state =
  t_regs :: "reg_type list"
  t_stack :: "int list"

definition reg_ty :: "type_state \<Rightarrow> nat \<Rightarrow> reg_type" where
  "reg_ty g r = (if r < length (t_regs g) then t_regs g ! r else TAny)"

definition set_reg :: "type_state \<Rightarrow> nat \<Rightarrow> reg_type \<Rightarrow> type_state" where
  "set_reg g r t = g\<lparr>t_regs := (t_regs g)[r := t]\<rparr>"

definition init_types :: type_state where
  "init_types = \<lparr>t_regs = [TAny, TCtx, TAny, TAny, TAny, TAny, TAny, TAny, TAny, TAny, TStack 0], t_stack = []\<rparr>"

section \<open>The check\<close>

text \<open>The helpers: their arguments by register, and the type of the result.\<close>

definition call_type :: "int \<Rightarrow> int \<Rightarrow> type_state \<Rightarrow> int \<Rightarrow> reg_type option" where
  "call_type qfd xfd g k =
     (if k = int (h_id bpf_map_lookup_elem_decl) then
        (case (reg_ty g 1, reg_ty g 2) of
           (TMap f, TStack s) \<Rightarrow> if f = qfd \<and> s \<in> set (t_stack g) then Some TElem_Or_Null else None
         | _ \<Rightarrow> None)
      else if k = int (h_id bpf_redirect_map_decl) then
        (case (reg_ty g 1, reg_ty g 2, reg_ty g 3) of
           (TMap f, TScalar, TScalar) \<Rightarrow> if f = xfd then Some TScalar else None
         | _ \<Rightarrow> None)
      else None)"

text \<open>
  One instruction: the successors with their types, or \<open>None\<close> when the instruction may fault. The frame
  pointer, register 10, is never written; a word of the stack lies in the 512 bytes below it and is
  aligned; jumps go forward.
\<close>

definition type_step :: "int \<Rightarrow> int \<Rightarrow> instr \<Rightarrow> nat \<Rightarrow> type_state \<Rightarrow> (nat \<times> type_state) list option" where
  "type_step qfd xfd i k g =
     (if OpCode i = 149 then if reg_ty g 0 = TScalar then Some [] else None
      else if OpCode i = 99 then
        (case reg_ty g (Dst i) of
           TStack s \<Rightarrow>
             if reg_ty g (Src i) = TScalar \<and> - 512 \<le> s + Offset i \<and> s + Offset i \<le> - 4 \<and> (s + Offset i) mod 4 = 0
             then Some [(k + 1, g\<lparr>t_stack := (s + Offset i) # t_stack g\<rparr>)] else None
         | _ \<Rightarrow> None)
      else if OpCode i = 133 then
        (case call_type qfd xfd g (Constant i) of
           None \<Rightarrow> None
         | Some t \<Rightarrow> Some [(k + 1, g\<lparr>t_regs := t # replicate 5 TAny @ drop 6 (t_regs g)\<rparr>)])
      else if 10 \<le> Dst i then None
      else if OpCode i = 97 then
        (case reg_ty g (Src i) of
           TCtx \<Rightarrow> if Offset i \<in> {0, 4, 8, 12, 16, 20} then Some [(k + 1, set_reg g (Dst i) TScalar)] else None
         | TStack s \<Rightarrow> if s + Offset i \<in> set (t_stack g) then Some [(k + 1, set_reg g (Dst i) TScalar)] else None
         | TElem \<Rightarrow> if Offset i = 0 then Some [(k + 1, set_reg g (Dst i) TScalar)] else None
         | _ \<Rightarrow> None)
      else if OpCode i = 191 then
        if reg_ty g (Src i) = TAny then None else Some [(k + 1, set_reg g (Dst i) (reg_ty g (Src i)))]
      else if OpCode i = 7 then
        (case reg_ty g (Dst i) of
           TStack s \<Rightarrow> Some [(k + 1, set_reg g (Dst i) (TStack (s + Constant i)))]
         | TScalar \<Rightarrow> Some [(k + 1, g)]
         | _ \<Rightarrow> None)
      else if OpCode i = 24 then
        Some [(k + 2, set_reg g (Dst i) (if Src i = 1 then TMap (Constant i) else TScalar))]
      else if OpCode i = 180 then Some [(k + 1, set_reg g (Dst i) TScalar)]
      else if OpCode i = 21 \<and> 0 \<le> Offset i then
        (case reg_ty g (Dst i) of
           TScalar \<Rightarrow> Some [(k + 1, g), (nat (int k + 1 + Offset i), g)]
         | TElem \<Rightarrow> if Constant i = 0 then Some [(k + 1, g)] else None
         | TElem_Or_Null \<Rightarrow>
             if Constant i = 0 then
               Some [(k + 1, set_reg g (Dst i) TElem),
                     (nat (int k + 1 + Offset i), set_reg g (Dst i) TScalar)]
             else None
         | _ \<Rightarrow> None)
      else None)"

text \<open>All paths from a slot, up to a number of instructions.\<close>

fun verify :: "int \<Rightarrow> int \<Rightarrow> nat \<Rightarrow> instr option list \<Rightarrow> nat \<Rightarrow> type_state \<Rightarrow> bool" where
  "verify qfd xfd 0 p k g \<longleftrightarrow> False"
| "verify qfd xfd (Suc n) p k g \<longleftrightarrow>
     k < length p \<and>
     (case p ! k of
        None \<Rightarrow> False
      | Some i \<Rightarrow>
          (case type_step qfd xfd i k g of
             None \<Rightarrow> False
           | Some succs \<Rightarrow> list_all (\<lambda>(k', g'). verify qfd xfd n p k' g') succs))"

section \<open>Soundness\<close>

text \<open>A machine state agrees with a type state.\<close>

definition conforms :: "bpf_state \<Rightarrow> type_state \<Rightarrow> bool" where
  "conforms st g \<longleftrightarrow> length (t_regs g) = 11 \<and> (\<forall>r. has_type (regs st r) (reg_ty g r)) \<and>
     (\<forall>s \<in> set (t_stack g). stack st s \<noteq> None)"

lemma has_type_dest:
  "has_type v TScalar \<Longrightarrow> \<exists>w. v = Scalar w"
  "has_type v TCtx \<Longrightarrow> v = Ctx"
  "has_type v (TStack s) \<Longrightarrow> v = Stack s"
  "has_type v (TMap f) \<Longrightarrow> v = Map_Fd f"
  "has_type v TElem \<Longrightarrow> \<exists>w. v = Elem w"
  "has_type v TElem_Or_Null \<Longrightarrow> v = Scalar 0 \<or> (\<exists>w. v = Elem w)"
  by (cases v; simp)+

lemma has_type_any [simp]: "has_type v TAny"
  by (cases v) auto

lemma conforms_reg: "conforms st g \<Longrightarrow> has_type (regs st r) (reg_ty g r)"
  by (simp add: conforms_def)

lemma conforms_dest:
  assumes "conforms st g"
  shows "reg_ty g r = TScalar \<Longrightarrow> \<exists>w. regs st r = Scalar w"
    "reg_ty g r = TCtx \<Longrightarrow> regs st r = Ctx"
    "reg_ty g r = TStack s \<Longrightarrow> regs st r = Stack s"
    "reg_ty g r = TMap f \<Longrightarrow> regs st r = Map_Fd f"
    "reg_ty g r = TElem \<Longrightarrow> \<exists>w. regs st r = Elem w"
    "reg_ty g r = TElem_Or_Null \<Longrightarrow> regs st r = Scalar 0 \<or> (\<exists>w. regs st r = Elem w)"
    "s \<in> set (t_stack g) \<Longrightarrow> \<exists>w. stack st s = Some w"
  using conforms_reg [OF assms, of r] assms by (auto dest: has_type_dest simp: conforms_def)

lemma reg_ty_set:
  "length (t_regs g) = 11 \<Longrightarrow> d < 10 \<Longrightarrow> reg_ty (set_reg g d t) r = (if r = d then t else reg_ty g r)"
  by (simp add: reg_ty_def set_reg_def nth_list_update)

lemma reg_ty_stack [simp]: "reg_ty (g\<lparr>t_stack := ss\<rparr>) r = reg_ty g r"
  by (simp add: reg_ty_def)

lemma conforms_set:
  assumes "conforms st g" and "d < 10" and "has_type v t"
    and "regs st' = (regs st)(d := v)" and "stack st' = stack st"
  shows "conforms st' (set_reg g d t)"
  using assms by (auto simp: conforms_def reg_ty_set) (simp_all add: set_reg_def)

lemma conforms_pc: "conforms (st\<lparr>pc := k\<rparr>) g \<longleftrightarrow> conforms st g"
  by (simp add: conforms_def)

lemma conforms_refine:
  assumes "conforms st g" and "d < 10" and "has_type (regs st d) t"
  shows "conforms st (set_reg g d t)"
  using conforms_set [OF assms, of st] by simp

text \<open>
  An instruction that passes the check returns or goes on to one of the successors, in a state that
  agrees with the types given there.
\<close>

definition goes_on :: "bpf_fault + (u32 + bpf_state) \<Rightarrow> (nat \<times> type_state) list \<Rightarrow> bool" where
  "goes_on r succs \<longleftrightarrow>
     (case r of
        Inl e \<Rightarrow> False
      | Inr (Inl w) \<Rightarrow> True
      | Inr (Inr st') \<Rightarrow> \<exists>g'. (pc st', g') \<in> set succs \<and> conforms st' g')"

lemma goes_on_simps [simp]:
  "goes_on (Inr (Inl w)) succs"
  "goes_on (Inr (Inr st')) succs \<longleftrightarrow> (\<exists>g'. (pc st', g') \<in> set succs \<and> conforms st' g')"
  by (simp_all add: goes_on_def)

lemma goes_on_set:
  assumes "conforms st g" and "d < 10" and "has_type v ty"
  shows "goes_on (Inr (Inr (st\<lparr>pc := k, regs := (regs st)(d := v)\<rparr>))) [(k, set_reg g d ty)]"
  using conforms_set [OF assms] by simp

lemma load_sound:
  assumes c: "conforms st g" and "OpCode i = 97" and t: "type_step qfd xfd i (pc st) g = Some succs"
  shows "goes_on (bpf_step qfd xfd env cx i st) succs"
proof -
  note op [simp] = assms(2)
  from t have d: "Dst i < 10" and s: "succs = [(pc st + 1, set_reg g (Dst i) TScalar)]"
    by (auto simp: type_step_def split: if_splits reg_type.splits)
  have "\<exists>w. mem_load cx st (regs st (Src i)) (Offset i) = Inr w"
  proof (cases "reg_ty g (Src i)")
    case TCtx
    with t d have "Offset i \<in> {0, 4, 8, 12, 16, 20}" by (simp add: type_step_def split: if_splits)
    then show ?thesis by (auto simp: mem_load_def ctx_load_def conforms_dest(2) [OF c TCtx])
  next
    case (TStack k)
    with t d have "k + Offset i \<in> set (t_stack g)" by (simp add: type_step_def split: if_splits)
    from conforms_dest(7) [OF c this] show ?thesis by (auto simp: mem_load_def conforms_dest(3) [OF c TStack])
  next
    case TElem
    with t d have "Offset i = 0" by (simp add: type_step_def split: if_splits)
    with conforms_dest(5) [OF c TElem] show ?thesis by (auto simp: mem_load_def)
  qed (use t d in \<open>simp_all add: type_step_def\<close>)
  then obtain w where "mem_load cx st (regs st (Src i)) (Offset i) = Inr w" by blast
  with goes_on_set [OF c d, of "Scalar (ucast w)" TScalar "pc st + 1"] s show ?thesis
    by (simp add: bpf_step_def)
qed

lemma store_sound:
  assumes c: "conforms st g" and "OpCode i = 99" and t: "type_step qfd xfd i (pc st) g = Some succs"
  shows "goes_on (bpf_step qfd xfd env cx i st) succs"
proof -
  note op [simp] = assms(2)
  from t obtain s where s: "reg_ty g (Dst i) = TStack s" "reg_ty g (Src i) = TScalar"
    "succs = [(pc st + 1, g\<lparr>t_stack := (s + Offset i) # t_stack g\<rparr>)]"
    by (auto simp: type_step_def split: if_splits reg_type.splits)
  obtain w where w: "regs st (Src i) = Scalar w" using conforms_dest(1) [OF c s(2)] by blast
  have "bpf_step qfd xfd env cx i st =
      Inr (Inr (st\<lparr>pc := pc st + 1, stack := (stack st)(s + Offset i := Some (ucast w))\<rparr>))"
    by (simp add: bpf_step_def w conforms_dest(3) [OF c s(1)])
  moreover have "conforms (st\<lparr>pc := pc st + 1, stack := (stack st)(s + Offset i := Some (ucast w))\<rparr>)
      (g\<lparr>t_stack := (s + Offset i) # t_stack g\<rparr>)"
    using c by (simp add: conforms_def)
  ultimately show ?thesis using s(3) by simp
qed

lemma call_sound:
  assumes c: "conforms st g" and "OpCode i = 133" and t: "type_step qfd xfd i (pc st) g = Some succs"
  shows "goes_on (bpf_step qfd xfd env cx i st) succs"
proof -
  note op [simp] = assms(2)
  from t obtain ty where ty: "call_type qfd xfd g (Constant i) = Some ty"
    and s: "succs = [(pc st + 1, g\<lparr>t_regs := ty # replicate 5 TAny @ drop 6 (t_regs g)\<rparr>)]"
    by (auto simp: type_step_def split: option.splits)
  have "\<exists>v. bpf_call qfd xfd env st (Constant i) = Inr v \<and> has_type v ty"
  proof (cases "Constant i = int (h_id bpf_map_lookup_elem_decl)")
    case True
    with ty obtain k where k: "reg_ty g 1 = TMap qfd" "reg_ty g 2 = TStack k" "k \<in> set (t_stack g)" "ty = TElem_Or_Null"
      by (auto simp: call_type_def split: reg_type.splits if_splits)
    from conforms_dest(7) [OF c k(3)] obtain key where "stack st k = Some key" by blast
    with True k show ?thesis
      by (simp add: bpf_call_def conforms_dest(4) [OF c k(1)] conforms_dest(3) [OF c k(2)] split: option.split
          del: One_nat_def)
  next
    case False
    with ty have k: "Constant i = int (h_id bpf_redirect_map_decl)" "reg_ty g 1 = TMap xfd" "reg_ty g 2 = TScalar"
      "reg_ty g 3 = TScalar" "ty = TScalar"
      by (auto simp: call_type_def split: reg_type.splits if_splits)
    from conforms_dest(1) [OF c k(3)] conforms_dest(1) [OF c k(4)] k(1,5) False show ?thesis
      by (auto simp: bpf_call_def conforms_dest(4) [OF c k(2)] simp del: One_nat_def)
  qed
  then obtain v where v: "bpf_call qfd xfd env st (Constant i) = Inr v" "has_type v ty" by blast
  have len: "length (t_regs g) = 11" using c by (simp add: conforms_def)
  have "has_type (clobber (regs st) v r) (reg_ty (g\<lparr>t_regs := ty # replicate 5 TAny @ drop 6 (t_regs g)\<rparr>) r)" for r
  proof (cases "r \<le> 5")
    case True
    then show ?thesis using v(2) by (cases r) (simp_all add: clobber_def reg_ty_def nth_append)
  next
    case False
    then have "reg_ty (g\<lparr>t_regs := ty # replicate 5 TAny @ drop 6 (t_regs g)\<rparr>) r = reg_ty g r"
      using len by (auto simp: reg_ty_def nth_append nth_Cons')
    with False conforms_reg [OF c, of r] show ?thesis by (simp add: clobber_def)
  qed
  then have "conforms (st\<lparr>pc := pc st + 1, regs := clobber (regs st) v\<rparr>)
      (g\<lparr>t_regs := ty # replicate 5 TAny @ drop 6 (t_regs g)\<rparr>)"
    using c len by (simp add: conforms_def)
  moreover have "bpf_step qfd xfd env cx i st = Inr (Inr (st\<lparr>pc := pc st + 1, regs := clobber (regs st) v\<rparr>))"
    by (simp add: bpf_step_def v(1))
  ultimately show ?thesis using s by simp
qed

text \<open>The instructions that set a register: moves, constants and pointer arithmetic.\<close>

lemma set_sound:
  assumes c: "conforms st g" and op: "OpCode i \<in> {191, 7, 24, 180}"
    and t: "type_step qfd xfd i (pc st) g = Some succs"
  shows "goes_on (bpf_step qfd xfd env cx i st) succs"
proof -
  from t op have d: "Dst i < 10" by (auto simp: type_step_def split: if_splits)
  note next_state = goes_on_set [OF c d]
  from op consider "OpCode i = 191" | "OpCode i = 7" | "OpCode i = 24" | "OpCode i = 180" by auto
  then show ?thesis
  proof cases
    case 1
    with t d have "succs = [(pc st + 1, set_reg g (Dst i) (reg_ty g (Src i)))]"
      by (simp add: type_step_def split: if_splits)
    with 1 next_state [OF conforms_reg [OF c]] show ?thesis by (simp add: bpf_step_def)
  next
    case 2
    show ?thesis
    proof (cases "reg_ty g (Dst i)")
      case TScalar
      from conforms_dest(1) [OF c TScalar] obtain w where w: "regs st (Dst i) = Scalar w" by blast
      have "set_reg g (Dst i) TScalar = g"
        using TScalar d c by (simp add: set_reg_def reg_ty_def conforms_def list_update_same_conv)
      with next_state [of "Scalar (w + word_of_int (Constant i))" TScalar "pc st + 1"] 2 t d w TScalar
      show ?thesis by (auto simp: bpf_step_def type_step_def)
    next
      case (TStack s)
      with next_state [of "Stack (s + Constant i)" "TStack (s + Constant i)" "pc st + 1"] 2 t d
      show ?thesis by (auto simp: bpf_step_def type_step_def conforms_dest(3) [OF c TStack])
    qed (use 2 t d in \<open>simp_all add: type_step_def\<close>)
  next
    case 3
    with t d have "succs = [(pc st + 2, set_reg g (Dst i) (if Src i = 1 then TMap (Constant i) else TScalar))]"
      by (simp add: type_step_def)
    with 3 next_state [of "if Src i = 1 then Map_Fd (Constant i) else Scalar (word_of_int (Constant i))"]
    show ?thesis by (simp add: bpf_step_def)
  next
    case 4
    with t d have "succs = [(pc st + 1, set_reg g (Dst i) TScalar)]" by (simp add: type_step_def)
    with 4 next_state show ?thesis by (simp add: bpf_step_def)
  qed
qed

lemma jump_sound:
  assumes c: "conforms st g" and "OpCode i = 21" and t: "type_step qfd xfd i (pc st) g = Some succs"
  shows "goes_on (bpf_step qfd xfd env cx i st) succs"
proof -
  note op [simp] = assms(2)
  from t have d: "Dst i < 10" and f: "0 \<le> Offset i" by (auto simp: type_step_def split: if_splits)
  show ?thesis
  proof (cases "reg_ty g (Dst i)")
    case TScalar
    from conforms_dest(1) [OF c TScalar] TScalar t d f c show ?thesis
      by (auto simp: bpf_step_def type_step_def conforms_pc)
  next
    case TElem
    from conforms_dest(5) [OF c TElem] TElem t d f c show ?thesis
      by (auto simp: bpf_step_def type_step_def conforms_pc split: if_splits)
  next
    case TElem_Or_Null
    with t d f have k: "Constant i = 0" "succs = [(pc st + 1, set_reg g (Dst i) TElem),
        (nat (int (pc st) + 1 + Offset i), set_reg g (Dst i) TScalar)]"
      by (auto simp: type_step_def split: if_splits)
    from conforms_dest(6) [OF c TElem_Or_Null] show ?thesis
    proof
      assume v: "regs st (Dst i) = Scalar 0"
      with k conforms_refine [OF c d, of TScalar] show ?thesis
        by (auto simp: bpf_step_def conforms_pc)
    next
      assume "\<exists>w. regs st (Dst i) = Elem w"
      with k conforms_refine [OF c d, of TElem] show ?thesis
        by (auto simp: bpf_step_def conforms_pc)
    qed
  qed (use t d f in \<open>simp_all add: type_step_def\<close>)
qed

lemma type_step_sound:
  assumes c: "conforms st g" and t: "type_step qfd xfd i (pc st) g = Some succs"
  shows "goes_on (bpf_step qfd xfd env cx i st) succs"
proof -
  from t consider "OpCode i = 149" | "OpCode i = 97" | "OpCode i = 99" | "OpCode i = 133" |
    "OpCode i \<in> {191, 7, 24, 180}" | "OpCode i = 21"
    by (auto simp: type_step_def split: if_splits)
  then show ?thesis
  proof cases
    case 1
    with t have "reg_ty g 0 = TScalar" by (simp add: type_step_def split: if_splits)
    from conforms_dest(1) [OF c this] 1 show ?thesis by (auto simp: bpf_step_def goes_on_def)
  next
    case 2
    show ?thesis by (rule load_sound [OF c 2 t])
  next
    case 3
    show ?thesis by (rule store_sound [OF c 3 t])
  next
    case 4
    show ?thesis by (rule call_sound [OF c 4 t])
  next
    case 5
    show ?thesis by (rule set_sound [OF c 5 t])
  next
    case 6
    show ?thesis by (rule jump_sound [OF c 6 t])
  qed
qed

lemma verify_sound:
  assumes "verify qfd xfd n p (pc st) g" and "conforms st g"
  shows "\<exists>r. bpf_run n qfd xfd env cx p st = Some (Inr r)"
  using assms
proof (induction n arbitrary: st g)
  case (Suc n)
  from Suc.prems(1) obtain i succs where i: "pc st < length p" "p ! pc st = Some i"
    "type_step qfd xfd i (pc st) g = Some succs" "list_all (\<lambda>(k, g'). verify qfd xfd n p k g') succs"
    by (auto split: option.splits)
  from type_step_sound [OF Suc.prems(2) i(3), of env cx] consider
      r where "bpf_step qfd xfd env cx i st = Inr (Inl r)"
    | st' g' where "bpf_step qfd xfd env cx i st = Inr (Inr st')" "(pc st', g') \<in> set succs" "conforms st' g'"
    by (auto simp: goes_on_def split: sum.splits)
  then show ?case
  proof cases
    case (2 st' g')
    with i(4) have "verify qfd xfd n p (pc st') g'" by (auto simp: list_all_iff)
    from Suc.IH [OF this 2(3)] i 2(1) show ?thesis by simp
  qed (use i in simp)
qed simp

lemma init_conforms: "conforms bpf_init init_types"
proof -
  have "has_type (regs bpf_init r) (reg_ty init_types r)" for r
  proof -
    have "reg_ty init_types r = (if r = 1 then TCtx else if r = 10 then TStack 0 else TAny)"
      by (auto simp: reg_ty_def init_types_def nth_Cons' less_Suc_eq)
    then show ?thesis by (simp add: bpf_init_def)
  qed
  then show ?thesis by (simp add: conforms_def init_types_def)
qed

section \<open>Properties\<close>

text \<open>
  C8: type safety of the instruction list of \<open>NewProgram\<close>. Following all paths with the types of the
  registers, the check accepts the list, for any file descriptors of the two maps; and every
  program that the check accepts within some number of instructions ends within that number with a
  result, never with a fault: no unreadable register, no access outside the context or the
  initialised stack, no null pointer, no wrong argument of a helper, no missing exit, whatever the
  context and the maps hold.
\<close>

theorem xsk_ebpf_well_typed:
  "verify qfd xfd 17 (slots (xsk_ebpf qfd xfd)) 0 init_types \<and>
   (\<forall>n p env cx. verify qfd xfd n p 0 init_types \<longrightarrow> (\<exists>r. bpf_run n qfd xfd env cx p bpf_init = Some (Inr r)))"
proof
  show "verify qfd xfd 17 (slots (xsk_ebpf qfd xfd)) 0 init_types"
    unfolding slots_xsk_ebpf
    by (simp add: numeral_eq_Suc type_step_def init_types_def reg_ty_def set_reg_def ins_def call_type_def helper_numbers)
  show "\<forall>n p env cx. verify qfd xfd n p 0 init_types \<longrightarrow> (\<exists>r. bpf_run n qfd xfd env cx p bpf_init = Some (Inr r))"
  proof (intro allI impI)
    fix n p env cx
    assume "verify qfd xfd n p 0 init_types"
    then have "verify qfd xfd n p (pc bpf_init) init_types" by (simp add: bpf_init_def)
    from verify_sound [OF this init_conforms] show "\<exists>r. bpf_run n qfd xfd env cx p bpf_init = Some (Inr r)" .
  qed
qed

theorem xsk_ebpf_well_typed_witness:
  "\<exists>r. bpf_run 17 4 5 demo_env (demo_md 0 100) (slots (xsk_ebpf 4 5)) bpf_init = Some (Inr r)"
  using xsk_ebpf_well_typed [of 4 5] by blast

end
