(* ===== verification/Xsk_Ring.thy ===== *)
theory Xsk_Ring
  imports Go_Runtime
begin

unbundle bit_operations_syntax

text \<open>
  The rings that a socket shares with the kernel (\<open>umemRing\<close> and \<open>rxTxRing\<close> of
  \<^verbatim>\<open>xdp.go\<close>): a producer and a consumer counter of 32 bits that run freely and wrap around,
  and an array whose size is a power of two, indexed by the low bits of a counter. This theory
  relates a ring to the queue of its entries.
\<close>

section \<open>Rings\<close>

text \<open>The counters live in memory mapped from the kernel; \<open>None\<close> is a nil pointer.\<close>

record 'd ring =
  Producer :: "u32 option"
  Consumer :: "u32 option"
  Descs :: "'d list"

text \<open>The index expression \<open>w & uint32(n - 1)\<close>.\<close>

definition ring_slot :: "int \<Rightarrow> u32 \<Rightarrow> nat" where
  "ring_slot n w = unat (w AND to_u32 (n - 1))"

text \<open>The free slots and the used slots as the code computes them from a ring of nominal size \<open>n\<close>.\<close>

definition ring_free :: "int \<Rightarrow> 'd ring \<Rightarrow> go_panic + int" where
  "ring_free sz r =
     rbind (deref (Producer r)) (\<lambda>prod. rbind (deref (Consumer r)) (\<lambda>cons.
       let mx = to_u32 sz; n = mx - (prod - cons); n = (if mx < n then mx else n) in Inr (uint n)))"

definition ring_used :: "int \<Rightarrow> 'd ring \<Rightarrow> go_panic + int" where
  "ring_used sz r =
     rbind (deref (Producer r)) (\<lambda>prod. rbind (deref (Consumer r)) (\<lambda>cons.
       let mx = to_u32 sz; n = prod - cons; n = (if mx < n then mx else n) in Inr (uint n)))"

section \<open>Sizes and slots\<close>

text \<open>The kernel accepts powers of two only.\<close>

definition ring_size :: "nat \<Rightarrow> bool" where
  "ring_size n \<longleftrightarrow> n \<in> (\<lambda>k. 2 ^ k) ` {0..<32}"

lemma ring_sizeE:
  assumes "ring_size n"
  obtains k where "k < 32" and "n = 2 ^ k"
  using assms by (auto simp: ring_size_def)

lemma ring_size_bounds: "ring_size n \<Longrightarrow> 0 < n \<and> n \<le> 2 ^ 31"
proof (erule ring_sizeE)
  fix k assume k: "k < 32" and n: "n = 2 ^ k"
  from k have "(2::nat) ^ k \<le> 2 ^ 31" by (intro power_increasing) auto
  with n show "0 < n \<and> n \<le> 2 ^ 31" by simp
qed

lemma ring_slot_eq:
  assumes "ring_size n"
  shows "ring_slot (int n) w = unat w mod n"
proof -
  obtain k where k: "k < 32" and n: "n = 2 ^ k" using assms by (rule ring_sizeE)
  have "to_u32 (int n - 1) = mask k"
    by (simp add: to_u32_def n mask_eq_exp_minus_1)
  then have "ring_slot (int n) w = unat (take_bit k w)"
    by (simp add: ring_slot_def take_bit_eq_mask)
  also have "\<dots> = take_bit k (unat w)" by (simp only: unsigned_take_bit_eq)
  finally show ?thesis by (simp only: n take_bit_eq_mod)
qed

lemma mod_add_of_nat:
  assumes "ring_size n"
  shows "unat (c + of_nat i :: u32) mod n = (unat c + i) mod n"
proof -
  obtain k where k: "k < 32" and n: "n = 2 ^ k" using assms by (rule ring_sizeE)
  have "(2::nat) ^ k dvd 2 ^ 32" using k by (intro le_imp_power_dvd) simp
  then have d: "n dvd 2 ^ LENGTH(32)" using n by simp
  have "unat (c + of_nat i :: u32) = (unat c + i) mod 2 ^ LENGTH(32)"
    by (simp add: unat_word_ariths unat_of_nat mod_add_right_eq)
  with d show ?thesis by (simp only: mod_mod_cancel)
qed

section \<open>The queue in a ring\<close>

text \<open>The \<open>k\<close> entries from counter value \<open>c\<close> on, oldest first.\<close>

definition window :: "nat \<Rightarrow> u32 \<Rightarrow> 'd list \<Rightarrow> nat \<Rightarrow> 'd list" where
  "window n c ds k = map (\<lambda>i. ds ! ((unat c + i) mod n)) [0..<k]"

definition ring_view :: "nat \<Rightarrow> 'd ring \<Rightarrow> 'd list" where
  "ring_view n r =
     (case (Producer r, Consumer r) of
        (Some p, Some c) \<Rightarrow> window n c (Descs r) (unat (p - c))
      | _ \<Rightarrow> [])"

text \<open>A ring in use: both counters exist, the array has the agreed size, no entry is overwritten.\<close>

definition ring_ok :: "nat \<Rightarrow> 'd ring \<Rightarrow> bool" where
  "ring_ok n r \<longleftrightarrow> ring_size n \<and> length (Descs r) = n \<and>
     (case (Producer r, Consumer r) of (Some p, Some c) \<Rightarrow> unat (p - c) \<le> n | _ \<Rightarrow> False)"

lemma ring_okE:
  assumes "ring_ok n r"
  obtains p c where "Producer r = Some p" and "Consumer r = Some c" and "unat (p - c) \<le> n"
    and "length (Descs r) = n" and "ring_size n"
    and "ring_view n r = window n c (Descs r) (unat (p - c))"
  using assms by (auto simp: ring_ok_def ring_view_def split: option.splits)

lemma length_window [simp]: "length (window n c ds k) = k"
  by (simp add: window_def)

lemma length_ring_view: "ring_ok n r \<Longrightarrow> length (ring_view n r) \<le> n"
  by (erule ring_okE) simp

lemma window_0 [simp]: "window n c ds 0 = []"
  by (simp add: window_def)

lemma mod_neq_of_less:
  fixes a :: nat
  assumes "i < k" and "k < n"
  shows "(a + i) mod n \<noteq> (a + k) mod n"
proof
  assume "(a + i) mod n = (a + k) mod n"
  then have "n dvd (a + k) - (a + i)" by (metis mod_eq_dvd_iff_nat add_le_cancel_left assms(1) less_imp_le)
  with assms show False by (auto dest: dvd_imp_le)
qed

lemma window_put:
  assumes "k < n" and "length ds = n"
  shows "window n c (ds[(unat c + k) mod n := x]) (Suc k) = window n c ds k @ [x]"
proof -
  have "(unat c + k) mod n < length ds" using assms by simp
  moreover have "ds[(unat c + k) mod n := x] ! ((unat c + i) mod n) = ds ! ((unat c + i) mod n)" if "i < k" for i
    using mod_neq_of_less [OF that assms(1), of "unat c"] by simp
  ultimately show ?thesis by (simp add: window_def)
qed

lemma window_Cons:
  assumes "ring_size n"
  shows "window n c ds (Suc k) = ds ! (unat c mod n) # window n (c + 1) ds k"
proof -
  have "(unat (c + 1) + i) mod n = (unat c + Suc i) mod n" for i
    using mod_add_of_nat [OF assms, of c 1] mod_add_left_eq [of "unat (c + 1)" n i]
      mod_add_left_eq [of "unat c + 1" n i] by simp
  then show ?thesis by (simp add: window_def upt_conv_Cons map_Suc_upt [symmetric] del: upt_Suc)
qed

lemma take_window: "take j (window n c ds k) = window n c ds (min j k)"
  by (cases "j \<le> k") (auto simp: window_def take_map min_def)

lemma drop_window:
  "ring_size n \<Longrightarrow> j \<le> k \<Longrightarrow> drop j (window n c ds k) = window n (c + of_nat j) ds (k - j)"
proof (induction j arbitrary: c k)
  case (Suc j)
  then obtain k' where k: "k = Suc k'" by (cases k) auto
  with Suc show ?case by (simp add: window_Cons ac_simps)
qed simp

text \<open>Counters: the difference counts entries even after a counter has wrapped around.\<close>

lemma unat_diff_add:
  fixes p c :: u32
  assumes "unat (p - c) + k < 2 ^ 32"
  shows "unat (p + of_nat k - c) = unat (p - c) + k"
proof -
  have eq: "p + of_nat k - c = (p - c) + of_nat k" by simp
  from assms show ?thesis unfolding eq by (intro unat_add_of_nat_small) simp
qed

lemma unat_diff_consume:
  fixes p c :: u32
  assumes "k \<le> unat (p - c)"
  shows "unat (p - (c + of_nat k)) = unat (p - c) - k"
proof -
  have k: "k < 2 ^ 32" using assms unat_u32_bound [of "p - c"] by simp
  have "of_nat k \<le> p - c" using assms k by (simp add: word_le_nat_alt unat_of_nat)
  then have "unat ((p - c) - of_nat k) = unat (p - c) - k"
    using k by (simp add: unat_sub unat_of_nat)
  then show ?thesis by (simp add: algebra_simps)
qed

lemma unat_sub_wrap:
  fixes a b :: u32
  shows "unat a < unat b \<Longrightarrow> unat (a - b) = 2 ^ 32 + unat a - unat b"
  by (simp add: unat_sub_if_size word_size)

lemma prod_eq_cons_add: "p = c + of_nat (unat (p - c :: u32))"
  by simp

text \<open>The two slot counts of a ring in use.\<close>

lemma ring_free_ok:
  assumes "ring_ok n r"
  shows "ring_free (int n) r = Inr (int (n - length (ring_view n r)))"
  using assms
proof (rule ring_okE)
  fix p c
  assume r: "Producer r = Some p" "Consumer r = Some c" and le: "unat (p - c) \<le> n" and sz: "ring_size n"
    and v: "ring_view n r = window n c (Descs r) (unat (p - c))"
  have n: "unat (to_u32 (int n)) = n"
    using ring_size_bounds [OF sz] by (simp add: unat_to_u32)
  have "p - c \<le> to_u32 (int n)" using le n by (simp add: word_le_nat_alt)
  then have d: "unat (to_u32 (int n) - (p - c)) = n - unat (p - c)" using n by (simp add: unat_sub)
  then have "\<not> to_u32 (int n) < to_u32 (int n) - (p - c)" using n by (simp add: word_less_nat_alt)
  with r v arg_cong [OF d, of int] show ?thesis
    by (simp add: ring_free_def Let_def)
qed

lemma ring_used_ok:
  assumes "ring_ok n r"
  shows "ring_used (int n) r = Inr (int (length (ring_view n r)))"
  using assms
proof (rule ring_okE)
  fix p c
  assume r: "Producer r = Some p" "Consumer r = Some c" and le: "unat (p - c) \<le> n" and sz: "ring_size n"
    and v: "ring_view n r = window n c (Descs r) (unat (p - c))"
  have n: "unat (to_u32 (int n)) = n"
    using ring_size_bounds [OF sz] by (simp add: unat_to_u32)
  have "\<not> to_u32 (int n) < p - c" using n le by (simp add: word_less_nat_alt)
  with r v show ?thesis
    by (simp add: ring_used_def Let_def)
qed

end
