(* ===== verification/Xsk_Socket.thy ===== *)
theory Xsk_Socket
  imports Xsk_Ring
begin

text \<open>
  The AF_XDP socket of \<^verbatim>\<open>dumpframes/xdp.go\<close> (\<^verbatim>\<open>perf_event/xdp.go\<close> is the same file):
  its state, and the operations that user space runs on it. An operation returns its Go result with
  the changed socket, or the panic that ends it. System calls are arguments: the results the kernel
  gives them.
\<close>

section \<open>State\<close>

text \<open>\<open>unix.XDPDesc\<close>.\<close>

record Desc =
  Addr :: u64
  Len :: u32
  Opts :: u32

record socket_options =
  NumFrames :: int
  FrameSize :: int
  FillRingNumDescs :: int
  CompletionRingNumDescs :: int
  RxRingNumDescs :: int
  TxRingNumDescs :: int

definition DefaultSocketOptions :: socket_options where
  "DefaultSocketOptions = \<lparr>NumFrames = 128, FrameSize = 2048, FillRingNumDescs = 64,
     CompletionRingNumDescs = 64, RxRingNumDescs = 64, TxRingNumDescs = 64\<rparr>"

text \<open>
  The three slices \<open>rxDescs\<close>, \<open>getTXDescs\<close> and \<open>getRXDescs\<close> are buffers that are always
  resliced to length zero before use; what is left of them is their capacity.
\<close>

record socket =
  fd :: int
  umem :: "u8 list option"
  fillRing :: "u64 ring"
  rxRing :: "Desc ring"
  txRing :: "Desc ring"
  completionRing :: "u64 ring"
  ifindex :: int
  numTransmitted :: int
  numFilled :: int
  freeRXDescs :: "bool list"
  freeTXDescs :: "bool list"
  options :: socket_options
  cap_rxDescs :: nat
  cap_getTXDescs :: nat
  cap_getRXDescs :: nat

datatype errno = EINTR | EAGAIN | EBUSY | Errno nat

section \<open>Slots\<close>

definition NumFreeFillSlots :: "socket \<Rightarrow> go_panic + int" where
  "NumFreeFillSlots xsk = ring_free (FillRingNumDescs (options xsk)) (fillRing xsk)"

definition NumFreeTxSlots :: "socket \<Rightarrow> go_panic + int" where
  "NumFreeTxSlots xsk = ring_free (TxRingNumDescs (options xsk)) (txRing xsk)"

definition NumReceived :: "socket \<Rightarrow> go_panic + int" where
  "NumReceived xsk = ring_used (RxRingNumDescs (options xsk)) (rxRing xsk)"

definition NumCompleted :: "socket \<Rightarrow> go_panic + int" where
  "NumCompleted xsk = ring_used (CompletionRingNumDescs (options xsk)) (completionRing xsk)"

definition NumFilled :: "socket \<Rightarrow> int" where
  "NumFilled xsk = numFilled xsk"

definition NumTransmitted :: "socket \<Rightarrow> int" where
  "NumTransmitted xsk = numTransmitted xsk"

definition FD :: "socket \<Rightarrow> int" where
  "FD xsk = fd xsk"

section \<open>Producing and consuming descriptors\<close>

text \<open>\<open>free[addr / uint64(FrameSize)] = b\<close>.\<close>

definition mark_frame :: "socket_options \<Rightarrow> u64 \<Rightarrow> bool \<Rightarrow> bool list \<Rightarrow> go_panic + bool list" where
  "mark_frame opts addr b free =
     rbind (go_div addr (to_u64 (FrameSize opts))) (\<lambda>i. go_store free (unat i) b)"

fun fill_loop ::
  "socket_options \<Rightarrow> Desc list \<Rightarrow> u32 \<Rightarrow> u64 list \<Rightarrow> bool list \<Rightarrow> go_panic + (u32 \<times> u64 list \<times> bool list)" where
  "fill_loop opts [] prd ring free = Inr (prd, ring, free)"
| "fill_loop opts (desc # descs) prd ring free =
     rbind (go_store ring (ring_slot (FillRingNumDescs opts) prd) (Addr desc)) (\<lambda>ring.
     rbind (mark_frame opts (Addr desc) False free) (\<lambda>free.
       fill_loop opts descs (prd + 1) ring free))"

definition Fill :: "socket \<Rightarrow> Desc list \<Rightarrow> go_panic + (int \<times> socket)" where
  "Fill xsk descs =
     rbind (NumFreeFillSlots xsk) (\<lambda>numFreeSlots.
       let descs = (if numFreeSlots < int (length descs) then take (nat numFreeSlots) descs else descs) in
       rbind (deref (Producer (fillRing xsk))) (\<lambda>prd.
       rbind (fill_loop (options xsk) descs prd (Descs (fillRing xsk)) (freeRXDescs xsk))
         (\<lambda>(prd, ring, free).
           Inr (int (length descs),
             xsk\<lparr>fillRing := (fillRing xsk)\<lparr>Producer := Some prd, Descs := ring\<rparr>,
                 freeRXDescs := free, numFilled := numFilled xsk + int (length descs)\<rparr>))))"

fun recv_loop ::
  "socket_options \<Rightarrow> Desc list \<Rightarrow> nat \<Rightarrow> u32 \<Rightarrow> Desc list \<Rightarrow> bool list \<Rightarrow>
   go_panic + (u32 \<times> Desc list \<times> bool list)" where
  "recv_loop opts ring 0 cons descs free = Inr (cons, descs, free)"
| "recv_loop opts ring (Suc n) cons descs free =
     rbind (go_index ring (ring_slot (RxRingNumDescs opts) cons)) (\<lambda>d.
     rbind (mark_frame opts (Addr d) True free) (\<lambda>free.
       recv_loop opts ring n (cons + 1) (descs @ [d]) free))"

definition Receive :: "socket \<Rightarrow> int \<Rightarrow> go_panic + (Desc list \<times> socket)" where
  "Receive xsk num =
     rbind (NumReceived xsk) (\<lambda>numAvailable.
       let num = (if numAvailable < num then numAvailable else num) in
       rbind (deref (Consumer (rxRing xsk))) (\<lambda>cons.
       rbind (recv_loop (options xsk) (Descs (rxRing xsk)) (nat num) cons [] (freeRXDescs xsk))
         (\<lambda>(cons, descs, free).
           Inr (descs,
             xsk\<lparr>rxRing := (rxRing xsk)\<lparr>Consumer := Some cons\<rparr>, freeRXDescs := free,
                 numFilled := numFilled xsk - int (length descs)\<rparr>))))"

fun tx_loop ::
  "socket_options \<Rightarrow> Desc list \<Rightarrow> u32 \<Rightarrow> Desc list \<Rightarrow> bool list \<Rightarrow> go_panic + (u32 \<times> Desc list \<times> bool list)" where
  "tx_loop opts [] prd ring free = Inr (prd, ring, free)"
| "tx_loop opts (desc # descs) prd ring free =
     rbind (go_store ring (ring_slot (TxRingNumDescs opts) prd) desc) (\<lambda>ring.
     rbind (mark_frame opts (Addr desc) False free) (\<lambda>free.
       tx_loop opts descs (prd + 1) ring free))"

text \<open>
  The loop around \<open>sendto\<close>, on the results of the successive calls (\<open>None\<close> for success):
  \<open>None\<close> while the results are used up and the loop still runs.
\<close>

fun send_loop :: "errno option list \<Rightarrow> (go_panic + unit) option" where
  "send_loop [] = None"
| "send_loop (None # rs) = Some (Inr ())"
| "send_loop (Some EINTR # rs) = send_loop rs"
| "send_loop (Some EAGAIN # rs) = Some (Inr ())"
| "send_loop (Some EBUSY # rs) = Some (Inr ())"
| "send_loop (Some (Errno n) # rs) = Some (Inl (Panic_Errno n))"

text \<open>The part of \<open>Transmit\<close> before the system call, and the whole of it.\<close>

definition tx_submit :: "socket \<Rightarrow> Desc list \<Rightarrow> go_panic + (int \<times> socket)" where
  "tx_submit xsk descs =
     rbind (NumFreeTxSlots xsk) (\<lambda>numFreeSlots.
       let descs = (if numFreeSlots < int (length descs) then take (nat numFreeSlots) descs else descs) in
       rbind (deref (Producer (txRing xsk))) (\<lambda>prd.
       rbind (tx_loop (options xsk) descs prd (Descs (txRing xsk)) (freeTXDescs xsk))
         (\<lambda>(prd, ring, free).
           Inr (int (length descs),
             xsk\<lparr>txRing := (txRing xsk)\<lparr>Producer := Some prd, Descs := ring\<rparr>,
                 freeTXDescs := free, numTransmitted := numTransmitted xsk + int (length descs)\<rparr>))))"

definition Transmit :: "socket \<Rightarrow> Desc list \<Rightarrow> errno option list \<Rightarrow> (go_panic + (int \<times> socket)) option" where
  "Transmit xsk descs sendto =
     (case tx_submit xsk descs of
        Inl e \<Rightarrow> Some (Inl e)
      | Inr (numSubmitted, xsk) \<Rightarrow>
          map_option (\<lambda>r. rbind r (\<lambda>_. Inr (numSubmitted, xsk))) (send_loop sendto))"

fun complete_loop ::
  "socket_options \<Rightarrow> u64 list \<Rightarrow> nat \<Rightarrow> u32 \<Rightarrow> bool list \<Rightarrow> go_panic + (u32 \<times> bool list)" where
  "complete_loop opts ring 0 cons free = Inr (cons, free)"
| "complete_loop opts ring (Suc n) cons free =
     rbind (go_index ring (ring_slot (CompletionRingNumDescs opts) cons)) (\<lambda>addr.
     rbind (mark_frame opts addr True free) (\<lambda>free.
       complete_loop opts ring n (cons + 1) free))"

definition Complete :: "socket \<Rightarrow> int \<Rightarrow> go_panic + socket" where
  "Complete xsk n =
     rbind (deref (Consumer (completionRing xsk))) (\<lambda>cons.
     rbind (complete_loop (options xsk) (Descs (completionRing xsk)) (nat n) cons (freeTXDescs xsk))
       (\<lambda>(cons, free).
         Inr (xsk\<lparr>completionRing := (completionRing xsk)\<lparr>Consumer := Some cons\<rparr>, freeTXDescs := free,
                  numTransmitted := numTransmitted xsk - n\<rparr>)))"

section \<open>Waiting\<close>

text \<open>
  The results of the successive \<open>poll\<close> calls: the error, if any, and what the kernel has done to
  the shared rings while the call was blocked.
\<close>

fun poll_loop :: "(errno option \<times> (socket \<Rightarrow> socket)) list \<Rightarrow> socket \<Rightarrow> (errno option \<times> socket) option" where
  "poll_loop [] xsk = None"
| "poll_loop ((err, kern) # rs) xsk =
     (if err = Some EINTR then poll_loop rs (kern xsk) else Some (err, kern xsk))"

text \<open>\<open>POLLIN\<close> is 1 and \<open>POLLOUT\<close> is 4; only whether an event was asked for matters here.\<close>

definition poll_events :: "socket \<Rightarrow> int" where
  "poll_events xsk = (if 0 < numFilled xsk then 1 else 0) + (if 0 < numTransmitted xsk then 4 else 0)"

definition Poll ::
  "socket \<Rightarrow> (errno option \<times> (socket \<Rightarrow> socket)) list \<Rightarrow>
   (go_panic + (int \<times> int \<times> errno option \<times> socket)) option" where
  "Poll xsk poll =
     (if poll_events xsk = 0 then Some (Inr (0, 0, None, xsk))
      else
        (case poll_loop poll xsk of
           None \<Rightarrow> None
         | Some (Some err, xsk) \<Rightarrow> Some (Inr (0, 0, Some err, xsk))
         | Some (None, xsk) \<Rightarrow> Some (
             rbind (NumReceived xsk) (\<lambda>numReceived.
             rbind (NumCompleted xsk) (\<lambda>numCompleted.
             rbind (if 0 < numCompleted then Complete xsk numCompleted else Inr xsk) (\<lambda>xsk.
               Inr (numReceived, numCompleted, None, xsk)))))))"

section \<open>Descriptors and frames\<close>

function get_loop ::
  "socket_options \<Rightarrow> bool list \<Rightarrow> nat \<Rightarrow> nat \<Rightarrow> int \<Rightarrow> int \<Rightarrow> Desc list \<Rightarrow> go_panic + Desc list" where
  "get_loop opts freeList i end j n descs =
     (if i < end \<and> j < n then
        rbind (go_index freeList i) (\<lambda>f.
          if f then
            get_loop opts freeList (Suc i) end (j + 1) n
              (descs @ [\<lparr>Addr = of_nat i * to_u64 (FrameSize opts), Len = to_u32 (FrameSize opts), Opts = 0\<rparr>])
          else get_loop opts freeList (Suc i) end j n descs)
      else Inr descs)"
  by pat_completeness auto
termination
  by (relation "measure (\<lambda>(opts, fl, i, end, j, n, ds). end - i)") auto

declare get_loop.simps [simp del]

definition GetDescs :: "socket \<Rightarrow> int \<Rightarrow> bool \<Rightarrow> go_panic + Desc list" where
  "GetDescs xsk n rx =
     (let n = (if int (cap_getRXDescs xsk) < n then int (cap_getRXDescs xsk) else n);
          n = (if \<not> rx then (if int (cap_getTXDescs xsk) < n then int (cap_getTXDescs xsk) else n) else n) in
      if rx then get_loop (options xsk) (freeRXDescs xsk) 0 (cap_getRXDescs xsk) 0 n []
      else get_loop (options xsk) (freeTXDescs xsk) (cap_getRXDescs xsk) (length (freeTXDescs xsk)) 0 n [])"

definition GetFrame :: "socket \<Rightarrow> Desc \<Rightarrow> go_panic + u8 list" where
  "GetFrame xsk d =
     go_slice (case umem xsk of None \<Rightarrow> [] | Some m \<Rightarrow> m)
       (unat (Addr d)) (unat (Addr d + ucast (Len d)))"

section \<open>Closing and statistics\<close>

text \<open>
  What the process holds of the system: open file descriptors, and the memory mappings that a socket
  makes. The results of \<open>close\<close> and \<open>munmap\<close> are arguments; a call that reports no error has released its
  resource. The first error is returned.
\<close>

datatype mapping = Umem_Map | Fill_Map | Completion_Map | Rx_Map | Tx_Map

record resources =
  open_fds :: "int list"
  mappings :: "mapping list"

datatype close_error = Close_Failed errno | Unmap_Failed errno

definition Close ::
  "errno option \<Rightarrow> errno option \<Rightarrow> socket \<Rightarrow> resources \<Rightarrow> close_error option \<times> socket \<times> resources" where
  "Close close munmap xsk res =
     (let (errs, xsk, res) =
        (if fd xsk \<noteq> -1 then
           (case close of None \<Rightarrow> [] | Some e \<Rightarrow> [Close_Failed e],
            xsk\<lparr>fd := -1,
                completionRing := (completionRing xsk)\<lparr>Descs := []\<rparr>,
                txRing := (txRing xsk)\<lparr>Descs := []\<rparr>,
                rxRing := (rxRing xsk)\<lparr>Descs := []\<rparr>,
                fillRing := (fillRing xsk)\<lparr>Descs := []\<rparr>\<rparr>,
            if close = None then res\<lparr>open_fds := remove1 (fd xsk) (open_fds res)\<rparr> else res)
         else ([], xsk, res));
        (errs, xsk, res) =
        (if umem xsk \<noteq> None then
           (errs @ (case munmap of None \<Rightarrow> [] | Some e \<Rightarrow> [Unmap_Failed e]), xsk\<lparr>umem := None\<rparr>,
            if munmap = None then res\<lparr>mappings := remove1 Umem_Map (mappings res)\<rparr> else res)
         else (errs, xsk, res))
      in (if errs \<noteq> [] then Some (hd errs) else None, xsk, res))"

record 'k stats =
  Filled :: u64
  Received :: u64
  Transmitted :: u64
  Completed :: u64
  KernelStats :: 'k

text \<open>
  \<open>Stats\<close>. The type of the kernel's own statistics and its zero value belong to
  \<^verbatim>\<open>golang.org/x/sys/unix\<close>; \<open>getsockopt\<close> turns the zero value into what the kernel has
  written there and reports an error or not. The structure is returned in both cases.
\<close>

definition Stats ::
  "'k \<Rightarrow> ('k \<Rightarrow> errno option \<times> 'k) \<Rightarrow> socket \<Rightarrow> go_panic + ('k stats \<times> errno option)" where
  "Stats zero getsockopt xsk =
     rbind (deref (Consumer (fillRing xsk))) (\<lambda>filled.
     rbind (deref (Consumer (rxRing xsk))) (\<lambda>received.
       let (e, ks) = getsockopt zero in
       Inr (\<lparr>Filled = ucast filled, Received = ucast received,
             Transmitted = (case Consumer (txRing xsk) of None \<Rightarrow> 0 | Some c \<Rightarrow> ucast c),
             Completed = (case Consumer (completionRing xsk) of None \<Rightarrow> 0 | Some c \<Rightarrow> ucast c),
             KernelStats = ks\<rparr>, e)))"

end
