(* ===== verification/Xsk_Queues.thy ===== *)
theory Xsk_Queues
  imports Xsk_Socket
begin

text \<open>
  The socket operations of \<open>Xsk_Socket\<close> as operations on queues. Two interfaces state what the
  rings promise: one for the rings that user space fills (\<open>Fill\<close>, \<open>Transmit\<close>) and one for the
  rings it drains (\<open>Receive\<close>, \<open>Complete\<close>); each is interpreted on both of its operations.
\<close>

section \<open>Frames and their flags\<close>

definition frame_of :: "socket_options \<Rightarrow> u64 \<Rightarrow> nat" where
  "frame_of opts addr = unat addr div nat (FrameSize opts)"

text \<open>Set the flags of all the given frames.\<close>

definition marks :: "bool \<Rightarrow> nat list \<Rightarrow> bool list \<Rightarrow> bool list" where
  "marks b is free = fold (\<lambda>i f. f[i := b]) is free"

lemma length_marks [simp]: "length (marks b is free) = length free"
  unfolding marks_def by (induction "is" arbitrary: free) auto

lemma marks_Nil [simp]: "marks b [] free = free"
  by (simp add: marks_def)

lemma marks_Cons [simp]: "marks b (i # is) free = marks b is (free[i := b])"
  by (simp add: marks_def)

lemma nth_marks:
  "i < length free \<Longrightarrow> marks b is free ! i = (if i \<in> set is then b else free ! i)"
  by (induction "is" arbitrary: free) (auto simp: nth_list_update)

definition opts_ok :: "socket_options \<Rightarrow> bool" where
  "opts_ok opts \<longleftrightarrow> 0 < FrameSize opts \<and> FrameSize opts < 2 ^ 32 \<and> 0 \<le> NumFrames opts \<and>
     NumFrames opts * FrameSize opts < 2 ^ 63"

lemma mark_frame_ok:
  assumes "opts_ok opts" and "frame_of opts addr < length free"
  shows "mark_frame opts addr b free = Inr (free[frame_of opts addr := b])"
proof -
  have f: "unat (to_u64 (FrameSize opts)) = nat (FrameSize opts)"
    using assms(1) by (simp add: opts_ok_def unat_to_u64)
  then have "to_u64 (FrameSize opts) \<noteq> 0" using assms(1) by (auto simp: opts_ok_def)
  moreover have "unat (addr div to_u64 (FrameSize opts)) = frame_of opts addr"
    using f by (simp add: frame_of_def unat_div_distrib)
  ultimately show ?thesis using assms(2) by (simp add: mark_frame_def)
qed

section \<open>The loops\<close>

text \<open>
  Each loop advances its counter by the number of descriptors, writes or reads the slots from there
  on, and sets the flags of their frames.
\<close>

lemma slot_at:
  assumes "ring_size n" and "p = c + of_nat k"
  shows "ring_slot (int n) p = (unat c + k) mod n"
  using assms by (simp add: ring_slot_eq mod_add_of_nat)

lemma fill_loop_ok:
  assumes "opts_ok opts" and "FillRingNumDescs opts = int n" and "ring_size n"
  shows "length ring = n \<Longrightarrow> p = c + of_nat k \<Longrightarrow> k + length ds \<le> n \<Longrightarrow>
    \<forall>d \<in> set ds. frame_of opts (Addr d) < length free \<Longrightarrow>
    \<exists>ring'. fill_loop opts ds p ring free =
        Inr (p + of_nat (length ds), ring', marks False (map (\<lambda>d. frame_of opts (Addr d)) ds) free) \<and>
      length ring' = n \<and> window n c ring' (k + length ds) = window n c ring k @ map Addr ds"
proof (induction ds arbitrary: p k ring free)
  case (Cons d ds)
  let ?ring = "ring[(unat c + k) mod n := Addr d]" and ?free = "free[frame_of opts (Addr d) := False]"
  have "\<exists>ring'. fill_loop opts ds (p + 1) ?ring ?free =
        Inr (p + 1 + of_nat (length ds), ring', marks False (map (\<lambda>d. frame_of opts (Addr d)) ds) ?free) \<and>
      length ring' = n \<and> window n c ring' (Suc k + length ds) = window n c ?ring (Suc k) @ map Addr ds"
    using Cons.prems by (intro Cons.IH) auto
  moreover have "(unat c + k) mod n < length ring" using Cons.prems ring_size_bounds [OF assms(3)] by simp
  moreover have "ring_slot (FillRingNumDescs opts) p = (unat c + k) mod n"
    unfolding assms(2) using assms(3) Cons.prems(2) by (rule slot_at)
  moreover have "window n c ?ring (Suc k) = window n c ring k @ [Addr d]"
    using Cons.prems by (intro window_put) auto
  ultimately show ?case
    using Cons.prems mark_frame_ok [OF assms(1), of "Addr d" free False] by (auto simp: ac_simps)
qed (auto simp: assms)

lemma tx_loop_ok:
  assumes "opts_ok opts" and "TxRingNumDescs opts = int n" and "ring_size n"
  shows "length ring = n \<Longrightarrow> p = c + of_nat k \<Longrightarrow> k + length ds \<le> n \<Longrightarrow>
    \<forall>d \<in> set ds. frame_of opts (Addr d) < length free \<Longrightarrow>
    \<exists>ring'. tx_loop opts ds p ring free =
        Inr (p + of_nat (length ds), ring', marks False (map (\<lambda>d. frame_of opts (Addr d)) ds) free) \<and>
      length ring' = n \<and> window n c ring' (k + length ds) = window n c ring k @ ds"
proof (induction ds arbitrary: p k ring free)
  case (Cons d ds)
  let ?ring = "ring[(unat c + k) mod n := d]" and ?free = "free[frame_of opts (Addr d) := False]"
  have "\<exists>ring'. tx_loop opts ds (p + 1) ?ring ?free =
        Inr (p + 1 + of_nat (length ds), ring', marks False (map (\<lambda>d. frame_of opts (Addr d)) ds) ?free) \<and>
      length ring' = n \<and> window n c ring' (Suc k + length ds) = window n c ?ring (Suc k) @ ds"
    using Cons.prems by (intro Cons.IH) auto
  moreover have "(unat c + k) mod n < length ring" using Cons.prems ring_size_bounds [OF assms(3)] by simp
  moreover have "ring_slot (TxRingNumDescs opts) p = (unat c + k) mod n"
    unfolding assms(2) using assms(3) Cons.prems(2) by (rule slot_at)
  moreover have "window n c ?ring (Suc k) = window n c ring k @ [d]"
    using Cons.prems by (intro window_put) auto
  ultimately show ?case
    using Cons.prems mark_frame_ok [OF assms(1), of "Addr d" free False] by (auto simp: ac_simps)
qed (auto simp: assms)

lemma recv_loop_ok:
  assumes "opts_ok opts" and "RxRingNumDescs opts = int n" and "ring_size n" and "length ring = n"
  shows "\<forall>d \<in> set (window n c ring k). frame_of opts (Addr d) < length free \<Longrightarrow>
    recv_loop opts ring k c ds free =
      Inr (c + of_nat k, ds @ window n c ring k, marks True (map (\<lambda>d. frame_of opts (Addr d)) (window n c ring k)) free)"
proof (induction k arbitrary: c ds free)
  case (Suc k)
  have "unat c mod n < length ring" using assms(4) ring_size_bounds [OF assms(3)] by simp
  moreover have "ring_slot (RxRingNumDescs opts) c = unat c mod n"
    unfolding assms(2) using assms(3) by (rule ring_slot_eq)
  ultimately show ?case
    using Suc mark_frame_ok [OF assms(1), of "Addr (ring ! (unat c mod n))" free True]
    by (simp add: window_Cons [OF assms(3)] ac_simps)
qed simp

lemma complete_loop_ok:
  assumes "opts_ok opts" and "CompletionRingNumDescs opts = int n" and "ring_size n" and "length ring = n"
  shows "\<forall>a \<in> set (window n c ring k). frame_of opts a < length free \<Longrightarrow>
    complete_loop opts ring k c free =
      Inr (c + of_nat k, marks True (map (frame_of opts) (window n c ring k)) free)"
proof (induction k arbitrary: c free)
  case (Suc k)
  have "unat c mod n < length ring" using assms(4) ring_size_bounds [OF assms(3)] by simp
  moreover have "ring_slot (CompletionRingNumDescs opts) c = unat c mod n"
    unfolding assms(2) using assms(3) by (rule ring_slot_eq)
  ultimately show ?case
    using Suc mark_frame_ok [OF assms(1), of "ring ! (unat c mod n)" free True]
    by (simp add: window_Cons [OF assms(3)] ac_simps)
qed simp

section \<open>The operations on queues\<close>

abbreviation fill_size :: "socket \<Rightarrow> nat" where
  "fill_size x \<equiv> nat (FillRingNumDescs (options x))"

abbreviation rx_size :: "socket \<Rightarrow> nat" where
  "rx_size x \<equiv> nat (RxRingNumDescs (options x))"

abbreviation tx_size :: "socket \<Rightarrow> nat" where
  "tx_size x \<equiv> nat (TxRingNumDescs (options x))"

abbreviation comp_size :: "socket \<Rightarrow> nat" where
  "comp_size x \<equiv> nat (CompletionRingNumDescs (options x))"

abbreviation fill_queue :: "socket \<Rightarrow> u64 list" where
  "fill_queue x \<equiv> ring_view (fill_size x) (fillRing x)"

abbreviation rx_queue :: "socket \<Rightarrow> Desc list" where
  "rx_queue x \<equiv> ring_view (rx_size x) (rxRing x)"

abbreviation tx_queue :: "socket \<Rightarrow> Desc list" where
  "tx_queue x \<equiv> ring_view (tx_size x) (txRing x)"

abbreviation comp_queue :: "socket \<Rightarrow> u64 list" where
  "comp_queue x \<equiv> ring_view (comp_size x) (completionRing x)"

text \<open>The frame of an address exists.\<close>

definition addr_ok :: "socket \<Rightarrow> u64 \<Rightarrow> bool" where
  "addr_ok x a \<longleftrightarrow> frame_of (options x) a < nat (NumFrames (options x))"

text \<open>
  A socket as \<open>NewSocket\<close> returns it and as its operations keep it: four rings in use, one flag
  per frame for each direction, and rings that hold addresses of frames only.
\<close>

definition sock_ok :: "socket \<Rightarrow> bool" where
  "sock_ok x \<longleftrightarrow> opts_ok (options x) \<and>
     ring_ok (fill_size x) (fillRing x) \<and> ring_ok (rx_size x) (rxRing x) \<and>
     ring_ok (tx_size x) (txRing x) \<and> ring_ok (comp_size x) (completionRing x) \<and>
     length (freeRXDescs x) = nat (NumFrames (options x)) \<and>
     length (freeTXDescs x) = nat (NumFrames (options x)) \<and>
     cap_getRXDescs x = fill_size x \<and> cap_getTXDescs x = comp_size x \<and>
     list_all (addr_ok x) (fill_queue x) \<and> list_all (addr_ok x \<circ> Addr) (rx_queue x) \<and>
     list_all (addr_ok x \<circ> Addr) (tx_queue x) \<and> list_all (addr_ok x) (comp_queue x)"

lemma ring_ok_size: "ring_ok (nat k) r \<Longrightarrow> int (nat k) = k"
  using ring_size_bounds [of "nat k"] by (auto simp: ring_ok_def)

lemma list_all_take: "list_all P xs \<Longrightarrow> list_all P (take n xs)"
  by (auto simp: list_all_iff dest: in_set_takeD)

lemma list_all_drop: "list_all P xs \<Longrightarrow> list_all P (drop n xs)"
  by (auto simp: list_all_iff dest: in_set_dropD)

text \<open>How many of the given descriptors a ring with the given queue accepts.\<close>

definition fits :: "nat \<Rightarrow> 'a list \<Rightarrow> 'b list \<Rightarrow> nat" where
  "fits n q ds = min (length ds) (n - length q)"

lemma fits_take: "(if int (n - length q) < int (length ds) then take (nat (int (n - length q))) ds else ds) =
    take (fits n q ds) ds"
  by (auto simp: fits_def min_def)

lemma length_take_fits: "length (take (fits n q ds) ds) = fits n q ds"
  by (simp add: fits_def)

lemma fits_le: "length q \<le> n \<Longrightarrow> length q + fits n q ds \<le> n"
  by (auto simp: fits_def)

lemma ring_produced:
  assumes "ring_ok n r" and "Producer r = Some p" and "Consumer r = Some c"
    and "length ring' = n" and "unat (p - c) + k \<le> n"
    and "window n c ring' (unat (p - c) + k) = window n c (Descs r) (unat (p - c)) @ xs"
  shows "ring_ok n (r\<lparr>Producer := Some (p + of_nat k), Descs := ring'\<rparr>) \<and>
    ring_view n (r\<lparr>Producer := Some (p + of_nat k), Descs := ring'\<rparr>) = ring_view n r @ xs"
proof -
  have sz: "ring_size n" using assms(1) by (simp add: ring_ok_def)
  with assms(5) ring_size_bounds [OF sz] have "unat (p + of_nat k - c) = unat (p - c) + k"
    by (intro unat_diff_add) simp
  with assms sz show ?thesis by (simp add: ring_ok_def ring_view_def)
qed

lemma ring_consumed:
  assumes "ring_ok n r" and "Producer r = Some p" and "Consumer r = Some c" and "k \<le> length (ring_view n r)"
  shows "ring_ok n (r\<lparr>Consumer := Some (c + of_nat k)\<rparr>) \<and>
    ring_view n (r\<lparr>Consumer := Some (c + of_nat k)\<rparr>) = drop k (ring_view n r)"
proof -
  have sz: "ring_size n" using assms(1) by (simp add: ring_ok_def)
  have k: "k \<le> unat (p - c)" using assms(2-4) by (simp add: ring_view_def)
  note d = unat_diff_consume [OF k]
  show ?thesis
    using assms(1-3) k by (auto simp: ring_ok_def ring_view_def d drop_window [OF sz])
qed

lemma Fill_eq:
  assumes "sock_ok x" and "\<forall>d \<in> set ds. addr_ok x (Addr d)"
  defines "k \<equiv> fits (fill_size x) (fill_queue x) ds"
  shows "\<exists>r. Fill x ds = Inr (int k,
      x\<lparr>fillRing := r, freeRXDescs := marks False (map (\<lambda>d. frame_of (options x) (Addr d)) (take k ds)) (freeRXDescs x),
        numFilled := numFilled x + int k\<rparr>) \<and>
    ring_ok (fill_size x) r \<and> ring_view (fill_size x) r = fill_queue x @ map Addr (take k ds) \<and>
    Consumer r = Consumer (fillRing x)"
proof -
  have ok: "ring_ok (fill_size x) (fillRing x)" using assms(1) by (simp add: sock_ok_def)
  note n = ring_ok_size [OF ok]
  from ok obtain p c where r: "Producer (fillRing x) = Some p" "Consumer (fillRing x) = Some c"
    and le: "unat (p - c) \<le> fill_size x" "length (Descs (fillRing x)) = fill_size x"
    and sz: "ring_size (fill_size x)"
    and v: "fill_queue x = window (fill_size x) c (Descs (fillRing x)) (unat (p - c))"
    by (rule ring_okE)
  have free: "NumFreeFillSlots x = Inr (int (fill_size x - length (fill_queue x)))"
    using ring_free_ok [OF ok] n by (simp add: NumFreeFillSlots_def)
  have k: "unat (p - c) + length (take k ds) \<le> fill_size x"
    using fits_le [OF length_ring_view [OF ok], of ds] v by (simp only: k_def length_take_fits length_window)
  have "\<forall>d \<in> set (take k ds). frame_of (options x) (Addr d) < length (freeRXDescs x)"
    using assms(1,2) by (auto simp: addr_ok_def sock_ok_def dest: in_set_takeD)
  with assms(1) n sz le(2) k fill_loop_ok [of "options x" "fill_size x" "Descs (fillRing x)" p c "unat (p - c)"
      "take k ds" "freeRXDescs x"]
  obtain ring' where loop: "fill_loop (options x) (take k ds) p (Descs (fillRing x)) (freeRXDescs x) =
      Inr (p + of_nat (length (take k ds)), ring',
        marks False (map (\<lambda>d. frame_of (options x) (Addr d)) (take k ds)) (freeRXDescs x))"
    and ring': "length ring' = fill_size x"
      "window (fill_size x) c ring' (unat (p - c) + length (take k ds)) =
       window (fill_size x) c (Descs (fillRing x)) (unat (p - c)) @ map Addr (take k ds)"
    by (auto simp: sock_ok_def)
  have kd: "(if int (fill_size x - length (fill_queue x)) < int (length ds)
      then take (nat (int (fill_size x - length (fill_queue x)))) ds else ds) = take k ds"
    unfolding k_def by (rule fits_take)
  have kl: "length (take k ds) = k" unfolding k_def by (rule length_take_fits)
  have "Fill x ds = Inr (int k, x\<lparr>fillRing := (fillRing x)\<lparr>Producer := Some (p + of_nat k), Descs := ring'\<rparr>,
      freeRXDescs := marks False (map (\<lambda>d. frame_of (options x) (Addr d)) (take k ds)) (freeRXDescs x),
      numFilled := numFilled x + int k\<rparr>)"
    by (simp only: Fill_def free rbind_Inr Let_def kd r deref_simps loop kl prod.case)
  with ring_produced [OF ok r ring'(1) k ring'(2)] show ?thesis
    unfolding kl by (intro exI [of _ "(fillRing x)\<lparr>Producer := Some (p + of_nat k), Descs := ring'\<rparr>"]) simp
qed

lemma tx_submit_eq:
  assumes "sock_ok x" and "\<forall>d \<in> set ds. addr_ok x (Addr d)"
  defines "k \<equiv> fits (tx_size x) (tx_queue x) ds"
  shows "\<exists>r. tx_submit x ds = Inr (int k,
      x\<lparr>txRing := r, freeTXDescs := marks False (map (\<lambda>d. frame_of (options x) (Addr d)) (take k ds)) (freeTXDescs x),
        numTransmitted := numTransmitted x + int k\<rparr>) \<and>
    ring_ok (tx_size x) r \<and> ring_view (tx_size x) r = tx_queue x @ take k ds \<and>
    Consumer r = Consumer (txRing x)"
proof -
  have ok: "ring_ok (tx_size x) (txRing x)" using assms(1) by (simp add: sock_ok_def)
  note n = ring_ok_size [OF ok]
  from ok obtain p c where r: "Producer (txRing x) = Some p" "Consumer (txRing x) = Some c"
    and le: "unat (p - c) \<le> tx_size x" "length (Descs (txRing x)) = tx_size x"
    and sz: "ring_size (tx_size x)"
    and v: "tx_queue x = window (tx_size x) c (Descs (txRing x)) (unat (p - c))"
    by (rule ring_okE)
  have free: "NumFreeTxSlots x = Inr (int (tx_size x - length (tx_queue x)))"
    using ring_free_ok [OF ok] n by (simp add: NumFreeTxSlots_def)
  have k: "unat (p - c) + length (take k ds) \<le> tx_size x"
    using fits_le [OF length_ring_view [OF ok], of ds] v by (simp only: k_def length_take_fits length_window)
  have "\<forall>d \<in> set (take k ds). frame_of (options x) (Addr d) < length (freeTXDescs x)"
    using assms(1,2) by (auto simp: addr_ok_def sock_ok_def dest: in_set_takeD)
  with assms(1) n sz le(2) k tx_loop_ok [of "options x" "tx_size x" "Descs (txRing x)" p c "unat (p - c)"
      "take k ds" "freeTXDescs x"]
  obtain ring' where loop: "tx_loop (options x) (take k ds) p (Descs (txRing x)) (freeTXDescs x) =
      Inr (p + of_nat (length (take k ds)), ring',
        marks False (map (\<lambda>d. frame_of (options x) (Addr d)) (take k ds)) (freeTXDescs x))"
    and ring': "length ring' = tx_size x"
      "window (tx_size x) c ring' (unat (p - c) + length (take k ds)) =
       window (tx_size x) c (Descs (txRing x)) (unat (p - c)) @ take k ds"
    by (auto simp: sock_ok_def)
  have kd: "(if int (tx_size x - length (tx_queue x)) < int (length ds)
      then take (nat (int (tx_size x - length (tx_queue x)))) ds else ds) = take k ds"
    unfolding k_def by (rule fits_take)
  have kl: "length (take k ds) = k" unfolding k_def by (rule length_take_fits)
  have "tx_submit x ds = Inr (int k, x\<lparr>txRing := (txRing x)\<lparr>Producer := Some (p + of_nat k), Descs := ring'\<rparr>,
      freeTXDescs := marks False (map (\<lambda>d. frame_of (options x) (Addr d)) (take k ds)) (freeTXDescs x),
      numTransmitted := numTransmitted x + int k\<rparr>)"
    by (simp only: tx_submit_def free rbind_Inr Let_def kd r deref_simps loop kl prod.case)
  with ring_produced [OF ok r ring'(1) k ring'(2)] show ?thesis
    unfolding kl by (intro exI [of _ "(txRing x)\<lparr>Producer := Some (p + of_nat k), Descs := ring'\<rparr>"]) simp
qed

text \<open>\<open>Receive\<close> takes what is there, up to the number asked for; a negative number takes nothing.\<close>

lemma Receive_eq:
  fixes num :: int
  assumes "sock_ok x"
  defines "k \<equiv> min (nat num) (length (rx_queue x))"
  shows "\<exists>r. Receive x num = Inr (take k (rx_queue x),
      x\<lparr>rxRing := r,
        freeRXDescs := marks True (map (\<lambda>d. frame_of (options x) (Addr d)) (take k (rx_queue x))) (freeRXDescs x),
        numFilled := numFilled x - int k\<rparr>) \<and>
    ring_ok (rx_size x) r \<and> ring_view (rx_size x) r = drop k (rx_queue x) \<and>
    Producer r = Producer (rxRing x)"
proof -
  have ok: "ring_ok (rx_size x) (rxRing x)" using assms(1) by (simp add: sock_ok_def)
  note n = ring_ok_size [OF ok]
  from ok obtain p c where r: "Producer (rxRing x) = Some p" "Consumer (rxRing x) = Some c"
    and len: "length (Descs (rxRing x)) = rx_size x" and sz: "ring_size (rx_size x)"
    and v: "rx_queue x = window (rx_size x) c (Descs (rxRing x)) (unat (p - c))"
    by (rule ring_okE)
  have used: "NumReceived x = Inr (int (length (rx_queue x)))"
    using ring_used_ok [OF ok] n by (simp add: NumReceived_def)
  have k: "nat (if int (length (rx_queue x)) < num then int (length (rx_queue x)) else num) = k"
    by (auto simp: k_def)
  have w: "window (rx_size x) c (Descs (rxRing x)) k = take k (rx_queue x)"
    by (simp add: v take_window k_def)
  have "\<forall>d \<in> set (window (rx_size x) c (Descs (rxRing x)) k). frame_of (options x) (Addr d) < length (freeRXDescs x)"
    using assms(1) unfolding w by (auto simp: sock_ok_def addr_ok_def list_all_iff dest: in_set_takeD)
  from recv_loop_ok [OF _ n [symmetric] sz len this, of "[]"] assms(1)
  have loop: "recv_loop (options x) (Descs (rxRing x)) k c [] (freeRXDescs x) = Inr (c + of_nat k,
      take k (rx_queue x), marks True (map (\<lambda>d. frame_of (options x) (Addr d)) (take k (rx_queue x))) (freeRXDescs x))"
    by (simp add: sock_ok_def w)
  have "k \<le> length (rx_queue x)" by (simp add: k_def)
  moreover from this have "Receive x num = Inr (take k (rx_queue x),
      x\<lparr>rxRing := (rxRing x)\<lparr>Consumer := Some (c + of_nat k)\<rparr>,
        freeRXDescs := marks True (map (\<lambda>d. frame_of (options x) (Addr d)) (take k (rx_queue x))) (freeRXDescs x),
        numFilled := numFilled x - int k\<rparr>)"
    by (simp add: Receive_def used k r loop Let_def min_def)
  ultimately show ?thesis using ring_consumed [OF ok r, of k]
    by (intro exI [of _ "(rxRing x)\<lparr>Consumer := Some (c + of_nat k)\<rparr>"]) simp
qed

text \<open>\<open>Complete\<close> does not look at what is there: it is stated for the numbers that are available.\<close>

lemma Complete_eq:
  assumes "sock_ok x" and "k \<le> length (comp_queue x)"
  shows "\<exists>r. Complete x (int k) = Inr (x\<lparr>completionRing := r,
        freeTXDescs := marks True (map (frame_of (options x)) (take k (comp_queue x))) (freeTXDescs x),
        numTransmitted := numTransmitted x - int k\<rparr>) \<and>
    ring_ok (comp_size x) r \<and> ring_view (comp_size x) r = drop k (comp_queue x) \<and>
    Producer r = Producer (completionRing x)"
proof -
  have ok: "ring_ok (comp_size x) (completionRing x)" using assms(1) by (simp add: sock_ok_def)
  note n = ring_ok_size [OF ok]
  from ok obtain p c where r: "Producer (completionRing x) = Some p" "Consumer (completionRing x) = Some c"
    and len: "length (Descs (completionRing x)) = comp_size x" and sz: "ring_size (comp_size x)"
    and v: "comp_queue x = window (comp_size x) c (Descs (completionRing x)) (unat (p - c))"
    by (rule ring_okE)
  have w: "window (comp_size x) c (Descs (completionRing x)) k = take k (comp_queue x)"
    using assms(2) by (simp add: v take_window min_def)
  have "\<forall>a \<in> set (window (comp_size x) c (Descs (completionRing x)) k). frame_of (options x) a < length (freeTXDescs x)"
    using assms(1) unfolding w by (auto simp: sock_ok_def addr_ok_def list_all_iff dest: in_set_takeD)
  from complete_loop_ok [OF _ n [symmetric] sz len this] assms(1)
  have loop: "complete_loop (options x) (Descs (completionRing x)) k c (freeTXDescs x) = Inr (c + of_nat k,
      marks True (map (frame_of (options x)) (take k (comp_queue x))) (freeTXDescs x))"
    by (simp add: sock_ok_def w)
  from ring_consumed [OF ok r assms(2)] loop show ?thesis
    by (auto simp: Complete_def r)
qed

section \<open>Interfaces\<close>

text \<open>A ring that user space fills: as many descriptors as fit are appended, in order.\<close>

locale ring_producer =
  fixes submit :: "'s \<Rightarrow> Desc list \<Rightarrow> go_panic + (int \<times> 's)"
    and ok :: "'s \<Rightarrow> bool"
    and queue :: "'s \<Rightarrow> 'd list"
    and capacity :: "'s \<Rightarrow> nat"
    and item :: "Desc \<Rightarrow> 'd"
    and valid :: "'s \<Rightarrow> Desc \<Rightarrow> bool"
  assumes bounded: "ok s \<Longrightarrow> length (queue s) \<le> capacity s"
    and submit_law: "ok s \<Longrightarrow> \<forall>d \<in> set ds. valid s d \<Longrightarrow>
      \<exists>s'. submit s ds = Inr (int (fits (capacity s) (queue s) ds), s') \<and> ok s' \<and>
        capacity s' = capacity s \<and> valid s' = valid s \<and>
        queue s' = queue s @ map item (take (fits (capacity s) (queue s) ds) ds)"
begin

lemma submit_all:
  assumes "ok s" and "\<forall>d \<in> set ds. valid s d" and "length (queue s) + length ds \<le> capacity s"
  shows "\<exists>s'. submit s ds = Inr (int (length ds), s') \<and> ok s' \<and> queue s' = queue s @ map item ds"
proof -
  from assms(3) have "fits (capacity s) (queue s) ds = length ds" by (simp add: fits_def)
  with submit_law [OF assms(1,2)] show ?thesis by auto
qed

lemma submit_full:
  assumes "ok s" and "\<forall>d \<in> set ds. valid s d" and "length (queue s) = capacity s"
  shows "\<exists>s'. submit s ds = Inr (0, s') \<and> ok s' \<and> queue s' = queue s"
proof -
  from assms(3) have "fits (capacity s) (queue s) ds = 0" by (simp add: fits_def)
  with submit_law [OF assms(1,2)] show ?thesis by auto
qed

text \<open>Submitting what was left over again changes nothing until the other side has made room.\<close>

lemma submit_rest:
  assumes "ok s" and ds: "\<forall>d \<in> set ds. valid s d" and "submit s ds = Inr (k, s')"
  shows "\<exists>s''. submit s' (drop (nat k) ds) = Inr (0, s'') \<and> queue s'' = queue s'"
proof -
  from submit_law [OF assms(1,2)] assms(3) have k: "nat k = fits (capacity s) (queue s) ds"
    and s': "ok s'" "capacity s' = capacity s" "valid s' = valid s"
    and q: "queue s' = queue s @ map item (take (nat k) ds)" by auto
  have v: "\<forall>d \<in> set (drop (nat k) ds). valid s' d" using ds s'(3) by (auto dest: in_set_dropD)
  show ?thesis
  proof (cases "nat k = length ds")
    case True
    with submit_law [OF s'(1) v] show ?thesis by (auto simp: fits_def)
  next
    case False
    then have "length (queue s') = capacity s'"
      using k q s' bounded [OF assms(1)] by (auto simp: fits_def min_def split: if_splits)
    with submit_full [OF s'(1) v] show ?thesis by auto
  qed
qed

end

text \<open>A ring that user space drains: the oldest entries go first.\<close>

locale ring_consumer =
  fixes consume :: "'s \<Rightarrow> nat \<Rightarrow> go_panic + 's"
    and ok :: "'s \<Rightarrow> bool"
    and queue :: "'s \<Rightarrow> 'd list"
  assumes consume_law: "ok s \<Longrightarrow> n \<le> length (queue s) \<Longrightarrow>
    \<exists>s'. consume s n = Inr s' \<and> ok s' \<and> queue s' = drop n (queue s)"
begin

lemma consume_all:
  assumes "ok s"
  shows "\<exists>s'. consume s (length (queue s)) = Inr s' \<and> ok s' \<and> queue s' = []"
  using consume_law [OF assms, of "length (queue s)"] by simp

lemma consume_steps:
  assumes "ok s" and "m + n \<le> length (queue s)"
  shows "\<exists>s'. rbind (consume s m) (\<lambda>s. consume s n) = Inr s' \<and> ok s' \<and> queue s' = drop (m + n) (queue s)"
proof -
  from assms consume_law [of s m] obtain s1 where
    "consume s m = Inr s1" "ok s1" "queue s1 = drop m (queue s)" by auto
  with assms consume_law [of s1 n] show ?thesis by (auto simp: add.commute)
qed

end

section \<open>The four rings provide the interfaces\<close>

lemma addr_ok_upd:
  "addr_ok (x\<lparr>fillRing := r, freeRXDescs := f, numFilled := k\<rparr>) = addr_ok x"
  "addr_ok (x\<lparr>rxRing := r', freeRXDescs := f, numFilled := k\<rparr>) = addr_ok x"
  "addr_ok (x\<lparr>txRing := r', freeTXDescs := f, numTransmitted := k\<rparr>) = addr_ok x"
  "addr_ok (x\<lparr>completionRing := r, freeTXDescs := f, numTransmitted := k\<rparr>) = addr_ok x"
  by (simp_all add: addr_ok_def fun_eq_iff)

lemma sock_ok_Fill:
  assumes "sock_ok x" and "ring_ok (fill_size x) r" and "list_all (addr_ok x) (ring_view (fill_size x) r)"
    and "length f = length (freeRXDescs x)"
  shows "sock_ok (x\<lparr>fillRing := r, freeRXDescs := f, numFilled := k\<rparr>)"
  using assms by (simp add: sock_ok_def addr_ok_upd)

lemma sock_ok_tx_submit:
  assumes "sock_ok x" and "ring_ok (tx_size x) r" and "list_all (addr_ok x \<circ> Addr) (ring_view (tx_size x) r)"
    and "length f = length (freeTXDescs x)"
  shows "sock_ok (x\<lparr>txRing := r, freeTXDescs := f, numTransmitted := k\<rparr>)"
  using assms by (simp add: sock_ok_def addr_ok_upd)

lemma sock_ok_Receive:
  assumes "sock_ok x" and "ring_ok (rx_size x) r" and "list_all (addr_ok x \<circ> Addr) (ring_view (rx_size x) r)"
    and "length f = length (freeRXDescs x)"
  shows "sock_ok (x\<lparr>rxRing := r, freeRXDescs := f, numFilled := k\<rparr>)"
  using assms by (simp add: sock_ok_def addr_ok_upd)

lemma sock_ok_Complete:
  assumes "sock_ok x" and "ring_ok (comp_size x) r" and "list_all (addr_ok x) (ring_view (comp_size x) r)"
    and "length f = length (freeTXDescs x)"
  shows "sock_ok (x\<lparr>completionRing := r, freeTXDescs := f, numTransmitted := k\<rparr>)"
  using assms by (simp add: sock_ok_def addr_ok_upd)

interpretation fill: ring_producer Fill sock_ok fill_queue fill_size Addr "\<lambda>x d. addr_ok x (Addr d)"
proof
  fix x :: socket and ds :: "Desc list"
  assume x: "sock_ok x"
  then show "length (fill_queue x) \<le> fill_size x" by (auto simp: sock_ok_def intro: length_ring_view)
  let ?k = "fits (fill_size x) (fill_queue x) ds"
  assume ds: "\<forall>d \<in> set ds. addr_ok x (Addr d)"
  from Fill_eq [OF x ds] obtain r where
    F: "Fill x ds = Inr (int ?k, x\<lparr>fillRing := r,
      freeRXDescs := marks False (map (\<lambda>d. frame_of (options x) (Addr d)) (take ?k ds)) (freeRXDescs x),
      numFilled := numFilled x + int ?k\<rparr>)"
    and r: "ring_ok (fill_size x) r" "ring_view (fill_size x) r = fill_queue x @ map Addr (take ?k ds)" by blast
  have "list_all (addr_ok x) (ring_view (fill_size x) r)"
    using x ds r(2) by (auto simp: sock_ok_def list_all_iff dest: in_set_takeD)
  from sock_ok_Fill [OF x r(1) this] F r(2)
  show "\<exists>x'. Fill x ds = Inr (int ?k, x') \<and> sock_ok x' \<and> fill_size x' = fill_size x \<and>
      (\<lambda>d. addr_ok x' (Addr d)) = (\<lambda>d. addr_ok x (Addr d)) \<and> fill_queue x' = fill_queue x @ map Addr (take ?k ds)"
    by (auto simp: addr_ok_def)
qed

interpretation tx: ring_producer tx_submit sock_ok tx_queue tx_size "\<lambda>d. d" "\<lambda>x d. addr_ok x (Addr d)"
proof
  fix x :: socket and ds :: "Desc list"
  assume x: "sock_ok x"
  then show "length (tx_queue x) \<le> tx_size x" by (auto simp: sock_ok_def intro: length_ring_view)
  let ?k = "fits (tx_size x) (tx_queue x) ds"
  assume ds: "\<forall>d \<in> set ds. addr_ok x (Addr d)"
  from tx_submit_eq [OF x ds] obtain r where
    F: "tx_submit x ds = Inr (int ?k, x\<lparr>txRing := r,
      freeTXDescs := marks False (map (\<lambda>d. frame_of (options x) (Addr d)) (take ?k ds)) (freeTXDescs x),
      numTransmitted := numTransmitted x + int ?k\<rparr>)"
    and r: "ring_ok (tx_size x) r" "ring_view (tx_size x) r = tx_queue x @ take ?k ds" by blast
  have "list_all (addr_ok x \<circ> Addr) (ring_view (tx_size x) r)"
    using x ds r(2) by (auto simp: sock_ok_def list_all_iff dest: in_set_takeD)
  from sock_ok_tx_submit [OF x r(1) this] F r(2)
  show "\<exists>x'. tx_submit x ds = Inr (int ?k, x') \<and> sock_ok x' \<and> tx_size x' = tx_size x \<and>
      (\<lambda>d. addr_ok x' (Addr d)) = (\<lambda>d. addr_ok x (Addr d)) \<and> tx_queue x' = tx_queue x @ map (\<lambda>d. d) (take ?k ds)"
    by (auto simp: addr_ok_def)
qed

interpretation rx: ring_consumer "\<lambda>x n. rbind (Receive x (int n)) (\<lambda>(ds, x). Inr x)" sock_ok rx_queue
proof
  fix x :: socket and n :: nat
  assume x: "sock_ok x" and n: "n \<le> length (rx_queue x)"
  from Receive_eq [OF x, of "int n"] n obtain r where
    R: "Receive x (int n) = Inr (take n (rx_queue x), x\<lparr>rxRing := r,
      freeRXDescs := marks True (map (\<lambda>d. frame_of (options x) (Addr d)) (take n (rx_queue x))) (freeRXDescs x),
      numFilled := numFilled x - int n\<rparr>)"
    and r: "ring_ok (rx_size x) r" "ring_view (rx_size x) r = drop n (rx_queue x)"
    by (auto simp: min_def)
  have "list_all (addr_ok x \<circ> Addr) (ring_view (rx_size x) r)"
    using x r(2) by (simp add: sock_ok_def list_all_drop)
  from sock_ok_Receive [OF x r(1) this] R r(2)
  show "\<exists>x'. rbind (Receive x (int n)) (\<lambda>(ds, x). Inr x) = Inr x' \<and> sock_ok x' \<and> rx_queue x' = drop n (rx_queue x)"
    by simp
qed

interpretation comp: ring_consumer "\<lambda>x n. Complete x (int n)" sock_ok comp_queue
proof
  fix x :: socket and n :: nat
  assume x: "sock_ok x" and n: "n \<le> length (comp_queue x)"
  from Complete_eq [OF x n] obtain r where
    R: "Complete x (int n) = Inr (x\<lparr>completionRing := r,
      freeTXDescs := marks True (map (frame_of (options x)) (take n (comp_queue x))) (freeTXDescs x),
      numTransmitted := numTransmitted x - int n\<rparr>)"
    and r: "ring_ok (comp_size x) r" "ring_view (comp_size x) r = drop n (comp_queue x)" by blast
  have "list_all (addr_ok x) (ring_view (comp_size x) r)"
    using x r(2) by (simp add: sock_ok_def list_all_drop)
  from sock_ok_Complete [OF x r(1) this] R r(2)
  show "\<exists>x'. Complete x (int n) = Inr x' \<and> sock_ok x' \<and> comp_queue x' = drop n (comp_queue x)"
    by simp
qed

text \<open>The slot counts of a well-formed socket, and \<open>Receive\<close> for every number.\<close>

lemma slot_counts:
  assumes "sock_ok x"
  shows "NumFreeFillSlots x = Inr (FillRingNumDescs (options x) - int (length (fill_queue x)))"
    and "NumFreeTxSlots x = Inr (TxRingNumDescs (options x) - int (length (tx_queue x)))"
    and "NumReceived x = Inr (int (length (rx_queue x)))"
    and "NumCompleted x = Inr (int (length (comp_queue x)))"
proof -
  have ok: "ring_ok (fill_size x) (fillRing x)" "ring_ok (tx_size x) (txRing x)"
      "ring_ok (rx_size x) (rxRing x)" "ring_ok (comp_size x) (completionRing x)"
    using assms by (simp_all add: sock_ok_def)
  note n = ok [THEN ring_ok_size] and le = ok [THEN length_ring_view]
  show "NumFreeFillSlots x = Inr (FillRingNumDescs (options x) - int (length (fill_queue x)))"
    using ring_free_ok [OF ok(1)] n(1) le(1) by (simp add: NumFreeFillSlots_def of_nat_diff)
  show "NumFreeTxSlots x = Inr (TxRingNumDescs (options x) - int (length (tx_queue x)))"
    using ring_free_ok [OF ok(2)] n(2) le(2) by (simp add: NumFreeTxSlots_def of_nat_diff)
  show "NumReceived x = Inr (int (length (rx_queue x)))"
    using ring_used_ok [OF ok(3)] n(3) by (simp add: NumReceived_def)
  show "NumCompleted x = Inr (int (length (comp_queue x)))"
    using ring_used_ok [OF ok(4)] n(4) by (simp add: NumCompleted_def)
qed

lemma Receive_sock_ok:
  assumes "sock_ok x" and "Receive x num = Inr (ds, x')"
  shows "sock_ok x'"
proof -
  from Receive_eq [OF assms(1), of num] assms(2) obtain r where
    x': "x' = x\<lparr>rxRing := r, freeRXDescs := marks True (map (\<lambda>d. frame_of (options x) (Addr d)) ds) (freeRXDescs x),
      numFilled := numFilled x - int (length ds)\<rparr>"
    and r: "ring_ok (rx_size x) r" "ring_view (rx_size x) r = drop (min (nat num) (length (rx_queue x))) (rx_queue x)"
    by auto
  have "list_all (addr_ok x \<circ> Addr) (ring_view (rx_size x) r)"
    using assms(1) r(2) by (simp add: sock_ok_def list_all_drop)
  from sock_ok_Receive [OF assms(1) r(1) this] show ?thesis by (simp add: x')
qed

section \<open>Sample sockets\<close>

text \<open>
  A socket with rings of four entries and eight frames, whose counters are about to wrap around;
  it serves the witnesses.
\<close>

definition demo_opts :: socket_options where
  "demo_opts = \<lparr>NumFrames = 8, FrameSize = 2048, FillRingNumDescs = 4, CompletionRingNumDescs = 4,
     RxRingNumDescs = 4, TxRingNumDescs = 4\<rparr>"

definition demo_ring :: "u32 \<Rightarrow> u32 \<Rightarrow> 'd list \<Rightarrow> 'd ring" where
  "demo_ring p c ds = \<lparr>Producer = Some p, Consumer = Some c, Descs = ds\<rparr>"

definition demo_desc :: "nat \<Rightarrow> Desc" where
  "demo_desc i = \<lparr>Addr = of_nat i * 2048, Len = 2048, Opts = 0\<rparr>"

definition demo_socket :: socket where
  "demo_socket = \<lparr>fd = 7, umem = Some (replicate 16384 0),
     fillRing = demo_ring 0xFFFFFFFE 0xFFFFFFFE [0, 0, 0, 0],
     rxRing = demo_ring 1 0xFFFFFFFF [demo_desc 3, demo_desc 0, demo_desc 0, demo_desc 2],
     txRing = demo_ring 0 0 [demo_desc 0, demo_desc 0, demo_desc 0, demo_desc 0],
     completionRing = demo_ring 0 0xFFFFFFFF [0, 0, 0, 10240],
     ifindex = 2, numTransmitted = 1, numFilled = 2,
     freeRXDescs = [True, True, False, False, True, True, True, True],
     freeTXDescs = [True, True, True, True, True, False, True, True],
     options = demo_opts, cap_rxDescs = 4, cap_getTXDescs = 4, cap_getRXDescs = 4\<rparr>"

lemma demo_ring_size [simp]: "ring_size 4"
  by (auto simp: ring_size_def intro!: image_eqI [of _ _ 2])

lemmas demo_socket_defs = demo_socket_def demo_opts_def demo_ring_def demo_desc_def

lemma demo_opts_ok: "opts_ok demo_opts"
  by (simp add: opts_ok_def demo_opts_def)

lemma demo_queues:
  "fill_queue demo_socket = []"
  "rx_queue demo_socket = [demo_desc 2, demo_desc 3]"
  "tx_queue demo_socket = []"
  "comp_queue demo_socket = [10240]"
  by (simp_all add: demo_socket_defs ring_view_def window_def upt_rec)

lemma demo_addr_ok: "addr_ok demo_socket a \<longleftrightarrow> unat a div 2048 < 8"
  by (simp add: addr_ok_def frame_of_def demo_socket_defs)

lemma demo_socket_ok: "sock_ok demo_socket"
  unfolding sock_ok_def demo_queues
  by (simp add: demo_addr_ok demo_opts_ok) (simp add: demo_socket_defs opts_ok_def ring_ok_def)

section \<open>Properties\<close>

text \<open>
  The four slot counts are exact for every value of the 32-bit counters, also when a counter has
  wrapped around: the free slots of the Fill and Tx rings are the capacity less the length of the
  queue, the used slots of the Rx and Completion rings are the length of the queue.
\<close>

lemma slot_counts_exact:
  assumes "sock_ok x"
  shows "NumFreeFillSlots x = Inr (FillRingNumDescs (options x) - int (length (fill_queue x))) \<and>
    NumFreeTxSlots x = Inr (TxRingNumDescs (options x) - int (length (tx_queue x))) \<and>
    NumReceived x = Inr (int (length (rx_queue x))) \<and>
    NumCompleted x = Inr (int (length (comp_queue x)))"
  using slot_counts [OF assms] by simp

text \<open>
  C14: \<open>Fill\<close> never panics on addresses of existing frames, and refines appending to a queue: it
  takes as many descriptors as there are free slots, from the front, appends their addresses to the
  Fill queue in order, clears the receive flags of exactly their frames, and counts them. The other
  queues and flags are untouched and the socket stays well-formed.
\<close>

theorem Fill_refines:
  assumes "sock_ok x" and "\<forall>d \<in> set ds. addr_ok x (Addr d)"
  shows "\<exists>k x'. Fill x ds = Inr (int k, x') \<and> k = min (length ds) (fill_size x - length (fill_queue x)) \<and>
    sock_ok x' \<and> fill_queue x' = fill_queue x @ map Addr (take k ds) \<and>
    numFilled x' = numFilled x + int k \<and>
    (\<forall>i < length (freeRXDescs x). freeRXDescs x' ! i \<longleftrightarrow>
       freeRXDescs x ! i \<and> i \<notin> (\<lambda>d. frame_of (options x) (Addr d)) ` set (take k ds)) \<and>
    rx_queue x' = rx_queue x \<and> tx_queue x' = tx_queue x \<and> comp_queue x' = comp_queue x \<and>
    freeTXDescs x' = freeTXDescs x \<and> numTransmitted x' = numTransmitted x"
proof -
  let ?k = "fits (fill_size x) (fill_queue x) ds"
  from fill.submit_law [OF assms] obtain x' where x': "Fill x ds = Inr (int ?k, x')" "sock_ok x'"
    "fill_queue x' = fill_queue x @ map Addr (take ?k ds)" by blast
  from Fill_eq [OF assms] x'(1) obtain r where eq: "x' = x\<lparr>fillRing := r,
      freeRXDescs := marks False (map (\<lambda>d. frame_of (options x) (Addr d)) (take ?k ds)) (freeRXDescs x),
      numFilled := numFilled x + int ?k\<rparr>" by auto
  have "freeRXDescs x' ! i \<longleftrightarrow> freeRXDescs x ! i \<and>
      i \<notin> (\<lambda>d. frame_of (options x) (Addr d)) ` set (take ?k ds)" if "i < length (freeRXDescs x)" for i
    using that by (simp add: eq nth_marks)
  moreover have "numFilled x' = numFilled x + int ?k \<and> rx_queue x' = rx_queue x \<and> tx_queue x' = tx_queue x \<and>
      comp_queue x' = comp_queue x \<and> freeTXDescs x' = freeTXDescs x \<and> numTransmitted x' = numTransmitted x"
    by (simp add: eq)
  ultimately show ?thesis using x' by (intro exI [of _ ?k] exI [of _ x']) (simp add: fits_def)
qed

theorem Fill_refines_witness:
  "\<exists>x'. Fill demo_socket [demo_desc 0, demo_desc 1] = Inr (2, x') \<and> fill_queue x' = [0, 2048]"
proof -
  have "\<forall>d \<in> set [demo_desc 0, demo_desc 1]. addr_ok demo_socket (Addr d)"
    by (simp add: demo_addr_ok demo_desc_def)
  from Fill_refines [OF demo_socket_ok this] show ?thesis
    unfolding demo_queues by (auto simp: demo_desc_def) (auto simp: demo_socket_defs)
qed

text \<open>
  C15: \<open>Receive\<close> never panics, takes the oldest entries of the Rx queue, as many as asked for and
  available (none for a negative number), returns them in order, and sets the receive flags of exactly
  their frames. Nothing else changes but the count, and the socket stays well-formed.
\<close>

theorem Receive_refines:
  assumes "sock_ok x"
  shows "\<exists>k x'. Receive x num = Inr (take k (rx_queue x), x') \<and> k = min (nat num) (length (rx_queue x)) \<and>
    sock_ok x' \<and> rx_queue x' = drop k (rx_queue x) \<and> numFilled x' = numFilled x - int k \<and>
    (\<forall>i < length (freeRXDescs x). freeRXDescs x' ! i \<longleftrightarrow>
       freeRXDescs x ! i \<or> i \<in> (\<lambda>d. frame_of (options x) (Addr d)) ` set (take k (rx_queue x))) \<and>
    fill_queue x' = fill_queue x \<and> tx_queue x' = tx_queue x \<and> comp_queue x' = comp_queue x \<and>
    freeTXDescs x' = freeTXDescs x \<and> numTransmitted x' = numTransmitted x"
proof -
  let ?k = "min (nat num) (length (rx_queue x))"
  from Receive_eq [OF assms, of num] obtain r where
    R: "Receive x num = Inr (take ?k (rx_queue x), x\<lparr>rxRing := r,
      freeRXDescs := marks True (map (\<lambda>d. frame_of (options x) (Addr d)) (take ?k (rx_queue x))) (freeRXDescs x),
      numFilled := numFilled x - int ?k\<rparr>)" (is "_ = Inr (_, ?x')")
    and r: "ring_ok (rx_size x) r" "ring_view (rx_size x) r = drop ?k (rx_queue x)" by blast
  have "sock_ok ?x'" using Receive_sock_ok [OF assms R] .
  moreover have "freeRXDescs ?x' ! i \<longleftrightarrow> freeRXDescs x ! i \<or>
      i \<in> (\<lambda>d. frame_of (options x) (Addr d)) ` set (take ?k (rx_queue x))" if "i < length (freeRXDescs x)" for i
    using that by (simp add: nth_marks)
  ultimately show ?thesis using R r(2) by (intro exI [of _ ?k] exI [of _ ?x']) simp
qed

theorem Receive_refines_witness:
  "\<exists>x'. Receive demo_socket 1 = Inr ([demo_desc 2], x') \<and> rx_queue x' = [demo_desc 3]"
  using Receive_refines [OF demo_socket_ok, of 1] unfolding demo_queues by auto

lemma send_loop_EINTR: "send_loop (replicate m (Some EINTR) @ rs) = send_loop rs"
  by (induction m) auto

text \<open>
  C16: \<open>Transmit\<close> appends as many descriptors as the Tx ring has room for, from the front, clears
  the transmit flags of exactly their frames and counts them; then it repeats \<open>sendto\<close> as long as
  the call is interrupted, and returns with the first other result, whether the kernel accepted the
  call, asked to try again or was busy. Any other error is a panic.
\<close>

theorem Transmit_refines:
  assumes "sock_ok x" and "\<forall>d \<in> set ds. addr_ok x (Addr d)" and "r \<noteq> Some EINTR"
  shows "(\<forall>n. r = Some (Errno n) \<longrightarrow>
      Transmit x ds (replicate m (Some EINTR) @ r # rs) = Some (Inl (Panic_Errno n))) \<and>
    (r \<in> {None, Some EAGAIN, Some EBUSY} \<longrightarrow>
      (\<exists>k x'. Transmit x ds (replicate m (Some EINTR) @ r # rs) = Some (Inr (int k, x')) \<and>
        k = min (length ds) (tx_size x - length (tx_queue x)) \<and> sock_ok x' \<and>
        tx_queue x' = tx_queue x @ take k ds \<and> numTransmitted x' = numTransmitted x + int k \<and>
        (\<forall>i < length (freeTXDescs x). freeTXDescs x' ! i \<longleftrightarrow>
           freeTXDescs x ! i \<and> i \<notin> (\<lambda>d. frame_of (options x) (Addr d)) ` set (take k ds)) \<and>
        fill_queue x' = fill_queue x \<and> rx_queue x' = rx_queue x \<and> comp_queue x' = comp_queue x \<and>
        freeRXDescs x' = freeRXDescs x \<and> numFilled x' = numFilled x))"
proof -
  let ?k = "fits (tx_size x) (tx_queue x) ds"
  from tx.submit_law [OF assms(1,2)] obtain x' where x': "tx_submit x ds = Inr (int ?k, x')" "sock_ok x'"
    "tx_queue x' = tx_queue x @ take ?k ds" by auto
  from tx_submit_eq [OF assms(1,2)] x'(1) obtain r' where eq: "x' = x\<lparr>txRing := r',
      freeTXDescs := marks False (map (\<lambda>d. frame_of (options x) (Addr d)) (take ?k ds)) (freeTXDescs x),
      numTransmitted := numTransmitted x + int ?k\<rparr>" by auto
  have "freeTXDescs x' ! i \<longleftrightarrow> freeTXDescs x ! i \<and>
      i \<notin> (\<lambda>d. frame_of (options x) (Addr d)) ` set (take ?k ds)" if "i < length (freeTXDescs x)" for i
    using that by (simp add: eq nth_marks)
  moreover have "numTransmitted x' = numTransmitted x + int ?k \<and> fill_queue x' = fill_queue x \<and>
      rx_queue x' = rx_queue x \<and> comp_queue x' = comp_queue x \<and> freeRXDescs x' = freeRXDescs x \<and>
      numFilled x' = numFilled x" by (simp add: eq)
  moreover have "Transmit x ds (replicate m (Some EINTR) @ r # rs) = Some (Inr (int ?k, x'))"
    if "r \<in> {None, Some EAGAIN, Some EBUSY}"
    using that x'(1) by (auto simp: Transmit_def send_loop_EINTR)
  moreover have "Transmit x ds (replicate m (Some EINTR) @ r # rs) = Some (Inl (Panic_Errno n))"
    if "r = Some (Errno n)" for n
    using that x'(1) by (simp add: Transmit_def send_loop_EINTR)
  ultimately show ?thesis
    using x'(2,3) by (intro conjI allI impI exI [of _ ?k] exI [of _ x']) (auto simp: fits_def)
qed

theorem Transmit_refines_witness:
  "\<exists>x'. Transmit demo_socket [demo_desc 6] [Some EINTR, Some EBUSY] = Some (Inr (1, x')) \<and>
    tx_queue x' = [demo_desc 6]"
proof -
  have "\<forall>d \<in> set [demo_desc 6]. addr_ok demo_socket (Addr d)"
    by (simp add: demo_addr_ok demo_desc_def)
  from Transmit_refines [OF demo_socket_ok this, of "Some EBUSY" 1 "[]"] show ?thesis
    unfolding demo_queues by (auto simp: demo_socket_defs)
qed

lemma poll_loop_EINTR:
  "r \<noteq> Some EINTR \<Longrightarrow>
   poll_loop (map (Pair (Some EINTR)) ks @ (r, k) # rs) x = Some (r, k (fold (\<lambda>k. k) ks x))"
  by (induction ks arbitrary: x) auto

text \<open>
  C17: with work outstanding, \<open>Poll\<close> waits through any number of interrupted calls and then
  returns the number of received descriptors, leaves these in the Rx queue for \<open>Receive\<close>, and
  itself consumes every completion: afterwards the Completion queue is empty, the frames it held are
  free for transmission again and the outstanding count is lower by their number. Without work
  outstanding it returns zeros and does not wait.
\<close>

theorem Poll_refines:
  assumes "sock_ok y" and "y = kern (fold (\<lambda>k. k) ks x)"
  shows "(numFilled x \<le> 0 \<and> numTransmitted x \<le> 0 \<longrightarrow> Poll x [] = Some (Inr (0, 0, None, x))) \<and>
    (0 < numFilled x \<or> 0 < numTransmitted x \<longrightarrow>
      (\<exists>y'. Poll x (map (Pair (Some EINTR)) ks @ (None, kern) # rs) =
          Some (Inr (int (length (rx_queue y)), int (length (comp_queue y)), None, y')) \<and>
        sock_ok y' \<and> rx_queue y' = rx_queue y \<and> comp_queue y' = [] \<and>
        numTransmitted y' = numTransmitted y - int (length (comp_queue y)) \<and>
        (\<forall>i < length (freeTXDescs y). freeTXDescs y' ! i \<longleftrightarrow>
           freeTXDescs y ! i \<or> i \<in> frame_of (options y) ` set (comp_queue y))))"
proof -
  have ev: "poll_events x \<noteq> 0 \<longleftrightarrow> 0 < numFilled x \<or> 0 < numTransmitted x"
    by (auto simp: poll_events_def)
  note cnt = slot_counts(3,4) [OF assms(1)]
  from comp.consume_all [OF assms(1)] obtain y' where
    y': "Complete y (int (length (comp_queue y))) = Inr y'" "sock_ok y'" "comp_queue y' = []" by blast
  from Complete_eq [OF assms(1) order_refl] y'(1) obtain r where eq: "y' = y\<lparr>completionRing := r,
      freeTXDescs := marks True (map (frame_of (options y)) (comp_queue y)) (freeTXDescs y),
      numTransmitted := numTransmitted y - int (length (comp_queue y))\<rparr>" by auto
  have fl: "freeTXDescs y' ! i \<longleftrightarrow> freeTXDescs y ! i \<or> i \<in> frame_of (options y) ` set (comp_queue y)"
    if "i < length (freeTXDescs y)" for i
    using that by (simp add: eq nth_marks)
  have pl: "poll_loop (map (Pair (Some EINTR)) ks @ (None, kern) # rs) x = Some (None, y)"
    using assms(2) by (simp add: poll_loop_EINTR)
  have "\<exists>y'. Poll x (map (Pair (Some EINTR)) ks @ (None, kern) # rs) =
          Some (Inr (int (length (rx_queue y)), int (length (comp_queue y)), None, y')) \<and>
        sock_ok y' \<and> rx_queue y' = rx_queue y \<and> comp_queue y' = [] \<and>
        numTransmitted y' = numTransmitted y - int (length (comp_queue y)) \<and>
        (\<forall>i < length (freeTXDescs y). freeTXDescs y' ! i \<longleftrightarrow>
           freeTXDescs y ! i \<or> i \<in> frame_of (options y) ` set (comp_queue y))"
    if "0 < numFilled x \<or> 0 < numTransmitted x"
  proof (cases "comp_queue y = []")
    case True
    with that ev pl cnt assms(1) show ?thesis by (auto simp: Poll_def intro: exI [of _ y])
  next
    case False
    with that ev pl cnt y' fl show ?thesis
      by (intro exI [of _ y']) (simp add: Poll_def eq)
  qed
  then show ?thesis by (auto simp: Poll_def poll_events_def)
qed

theorem Poll_refines_witness:
  "\<exists>y'. Poll demo_socket [(Some EINTR, id), (None, id)] = Some (Inr (2, 1, None, y')) \<and> comp_queue y' = []"
  using Poll_refines [OF demo_socket_ok, of id "[id]" demo_socket "[]"]
  unfolding demo_queues by (auto simp: demo_socket_defs)

text \<open>
  C28: \<open>Complete\<close> does not check its argument against the number of completions that are there.
  Asked for more than the queue holds, it moves the consumer counter past the producer, frees frames
  by stale ring entries, and from then on \<open>NumCompleted\<close> reports a full ring of completions,
  although the documentation says that up to \<open>n\<close> descriptors are consumed.
\<close>

theorem Complete_overrun:
  assumes "sock_ok x" and "list_all (addr_ok x) (Descs (completionRing x))"
    and "length (comp_queue x) < k" and "k < 2 ^ 31"
  shows "\<exists>x'. Complete x (int k) = Inr x' \<and> numTransmitted x' = numTransmitted x - int k \<and>
    NumCompleted x' = Inr (CompletionRingNumDescs (options x))"
proof -
  let ?n = "comp_size x" and ?ring = "Descs (completionRing x)"
  have ok: "ring_ok ?n (completionRing x)" using assms(1) by (simp add: sock_ok_def)
  note n = ring_ok_size [OF ok]
  from ok obtain p c where r: "Producer (completionRing x) = Some p" "Consumer (completionRing x) = Some c"
    and len: "length ?ring = ?n" and sz: "ring_size ?n"
    and v: "comp_queue x = window ?n c ?ring (unat (p - c))"
    by (rule ring_okE)
  have b: "0 < ?n" "?n \<le> 2 ^ 31" using ring_size_bounds [OF sz] by simp_all
  have "set (window ?n c ?ring k) \<subseteq> set ?ring" using len b by (auto simp: window_def)
  then have "\<forall>a \<in> set (window ?n c ?ring k). frame_of (options x) a < length (freeTXDescs x)"
    using assms(1,2) by (auto simp: sock_ok_def addr_ok_def list_all_iff)
  from complete_loop_ok [OF _ n [symmetric] sz len this] assms(1)
  have loop: "complete_loop (options x) ?ring k c (freeTXDescs x) = Inr (c + of_nat k,
      marks True (map (frame_of (options x)) (window ?n c ?ring k)) (freeTXDescs x))" by (simp add: sock_ok_def)
  define l where "l = unat (p - c)"
  have l: "l < k" using assms(3) v by (simp add: l_def)
  have kw: "unat (of_nat k :: u32) = k" using assms(4) by (simp add: unat_of_nat)
  have eq: "p - (c + of_nat k) = (p - c) - of_nat k" by simp
  have "unat (p - (c + of_nat k)) = 2 ^ 32 + l - k"
    unfolding eq using l kw unat_sub_wrap [of "p - c" "of_nat k"] by (simp add: l_def)
  moreover have "unat (to_u32 (int ?n)) = ?n" using b by (simp add: unat_to_u32)
  ultimately have "to_u32 (int ?n) < p - (c + of_nat k)"
    using assms(4) b by (simp add: word_less_nat_alt)
  then show ?thesis using r loop n b
    by (simp add: Complete_def NumCompleted_def ring_used_def uint_to_u32)
qed

theorem Complete_overrun_witness:
  "\<exists>x'. Complete demo_socket 2 = Inr x' \<and> NumCompleted x' = Inr 4"
proof -
  have "list_all (addr_ok demo_socket) (Descs (completionRing demo_socket))"
  proof -
    have "Descs (completionRing demo_socket) = [0, 0, 0, 10240]" by (simp add: demo_socket_defs)
    then show ?thesis by (simp add: demo_addr_ok)
  qed
  from Complete_overrun [OF demo_socket_ok this, of 2] show ?thesis
    unfolding demo_queues by (auto simp: demo_socket_defs)
qed

end
