(* ===== verification/Xsk_Frames.thy ===== *)
theory Xsk_Frames
  imports Xsk_Queues "HOL-Library.Multiset"
begin

text \<open>
  Which frame is where. \<open>GetDescs\<close> hands out frames by their flags; the flags are right as long
  as frames travel the way the receive loop of \<^verbatim>\<open>dumpframes.go\<close> and a plain sender use them. The
  theory models the socket together with the kernel as a step relation, proves that every frame is
  in exactly one place in every reachable state, and shows where the flags go wrong: a received frame
  that is sent on is handed out again while the kernel still reads it.
\<close>

section \<open>\<open>GetDescs\<close> and \<open>GetFrame\<close>\<close>

text \<open>The descriptor of a whole frame.\<close>

definition frame_desc :: "socket_options \<Rightarrow> nat \<Rightarrow> Desc" where
  "frame_desc opts i = \<lparr>Addr = of_nat i * to_u64 (FrameSize opts), Len = to_u32 (FrameSize opts), Opts = 0\<rparr>"

lemma get_loop_eq:
  "end \<le> length free \<Longrightarrow> get_loop opts free i end j n descs =
     Inr (descs @ map (frame_desc opts) (take (nat (n - j)) (filter (\<lambda>i. free ! i) [i..<end])))"
proof (induction opts free i "end" j n descs rule: get_loop.induct)
  case (1 opts free i "end" j n descs)
  show ?case
  proof (cases "i < end \<and> j < n")
    case True
    then have i: "[i..<end] = i # [Suc i..<end]" by (simp add: upt_conv_Cons)
    have nj: "nat (n - j) = Suc (nat (n - (j + 1)))" using True by arith
    have ix: "go_index free i = Inr (free ! i)" using True "1.prems" by simp
    show ?thesis
      by (cases "free ! i"; subst get_loop.simps)
        (use True ix i nj "1.IH" "1.prems" in \<open>simp_all add: frame_desc_def\<close>)
  next
    case False
    then show ?thesis by (subst get_loop.simps) auto
  qed
qed

text \<open>The loop does not check that the frames it looks at exist.\<close>

lemma get_loop_panics:
  "length free < end \<Longrightarrow> i \<le> length free \<Longrightarrow>
   int (length (filter (\<lambda>i. free ! i) [i..<length free])) < n - j \<Longrightarrow>
   get_loop opts free i end j n descs = Inl Index_Out_Of_Range"
proof (induction opts free i "end" j n descs rule: get_loop.induct)
  case (1 opts free i "end" j n descs)
  then have go: "i < end \<and> j < n" by auto
  show ?case
  proof (cases "i < length free")
    case False
    with go show ?thesis by (subst get_loop.simps) (simp add: go_index_def)
  next
    case True
    then have i: "[i..<length free] = i # [Suc i..<length free]" by (simp add: upt_conv_Cons)
    show ?thesis
      by (cases "free ! i"; subst get_loop.simps) (use go True i "1.IH" "1.prems" in simp_all)
  qed
qed

lemma unat_frame_addr:
  assumes "opts_ok opts" and "i < nat (NumFrames opts)"
  shows "unat (Addr (frame_desc opts i)) = i * nat (FrameSize opts)"
    and "i * nat (FrameSize opts) + nat (FrameSize opts) \<le> nat (NumFrames opts * FrameSize opts)"
proof -
  let ?F = "nat (FrameSize opts)"
  have "Suc i * ?F \<le> nat (NumFrames opts) * ?F" using assms(2) by (intro mult_le_mono1) simp
  also have le: "nat (NumFrames opts) * ?F = nat (NumFrames opts * FrameSize opts)"
    using assms(1) by (simp add: nat_mult_distrib opts_ok_def)
  finally show b: "i * ?F + ?F \<le> nat (NumFrames opts * FrameSize opts)" by simp
  moreover have "nat (NumFrames opts * FrameSize opts) < 2 ^ 63"
    using assms(1) by (simp add: opts_ok_def nat_less_iff)
  ultimately have "i * ?F < 2 ^ 64" by simp
  moreover have "to_u64 (FrameSize opts) = of_nat ?F"
    using of_int_of_nat_eq [of ?F, where ?'a = "64 word"] assms(1) by (simp add: to_u64_def opts_ok_def)
  then have "of_nat i * to_u64 (FrameSize opts) = (of_nat (i * ?F) :: u64)" by simp
  ultimately show "unat (Addr (frame_desc opts i)) = i * ?F"
    by (simp add: frame_desc_def unat_of_nat del: of_nat_mult)
qed

lemma frame_of_desc:
  assumes "opts_ok opts" and "i < nat (NumFrames opts)"
  shows "frame_of opts (Addr (frame_desc opts i)) = i"
  using unat_frame_addr(1) [OF assms] assms(1) by (simp add: frame_of_def opts_ok_def)

lemma unat_frame_len:
  "opts_ok opts \<Longrightarrow> unat (Len (frame_desc opts i)) = nat (FrameSize opts)"
  by (simp add: frame_desc_def unat_to_u32 opts_ok_def)

text \<open>The two regions: frames below the size of the Fill ring are received into, the rest are sent from.\<close>

definition rx_free :: "socket \<Rightarrow> nat list" where
  "rx_free x = filter (\<lambda>i. freeRXDescs x ! i) [0..<fill_size x]"

definition tx_free :: "socket \<Rightarrow> nat list" where
  "tx_free x = filter (\<lambda>i. freeTXDescs x ! i) [fill_size x..<nat (NumFrames (options x))]"

lemma GetDescs_rx:
  assumes "sock_ok x" and "FillRingNumDescs (options x) \<le> NumFrames (options x)"
  shows "GetDescs x n True = Inr (map (frame_desc (options x)) (take (nat n) (rx_free x)))"
proof -
  have le: "fill_size x \<le> length (freeRXDescs x)" and c: "cap_getRXDescs x = fill_size x"
    using assms by (simp_all add: sock_ok_def)
  have "length (rx_free x) \<le> fill_size x" by (simp add: rx_free_def le_trans [OF length_filter_le])
  then have t: "take (nat (if int (fill_size x) < n then int (fill_size x) else n)) (rx_free x) = take (nat n) (rx_free x)"
    by auto
  show ?thesis
    unfolding t [symmetric] unfolding rx_free_def
    by (simp only: GetDescs_def Let_def c if_True simp_thms if_False get_loop_eq [OF le] append_Nil diff_zero)
qed

lemma GetDescs_tx:
  assumes "sock_ok x"
  shows "GetDescs x n False =
    Inr (map (frame_desc (options x)) (take (min (nat n) (min (fill_size x) (comp_size x))) (tx_free x)))"
proof -
  have c: "length (freeTXDescs x) = nat (NumFrames (options x))" "cap_getRXDescs x = fill_size x"
    "cap_getTXDescs x = comp_size x" using assms by (simp_all add: sock_ok_def)
  have le: "nat (NumFrames (options x)) \<le> length (freeTXDescs x)" using c by simp
  have t: "nat (if int (comp_size x) < (if int (fill_size x) < n then int (fill_size x) else n)
      then int (comp_size x) else (if int (fill_size x) < n then int (fill_size x) else n)) =
    min (nat n) (min (fill_size x) (comp_size x))" by (auto simp: min_def)
  show ?thesis
    unfolding t [symmetric] unfolding tx_free_def
    by (simp only: GetDescs_def Let_def c if_True simp_thms if_False get_loop_eq [OF le] append_Nil diff_zero)
qed

section \<open>The kernel's side of the rings\<close>

text \<open>The kernel produces into a ring, and consumes from one, an entry at a time.\<close>

definition kern_put :: "int \<Rightarrow> 'd \<Rightarrow> 'd ring \<Rightarrow> 'd ring" where
  "kern_put sz v r = r\<lparr>Producer := map_option (\<lambda>p. p + 1) (Producer r),
     Descs := (Descs r)[ring_slot sz (the (Producer r)) := v]\<rparr>"

definition kern_get :: "'d ring \<Rightarrow> 'd ring" where
  "kern_get r = r\<lparr>Consumer := map_option (\<lambda>c. c + 1) (Consumer r)\<rparr>"

lemma kern_put_view:
  assumes "ring_ok n r" and "length (ring_view n r) < n"
  shows "ring_ok n (kern_put (int n) v r)" and "ring_view n (kern_put (int n) v r) = ring_view n r @ [v]"
proof -
  from assms(1) obtain p c where r: "Producer r = Some p" "Consumer r = Some c"
    and len: "length (Descs r) = n" and sz: "ring_size n"
    and v: "ring_view n r = window n c (Descs r) (unat (p - c))" by (rule ring_okE)
  have slot: "ring_slot (int n) p = (unat c + unat (p - c)) mod n"
    by (rule slot_at [OF sz prod_eq_cons_add])
  have k: "unat (p - c) < n" using assms(2) v by simp
  have "window n c ((Descs r)[ring_slot (int n) p := v]) (unat (p - c) + 1) =
      window n c (Descs r) (unat (p - c)) @ [v]"
    using window_put [OF k len, of c v] by (simp add: slot)
  from ring_produced [OF assms(1) r _ _ this] len k r
  show "ring_ok n (kern_put (int n) v r)" "ring_view n (kern_put (int n) v r) = ring_view n r @ [v]"
    by (simp_all add: kern_put_def)
qed

lemma kern_get_view:
  assumes "ring_ok n r" and "ring_view n r = v # q"
  shows "ring_ok n (kern_get r)" and "ring_view n (kern_get r) = q"
proof -
  from assms(1) obtain p c where r: "Producer r = Some p" "Consumer r = Some c" by (rule ring_okE)
  from ring_consumed [OF assms(1) r, of 1] assms(2) r
  show "ring_ok n (kern_get r)" "ring_view n (kern_get r) = q" by (simp_all add: kern_get_def)
qed

section \<open>Socket and kernel as a step relation\<close>

text \<open>The addresses the kernel has taken from the Fill and Tx rings and not given back.\<close>

record machine =
  sock :: socket
  rx_held :: "u64 list"
  tx_held :: "u64 list"

text \<open>
  User space fills with, and sends from, descriptors it has got from \<open>GetDescs\<close>, of which it may
  have shortened the length; it receives, and completes what \<open>Poll\<close> found. The kernel takes
  addresses from the Fill ring in order, returns each with a frame received into it, and takes and
  completes descriptors of the Tx ring.
\<close>

inductive step :: "machine \<Rightarrow> machine \<Rightarrow> bool" where
  user_fill: "GetDescs (sock m) n True = Inr ds \<Longrightarrow> Fill (sock m) ds = Inr (k, x) \<Longrightarrow>
    step m (m\<lparr>sock := x\<rparr>)"
| user_receive: "Receive (sock m) n = Inr (ds, x) \<Longrightarrow> step m (m\<lparr>sock := x\<rparr>)"
| user_send: "GetDescs (sock m) n False = Inr ds \<Longrightarrow> map Addr ds' = map Addr ds \<Longrightarrow>
    Transmit (sock m) ds' r = Some (Inr (k, x)) \<Longrightarrow> step m (m\<lparr>sock := x\<rparr>)"
| user_complete: "NumCompleted (sock m) = Inr n \<Longrightarrow> Complete (sock m) n = Inr x \<Longrightarrow>
    step m (m\<lparr>sock := x\<rparr>)"
| kern_take_fill: "fill_queue (sock m) = a # q \<Longrightarrow>
    step m (m\<lparr>sock := (sock m)\<lparr>fillRing := kern_get (fillRing (sock m))\<rparr>, rx_held := rx_held m @ [a]\<rparr>)"
| kern_deliver: "a \<in> set (rx_held m) \<Longrightarrow> length (rx_queue (sock m)) < rx_size (sock m) \<Longrightarrow>
    frame_of (options (sock m)) (Addr d) = frame_of (options (sock m)) a \<Longrightarrow>
    unat (Addr d) + unat (Len d) \<le> (frame_of (options (sock m)) a + 1) * nat (FrameSize (options (sock m))) \<Longrightarrow>
    step m (m\<lparr>sock := (sock m)\<lparr>rxRing := kern_put (RxRingNumDescs (options (sock m))) d (rxRing (sock m))\<rparr>,
              rx_held := remove1 a (rx_held m)\<rparr>)"
| kern_take_tx: "tx_queue (sock m) = d # q \<Longrightarrow>
    step m (m\<lparr>sock := (sock m)\<lparr>txRing := kern_get (txRing (sock m))\<rparr>, tx_held := tx_held m @ [Addr d]\<rparr>)"
| kern_complete: "a \<in> set (tx_held m) \<Longrightarrow> length (comp_queue (sock m)) < comp_size (sock m) \<Longrightarrow>
    step m (m\<lparr>sock := (sock m)\<lparr>completionRing :=
                kern_put (CompletionRingNumDescs (options (sock m))) a (completionRing (sock m))\<rparr>,
              tx_held := remove1 a (tx_held m)\<rparr>)"

inductive_cases stepE: "step m m'"

text \<open>Where the frames are that are not free for receiving, and not free for sending.\<close>

definition rx_owned :: "machine \<Rightarrow> nat list" where
  "rx_owned m = (let f = frame_of (options (sock m)) in
     map f (fill_queue (sock m)) @ map f (rx_held m) @ map (\<lambda>d. f (Addr d)) (rx_queue (sock m)))"

definition tx_owned :: "machine \<Rightarrow> nat list" where
  "tx_owned m = (let f = frame_of (options (sock m)) in
     map (\<lambda>d. f (Addr d)) (tx_queue (sock m)) @ map f (tx_held m) @ map f (comp_queue (sock m)))"

definition rx_region :: "socket \<Rightarrow> nat list" where
  "rx_region x = [0..<fill_size x]"

definition tx_region :: "socket \<Rightarrow> nat list" where
  "tx_region x = [fill_size x..<nat (NumFrames (options x))]"

text \<open>
  Conservation of frames: the busy frames of each region, listed once each, are exactly the frames in
  the queues and in the hands of the kernel, and the counters count them.
\<close>

definition conserved :: "machine \<Rightarrow> bool" where
  "conserved m \<longleftrightarrow> sock_ok (sock m) \<and>
     FillRingNumDescs (options (sock m)) \<le> NumFrames (options (sock m)) \<and>
     mset (rx_owned m) = mset (filter (\<lambda>i. \<not> freeRXDescs (sock m) ! i) (rx_region (sock m))) \<and>
     mset (tx_owned m) = mset (filter (\<lambda>i. \<not> freeTXDescs (sock m) ! i) (tx_region (sock m))) \<and>
     numFilled (sock m) = int (length (rx_owned m)) \<and>
     numTransmitted (sock m) = int (length (tx_owned m))"

section \<open>Every step conserves the frames\<close>

lemma mset_filter_taken:
  assumes "distinct region" and "distinct taken" and "set taken \<subseteq> set region"
    and "\<And>i. i \<in> set taken \<Longrightarrow> P i" and "\<And>i. i \<in> set region \<Longrightarrow> Q i \<longleftrightarrow> P i \<and> i \<notin> set taken"
  shows "mset (filter (\<lambda>i. \<not> Q i) region) = mset (filter (\<lambda>i. \<not> P i) region) + mset taken"
proof -
  let ?A = "set (filter (\<lambda>i. \<not> P i) region)"
  have "set (filter (\<lambda>i. \<not> Q i) region) = ?A \<union> set taken" and "?A \<inter> set taken = {}"
    using assms(3-5) by auto
  then have "mset_set (set (filter (\<lambda>i. \<not> Q i) region)) = mset_set ?A + mset_set (set taken)"
    by (simp add: mset_set_Union)
  with assms(1,2) show ?thesis by (simp only: mset_set_set distinct_filter)
qed

lemma mset_drop_take: "mset xs = mset (drop k xs) + mset (take k xs)"
proof -
  have "mset xs = mset (take k xs @ drop k xs)" by simp
  then show ?thesis by (simp only: mset_append union_commute)
qed

lemma regions [simp]:
  "distinct (rx_region x)" "distinct (tx_region x)"
  "i \<in> set (rx_region x) \<longleftrightarrow> i < fill_size x"
  "i \<in> set (tx_region x) \<longleftrightarrow> fill_size x \<le> i \<and> i < nat (NumFrames (options x))"
  by (auto simp: rx_region_def tx_region_def)

lemma conserved_distinct:
  assumes "conserved m"
  shows "distinct (rx_owned m)" and "distinct (tx_owned m)"
    and "set (rx_owned m) = {i. i < fill_size (sock m) \<and> \<not> freeRXDescs (sock m) ! i}"
    and "set (tx_owned m) = {i. fill_size (sock m) \<le> i \<and> i < nat (NumFrames (options (sock m))) \<and>
      \<not> freeTXDescs (sock m) ! i}"
proof -
  have r: "mset (rx_owned m) = mset (filter (\<lambda>i. \<not> freeRXDescs (sock m) ! i) (rx_region (sock m)))"
    and t: "mset (tx_owned m) = mset (filter (\<lambda>i. \<not> freeTXDescs (sock m) ! i) (tx_region (sock m)))"
    using assms by (simp_all add: conserved_def)
  from mset_eq_imp_distinct_iff [OF r] show "distinct (rx_owned m)" by simp
  from mset_eq_imp_distinct_iff [OF t] show "distinct (tx_owned m)" by simp
  from mset_eq_setD [OF r] show "set (rx_owned m) = {i. i < fill_size (sock m) \<and> \<not> freeRXDescs (sock m) ! i}" by auto
  from mset_eq_setD [OF t] show "set (tx_owned m) = {i. fill_size (sock m) \<le> i \<and> i < nat (NumFrames (options (sock m))) \<and>
      \<not> freeTXDescs (sock m) ! i}" by auto
qed

lemma map_frame_of_desc:
  assumes "opts_ok opts" and "\<forall>i \<in> set is. i < nat (NumFrames opts)"
  shows "map (\<lambda>d. frame_of opts (Addr d)) (map (frame_desc opts) is) = is"
  using assms by (simp add: frame_of_desc map_idI)

lemma conserved_fill:
  assumes "conserved m" and "GetDescs (sock m) n True = Inr ds" and "Fill (sock m) ds = Inr (k, x)"
  shows "conserved (m\<lparr>sock := x\<rparr>)"
proof -
  define y where "y = sock m"
  have c: "sock_ok y" "FillRingNumDescs (options y) \<le> NumFrames (options y)" "opts_ok (options y)"
    and own: "mset (rx_owned m) = mset (filter (\<lambda>i. \<not> freeRXDescs y ! i) (rx_region y))"
    using assms(1) by (simp_all add: conserved_def sock_ok_def y_def)
  define fs where "fs = take (nat n) (rx_free y)"
  have fs_free: "\<forall>i \<in> set fs. i < fill_size y \<and> freeRXDescs y ! i" and "distinct fs"
    by (auto simp: fs_def rx_free_def dest: in_set_takeD)
  have fs_lt: "\<forall>i \<in> set fs. i < nat (NumFrames (options y))" using fs_free c(2) by force
  have ds: "ds = map (frame_desc (options y)) fs"
    using GetDescs_rx [OF c(1,2), of n] assms(2) by (simp add: fs_def y_def)
  have adr: "\<forall>d \<in> set ds. addr_ok y (Addr d)"
    using fs_lt by (auto simp: ds addr_ok_def frame_of_desc [OF c(3)])
  define j where "j = fits (fill_size y) (fill_queue y) ds"
  define taken where "taken = take j fs"
  have fr: "map (\<lambda>d. frame_of (options y) (Addr d)) (take j ds) = taken"
    using map_frame_of_desc [OF c(3), of taken] fs_lt
    by (auto simp: ds taken_def take_map dest: in_set_takeD)
  from Fill_eq [OF c(1) adr] fr assms(3) obtain r where
    x: "x = y\<lparr>fillRing := r, freeRXDescs := marks False taken (freeRXDescs y), numFilled := numFilled y + int j\<rparr>"
    and r: "ring_ok (fill_size y) r" "ring_view (fill_size y) r = fill_queue y @ map Addr (take j ds)"
    by (auto simp: j_def y_def)
  have "sock_ok x" using fill.submit_law [OF c(1) adr] assms(3) by (auto simp: y_def)
  moreover have lt: "length taken = j" by (simp add: taken_def j_def fits_def ds)
  have rxo: "mset (rx_owned (m\<lparr>sock := x\<rparr>)) = mset (rx_owned m) + mset taken"
    using arg_cong [OF fr, of mset] r(2) by (simp add: rx_owned_def x Let_def comp_def flip: y_def)
  moreover have "mset (filter (\<lambda>i. \<not> freeRXDescs x ! i) (rx_region x)) =
      mset (filter (\<lambda>i. \<not> freeRXDescs y ! i) (rx_region y)) + mset taken"
  proof -
    have reg: "rx_region x = rx_region y" by (simp add: x rx_region_def)
    have "freeRXDescs x ! i \<longleftrightarrow> freeRXDescs y ! i \<and> i \<notin> set taken" if "i \<in> set (rx_region y)" for i
      using that c(1,2) by (auto simp: x sock_ok_def nth_marks)
    moreover have "set taken \<subseteq> set fs" by (simp add: taken_def set_take_subset)
    ultimately show ?thesis
      unfolding reg using fs_free \<open>distinct fs\<close> by (intro mset_filter_taken) (auto simp: taken_def)
  qed
  moreover have "length (rx_owned (m\<lparr>sock := x\<rparr>)) = length (rx_owned m) + j"
    using arg_cong [OF rxo, of size] lt by simp
  moreover have "tx_owned (m\<lparr>sock := x\<rparr>) = tx_owned m" "tx_region x = tx_region y"
    by (simp_all add: tx_owned_def tx_region_def x flip: y_def)
  ultimately show ?thesis
    using assms(1) own c(2) by (simp add: conserved_def x flip: y_def)
qed

lemma conserved_receive:
  assumes "conserved m" and "Receive (sock m) n = Inr (ds, x)"
  shows "conserved (m\<lparr>sock := x\<rparr>)"
proof -
  define y where "y = sock m"
  have c: "sock_ok y" "FillRingNumDescs (options y) \<le> NumFrames (options y)"
    and own: "mset (rx_owned m) = mset (filter (\<lambda>i. \<not> freeRXDescs y ! i) (rx_region y))"
    using assms(1) by (simp_all add: conserved_def y_def)
  define k where "k = min (nat n) (length (rx_queue y))"
  define taken where "taken = map (\<lambda>d. frame_of (options y) (Addr d)) (take k (rx_queue y))"
  from Receive_eq [OF c(1), of n] assms(2) obtain r where
    x: "x = y\<lparr>rxRing := r, freeRXDescs := marks True taken (freeRXDescs y), numFilled := numFilled y - int k\<rparr>"
    and r: "ring_ok (rx_size y) r" "ring_view (rx_size y) r = drop k (rx_queue y)"
    by (auto simp: k_def taken_def y_def)
  have lt: "length taken = k" by (simp add: taken_def k_def)
  have "sock_ok x" using Receive_sock_ok [OF c(1)] assms(2) by (simp add: y_def)
  moreover have rxo: "mset (rx_owned m) = mset (rx_owned (m\<lparr>sock := x\<rparr>)) + mset taken"
  proof -
    have "mset (map (\<lambda>d. frame_of (options y) (Addr d)) (rx_queue y)) =
        mset (map (\<lambda>d. frame_of (options y) (Addr d)) (drop k (rx_queue y))) + mset taken"
      unfolding taken_def take_map [symmetric] drop_map [symmetric] by (rule mset_drop_take)
    then show ?thesis using r(2) by (simp add: rx_owned_def x Let_def flip: y_def)
  qed
  moreover have "mset (filter (\<lambda>i. \<not> freeRXDescs y ! i) (rx_region y)) =
      mset (filter (\<lambda>i. \<not> freeRXDescs x ! i) (rx_region x)) + mset taken"
  proof -
    have d: "distinct (rx_owned m)" and o: "set (rx_owned m) = {i. i < fill_size y \<and> \<not> freeRXDescs y ! i}"
      using conserved_distinct [OF assms(1)] by (simp_all add: y_def)
    have reg: "rx_region x = rx_region y" by (simp add: x rx_region_def)
    have "set taken \<subseteq> set (rx_owned m)" using mset_eq_setD [OF rxo [folded mset_append]] by auto
    moreover have "distinct taken" using mset_eq_imp_distinct_iff [OF rxo [folded mset_append]] d by simp
    moreover have "freeRXDescs x ! i \<longleftrightarrow> freeRXDescs y ! i \<or> i \<in> set taken" if "i < fill_size y" for i
      using that c by (auto simp: x sock_ok_def nth_marks)
    ultimately show ?thesis unfolding reg using o by (intro mset_filter_taken) auto
  qed
  moreover have "length (rx_owned m) = length (rx_owned (m\<lparr>sock := x\<rparr>)) + k"
    using arg_cong [OF rxo, of size] lt by simp
  moreover have "tx_owned (m\<lparr>sock := x\<rparr>) = tx_owned m" "tx_region x = tx_region y"
    by (simp_all add: tx_owned_def tx_region_def x flip: y_def)
  ultimately show ?thesis
    using assms(1) own c(2) by (simp add: conserved_def x flip: y_def)
qed

lemma conserved_send:
  assumes "conserved m" and "GetDescs (sock m) n False = Inr ds" and "map Addr ds' = map Addr ds"
    and "Transmit (sock m) ds' rs = Some (Inr (k, x))"
  shows "conserved (m\<lparr>sock := x\<rparr>)"
proof -
  define y where "y = sock m"
  have c: "sock_ok y" "opts_ok (options y)"
    and own: "mset (tx_owned m) = mset (filter (\<lambda>i. \<not> freeTXDescs y ! i) (tx_region y))"
    using assms(1) by (simp_all add: conserved_def sock_ok_def y_def)
  define fs where "fs = take (min (nat n) (min (fill_size y) (comp_size y))) (tx_free y)"
  have fs_free: "\<forall>i \<in> set fs. fill_size y \<le> i \<and> i < nat (NumFrames (options y)) \<and> freeTXDescs y ! i" and "distinct fs"
    by (auto simp: fs_def tx_free_def dest: in_set_takeD)
  have ds: "ds = map (frame_desc (options y)) fs"
    using GetDescs_tx [OF c(1), of n] assms(2) by (simp add: fs_def y_def)
  have frs: "map (\<lambda>d. frame_of (options y) (Addr d)) ds' = fs"
    using map_frame_of_desc [OF c(2), of fs] fs_free arg_cong [OF assms(3), of "map (frame_of (options y))"]
    by (simp add: ds comp_def)
  then have adr: "\<forall>d \<in> set ds'. addr_ok y (Addr d)"
    using fs_free by (auto simp: addr_ok_def)
  define j where "j = fits (tx_size y) (tx_queue y) ds'"
  define taken where "taken = take j fs"
  have fr: "map (\<lambda>d. frame_of (options y) (Addr d)) (take j ds') = taken"
    using frs by (simp add: taken_def flip: take_map)
  obtain k' where tx: "tx_submit y ds' = Inr (k', x)"
    using assms(4) by (auto simp: Transmit_def y_def split: sum.splits prod.splits) (auto simp: rbind_eq_Inr)
  from tx_submit_eq [OF c(1) adr] fr tx obtain r where
    x: "x = y\<lparr>txRing := r, freeTXDescs := marks False taken (freeTXDescs y), numTransmitted := numTransmitted y + int j\<rparr>"
    and r: "ring_ok (tx_size y) r" "ring_view (tx_size y) r = tx_queue y @ take j ds'"
    by (auto simp: j_def)
  have "sock_ok x" using tx.submit_law [OF c(1) adr] tx by auto
  moreover have lt: "length taken = j"
    using arg_cong [OF frs, of length] by (simp add: taken_def j_def fits_def)
  have txo: "mset (tx_owned (m\<lparr>sock := x\<rparr>)) = mset (tx_owned m) + mset taken"
    using arg_cong [OF fr, of mset] r(2) by (simp add: tx_owned_def x Let_def comp_def flip: y_def)
  moreover have "mset (filter (\<lambda>i. \<not> freeTXDescs x ! i) (tx_region x)) =
      mset (filter (\<lambda>i. \<not> freeTXDescs y ! i) (tx_region y)) + mset taken"
  proof -
    have reg: "tx_region x = tx_region y" by (simp add: x tx_region_def)
    have "freeTXDescs x ! i \<longleftrightarrow> freeTXDescs y ! i \<and> i \<notin> set taken" if "i \<in> set (tx_region y)" for i
      using that c(1) by (auto simp: x sock_ok_def nth_marks)
    moreover have "set taken \<subseteq> set fs" by (simp add: taken_def set_take_subset)
    ultimately show ?thesis
      unfolding reg using fs_free \<open>distinct fs\<close> by (intro mset_filter_taken) (auto simp: taken_def)
  qed
  moreover have "length (tx_owned (m\<lparr>sock := x\<rparr>)) = length (tx_owned m) + j"
    using arg_cong [OF txo, of size] lt by simp
  moreover have "rx_owned (m\<lparr>sock := x\<rparr>) = rx_owned m" "rx_region x = rx_region y"
    by (simp_all add: rx_owned_def rx_region_def x flip: y_def)
  ultimately show ?thesis
    using assms(1) own by (simp add: conserved_def x flip: y_def)
qed

lemma conserved_complete:
  assumes "conserved m" and "NumCompleted (sock m) = Inr n" and "Complete (sock m) n = Inr x"
  shows "conserved (m\<lparr>sock := x\<rparr>)"
proof -
  define y where "y = sock m"
  have c: "sock_ok y"
    and own: "mset (tx_owned m) = mset (filter (\<lambda>i. \<not> freeTXDescs y ! i) (tx_region y))"
    using assms(1) by (simp_all add: conserved_def y_def)
  define k where "k = length (comp_queue y)"
  have n: "n = int k"
    using assms(2) slot_counts(4) [OF c] by (simp add: k_def y_def)
  define taken where "taken = map (frame_of (options y)) (comp_queue y)"
  from Complete_eq [OF c, of k] assms(3) n obtain r where
    x: "x = y\<lparr>completionRing := r, freeTXDescs := marks True taken (freeTXDescs y), numTransmitted := numTransmitted y - int k\<rparr>"
    and r: "ring_view (comp_size y) r = []"
    by (auto simp: k_def taken_def y_def)
  have "sock_ok x" using comp.consume_law [OF c, of k] assms(3) n by (auto simp: y_def k_def)
  moreover have txo: "mset (tx_owned m) = mset (tx_owned (m\<lparr>sock := x\<rparr>)) + mset taken"
    using r by (simp add: tx_owned_def x taken_def Let_def flip: y_def)
  moreover have "mset (filter (\<lambda>i. \<not> freeTXDescs y ! i) (tx_region y)) =
      mset (filter (\<lambda>i. \<not> freeTXDescs x ! i) (tx_region x)) + mset taken"
  proof -
    have d: "distinct (tx_owned m)" and o: "set (tx_owned m) =
        {i. fill_size y \<le> i \<and> i < nat (NumFrames (options y)) \<and> \<not> freeTXDescs y ! i}"
      using conserved_distinct [OF assms(1)] by (simp_all add: y_def)
    have reg: "tx_region x = tx_region y" by (simp add: x tx_region_def)
    have "set taken \<subseteq> set (tx_owned m)" using mset_eq_setD [OF txo [folded mset_append]] by auto
    moreover have "distinct taken" using mset_eq_imp_distinct_iff [OF txo [folded mset_append]] d by simp
    moreover have "freeTXDescs x ! i \<longleftrightarrow> freeTXDescs y ! i \<or> i \<in> set taken" if "i < nat (NumFrames (options y))" for i
      using that c by (auto simp: x sock_ok_def nth_marks)
    ultimately show ?thesis unfolding reg using o by (intro mset_filter_taken) auto
  qed
  moreover have "length (tx_owned m) = length (tx_owned (m\<lparr>sock := x\<rparr>)) + k"
    using arg_cong [OF txo, of size] by (simp add: taken_def k_def)
  moreover have "rx_owned (m\<lparr>sock := x\<rparr>) = rx_owned m" "rx_region x = rx_region y"
    by (simp_all add: rx_owned_def rx_region_def x flip: y_def)
  ultimately show ?thesis
    using assms(1) own by (simp add: conserved_def x flip: y_def)
qed

text \<open>The kernel's steps move a frame from one place to the next.\<close>

lemma addr_ok_ring_upd [simp]:
  "addr_ok (x\<lparr>fillRing := r\<rparr>) = addr_ok x" "addr_ok (x\<lparr>rxRing := r'\<rparr>) = addr_ok x"
  "addr_ok (x\<lparr>txRing := r'\<rparr>) = addr_ok x" "addr_ok (x\<lparr>completionRing := r\<rparr>) = addr_ok x"
  by (simp_all add: addr_ok_def fun_eq_iff)

lemma mset_map_remove1:
  "a \<in> set xs \<Longrightarrow> f d = f a \<Longrightarrow> add_mset (f d) (image_mset f (mset (remove1 a xs))) = image_mset f (mset xs)"
  by (simp add: mset_remove1 flip: image_mset_add_mset)

lemma conserved_kernI:
  assumes "conserved m" and "sock_ok (sock m')" and "options (sock m') = options (sock m)"
    and "freeRXDescs (sock m') = freeRXDescs (sock m)" "freeTXDescs (sock m') = freeTXDescs (sock m)"
    and "numFilled (sock m') = numFilled (sock m)" "numTransmitted (sock m') = numTransmitted (sock m)"
    and "mset (rx_owned m') = mset (rx_owned m)" "mset (tx_owned m') = mset (tx_owned m)"
  shows "conserved m'"
  using assms mset_eq_length [OF assms(8)] mset_eq_length [OF assms(9)]
  by (simp add: conserved_def rx_region_def tx_region_def)

lemma conserved_take_fill:
  assumes "conserved m" and "fill_queue (sock m) = a # q"
  shows "conserved (m\<lparr>sock := (sock m)\<lparr>fillRing := kern_get (fillRing (sock m))\<rparr>, rx_held := rx_held m @ [a]\<rparr>)"
proof -
  have ok: "sock_ok (sock m)" "ring_ok (fill_size (sock m)) (fillRing (sock m))"
    using assms(1) by (simp_all add: conserved_def sock_ok_def)
  note g = kern_get_view [OF ok(2) assms(2)]
  show ?thesis
    using ok(1) g assms(2) by (intro conserved_kernI [OF assms(1)])
      (simp_all add: sock_ok_def rx_owned_def tx_owned_def Let_def)
qed

lemma conserved_take_tx:
  assumes "conserved m" and "tx_queue (sock m) = d # q"
  shows "conserved (m\<lparr>sock := (sock m)\<lparr>txRing := kern_get (txRing (sock m))\<rparr>, tx_held := tx_held m @ [Addr d]\<rparr>)"
proof -
  have ok: "sock_ok (sock m)" "ring_ok (tx_size (sock m)) (txRing (sock m))"
    using assms(1) by (simp_all add: conserved_def sock_ok_def)
  note g = kern_get_view [OF ok(2) assms(2)]
  show ?thesis
    using ok(1) g assms(2) by (intro conserved_kernI [OF assms(1)])
      (simp_all add: sock_ok_def rx_owned_def tx_owned_def Let_def)
qed

lemma conserved_deliver:
  assumes "conserved m" and "a \<in> set (rx_held m)" and "length (rx_queue (sock m)) < rx_size (sock m)"
    and "frame_of (options (sock m)) (Addr d) = frame_of (options (sock m)) a"
  shows "conserved (m\<lparr>sock := (sock m)\<lparr>rxRing := kern_put (RxRingNumDescs (options (sock m))) d (rxRing (sock m))\<rparr>,
      rx_held := remove1 a (rx_held m)\<rparr>)"
proof -
  have ok: "sock_ok (sock m)" "ring_ok (rx_size (sock m)) (rxRing (sock m))"
    using assms(1) by (simp_all add: conserved_def sock_ok_def)
  note n = ring_ok_size [OF ok(2)]
  note p = kern_put_view [OF ok(2) assms(3), of d, unfolded n]
  have "frame_of (options (sock m)) a \<in> set (rx_owned m)" using assms(2) by (simp add: rx_owned_def Let_def)
  then have "frame_of (options (sock m)) a < fill_size (sock m)"
    unfolding conserved_distinct(3) [OF assms(1)] by simp
  moreover have "fill_size (sock m) \<le> nat (NumFrames (options (sock m)))"
    using assms(1) by (auto simp: conserved_def intro: nat_mono)
  ultimately have "addr_ok (sock m) (Addr d)" using assms(4) by (simp add: addr_ok_def)
  then show ?thesis
    using ok(1) p mset_map_remove1 [OF assms(2), of "frame_of (options (sock m))" "Addr d"] assms(4)
    by (intro conserved_kernI [OF assms(1)]) (simp_all add: sock_ok_def rx_owned_def tx_owned_def Let_def)
qed

lemma conserved_kern_complete:
  assumes "conserved m" and "a \<in> set (tx_held m)" and "length (comp_queue (sock m)) < comp_size (sock m)"
  shows "conserved (m\<lparr>sock := (sock m)\<lparr>completionRing :=
      kern_put (CompletionRingNumDescs (options (sock m))) a (completionRing (sock m))\<rparr>,
      tx_held := remove1 a (tx_held m)\<rparr>)"
proof -
  have ok: "sock_ok (sock m)" "ring_ok (comp_size (sock m)) (completionRing (sock m))"
    using assms(1) by (simp_all add: conserved_def sock_ok_def)
  note n = ring_ok_size [OF ok(2)]
  note p = kern_put_view [OF ok(2) assms(3), of a, unfolded n]
  have "frame_of (options (sock m)) a \<in> set (tx_owned m)" using assms(2) by (simp add: tx_owned_def Let_def)
  then have "addr_ok (sock m) a"
    using conserved_distinct(4) [OF assms(1)] by (auto simp: addr_ok_def)
  then show ?thesis
    using ok(1) p mset_map_remove1 [OF assms(2), of "frame_of (options (sock m))" a]
    by (intro conserved_kernI [OF assms(1)]) (simp_all add: sock_ok_def rx_owned_def tx_owned_def Let_def)
qed

lemma step_conserved: "step m m' \<Longrightarrow> conserved m \<Longrightarrow> conserved m'"
  by (erule stepE)
    (auto intro: conserved_fill conserved_receive conserved_send conserved_complete conserved_take_fill
      conserved_deliver conserved_take_tx conserved_kern_complete)

lemma steps_conserved: "step\<^sup>*\<^sup>* m m' \<Longrightarrow> conserved m \<Longrightarrow> conserved m'"
  by (induction rule: rtranclp_induct) (auto intro: step_conserved)

lemma rx_owned_le:
  assumes "conserved m"
  shows "length (rx_owned m) \<le> fill_size (sock m)"
proof -
  note own = conserved_distinct(1,3) [OF assms]
  have "set (rx_owned m) \<subseteq> {..<fill_size (sock m)}" by (auto simp: own(2))
  from card_mono [OF finite_lessThan this] show ?thesis by (simp add: distinct_card [OF own(1)])
qed

text \<open>What \<open>GetDescs\<close> finds for receiving, and that \<open>Fill\<close> accepts all of it.\<close>

lemma GetDescs_Fill:
  assumes "conserved m"
  shows "\<exists>fs. GetDescs (sock m) n True = Inr (map (frame_desc (options (sock m))) fs) \<and>
    length fs = min (nat n) (fill_size (sock m) - length (rx_owned m)) \<and> sorted fs \<and> distinct fs \<and>
    set fs \<inter> set (rx_owned m) = {} \<and>
    (\<forall>i \<in> set fs. (i + 1) * nat (FrameSize (options (sock m))) \<le> nat (NumFrames (options (sock m)) * FrameSize (options (sock m)))) \<and>
    (\<exists>x. Fill (sock m) (map (frame_desc (options (sock m))) fs) = Inr (int (length fs), x))"
proof -
  let ?x = "sock m" and ?o = "options (sock m)"
  have c: "sock_ok ?x" "FillRingNumDescs ?o \<le> NumFrames ?o" "opts_ok ?o"
    using assms by (simp_all add: conserved_def sock_ok_def)
  note own = conserved_distinct(1,3) [OF assms]
  let ?fs = "take (nat n) (rx_free ?x)"
  have free: "set (rx_free ?x) = {i. i < fill_size ?x \<and> freeRXDescs ?x ! i}" by (auto simp: rx_free_def)
  have "distinct (rx_free ?x)" by (simp add: rx_free_def)
  then have "length (rx_free ?x) + length (rx_owned m) = card (set (rx_free ?x)) + card (set (rx_owned m))"
    using own(1) by (simp add: distinct_card)
  also have "\<dots> = card (set (rx_free ?x) \<union> set (rx_owned m))"
    by (rule card_Un_disjoint [symmetric]) (auto simp: free own(2))
  also have "set (rx_free ?x) \<union> set (rx_owned m) = {..<fill_size ?x}" by (auto simp: free own(2))
  finally have len: "length (rx_free ?x) = fill_size ?x - length (rx_owned m)" by simp
  have mem: "i < nat (NumFrames ?o)" if "i \<in> set ?fs" for i
    using in_set_takeD [OF that] c(2) by (force simp: free)
  have "length (fill_queue ?x) \<le> length (rx_owned m)" by (simp add: rx_owned_def Let_def)
  moreover have "length (rx_owned m) \<le> fill_size ?x"
    by (rule rx_owned_le [OF assms])
  ultimately have room: "length (fill_queue ?x) + length (map (frame_desc ?o) ?fs) \<le> fill_size ?x"
    unfolding length_map length_take len by arith
  have "\<forall>d \<in> set (map (frame_desc ?o) ?fs). addr_ok ?x (Addr d)"
    using mem by (auto simp: addr_ok_def frame_of_desc [OF c(3)])
  from fill.submit_all [OF c(1) this room] have "\<exists>x. Fill ?x (map (frame_desc ?o) ?fs) = Inr (int (length ?fs), x)"
    by auto
  moreover have "(i + 1) * nat (FrameSize ?o) \<le> nat (NumFrames ?o * FrameSize ?o)" if "i \<in> set ?fs" for i
    using unat_frame_addr(2) [OF c(3) mem [OF that]] by (simp add: algebra_simps)
  moreover have "sorted ?fs" "distinct ?fs"
    by (simp_all add: rx_free_def sorted_wrt_take sorted_filter [of id, simplified])
  moreover have "set ?fs \<inter> set (rx_owned m) = {}" using free own(2) by (auto dest: in_set_takeD)
  ultimately show ?thesis
    using GetDescs_rx [OF c(1,2), of n] len by (intro exI [of _ ?fs]) (simp add: min.commute)
qed

section \<open>Properties\<close>

text \<open>A machine for the witnesses: the sample socket, with nothing in the hands of the kernel.\<close>

definition demo_machine :: machine where
  "demo_machine = \<lparr>sock = demo_socket, rx_held = [], tx_held = []\<rparr>"

lemma demo_socket_fields [simp]:
  "sock demo_machine = demo_socket" "options demo_socket = demo_opts" "numFilled demo_socket = 2"
  "numTransmitted demo_socket = 1" "rx_held demo_machine = []" "tx_held demo_machine = []"
  by (simp_all add: demo_machine_def demo_socket_def)

lemma demo_owned: "rx_owned demo_machine = [2, 3]" "tx_owned demo_machine = [5]"
  by (simp_all only: rx_owned_def tx_owned_def Let_def demo_socket_fields demo_queues [unfolded demo_socket_fields])
    (simp_all add: frame_of_def demo_desc_def demo_opts_def)

lemma demo_conserved: "conserved demo_machine"
proof -
  have "filter (\<lambda>i. \<not> freeRXDescs demo_socket ! i) (rx_region demo_socket) = [2, 3]"
    "filter (\<lambda>i. \<not> freeTXDescs demo_socket ! i) (tx_region demo_socket) = [5]"
    by (simp_all add: rx_region_def tx_region_def demo_socket_defs upt_rec)
  then show ?thesis
    using demo_socket_ok demo_owned by (simp add: conserved_def) (simp add: demo_opts_def)
qed

text \<open>
  C2: conservation of frames. In every state that the socket and the kernel reach together, each frame
  of the receive region that is not free is in exactly one place: the Fill ring, the hands of the
  kernel, or the Rx ring; each frame of the send region that is not free is in exactly one of the Tx
  ring, the hands of the kernel and the Completion ring. No frame is lost, duplicated or shared by
  the two directions, and the counters \<open>numFilled\<close> and \<open>numTransmitted\<close> are exact.
\<close>

theorem frames_conserved:
  assumes "conserved m" and "step\<^sup>*\<^sup>* m m'"
  shows "distinct (rx_owned m' @ tx_owned m') \<and>
    (\<forall>i < nat (NumFrames (options (sock m'))).
       if i < fill_size (sock m') then i \<in> set (rx_owned m') \<longleftrightarrow> \<not> freeRXDescs (sock m') ! i
       else i \<in> set (tx_owned m') \<longleftrightarrow> \<not> freeTXDescs (sock m') ! i) \<and>
    numFilled (sock m') = int (length (rx_owned m')) \<and> numTransmitted (sock m') = int (length (tx_owned m')) \<and>
    sock_ok (sock m')"
proof -
  have c: "conserved m'" using steps_conserved [OF assms(2,1)] .
  note d = conserved_distinct [OF c]
  have "set (rx_owned m') \<inter> set (tx_owned m') = {}" unfolding d(3,4) by auto
  with c d show ?thesis by (auto simp: conserved_def)
qed

theorem frames_conserved_witness:
  "\<exists>ds x m'. Fill demo_socket ds = Inr (1, x) \<and> step demo_machine m' \<and> sock m' = x \<and>
     distinct (rx_owned m' @ tx_owned m') \<and> numFilled x = int (length (rx_owned m'))"
proof -
  obtain ds x where g: "GetDescs demo_socket 1 True = Inr ds" and f: "Fill demo_socket ds = Inr (1, x)"
    using GetDescs_Fill [OF demo_conserved, of 1] demo_owned by (auto simp: demo_opts_def)
  let ?m = "demo_machine\<lparr>sock := x\<rparr>"
  have st: "step demo_machine ?m" by (rule user_fill [of _ 1 ds 1]) (simp_all add: g f)
  then have "step\<^sup>*\<^sup>* demo_machine ?m" by blast
  from frames_conserved [OF demo_conserved this] f st show ?thesis
    by (intro exI [of _ ds] exI [of _ x] exI [of _ ?m]) simp
qed

text \<open>
  The receive path cannot get stuck between the rings: with an Rx ring at least as large as the
  Fill ring, as in the default options, whenever the kernel holds an address in a reachable state
  the Rx ring has room, so that some step delivers a frame into it.
\<close>

lemma kernel_can_deliver:
  assumes "conserved m" and "step\<^sup>*\<^sup>* m m'" and "fill_size (sock m') \<le> rx_size (sock m')"
    and "a \<in> set (rx_held m')"
  shows "\<exists>m''. step m' m'' \<and> length (rx_queue (sock m'')) = length (rx_queue (sock m')) + 1"
proof -
  have c: "conserved m'" using steps_conserved [OF assms(2,1)] .
  then have ok: "ring_ok (rx_size (sock m')) (rxRing (sock m'))" "opts_ok (options (sock m'))"
    by (simp_all add: conserved_def sock_ok_def)
  have "0 < length (rx_held m')" using assms(4) by (cases "rx_held m'") auto
  have room: "length (rx_queue (sock m')) < rx_size (sock m')"
  proof -
    have "length (rx_held m') + length (rx_queue (sock m')) \<le> rx_size (sock m')"
      using rx_owned_le [OF c] assms(3) by (simp add: rx_owned_def Let_def)
    with \<open>0 < length (rx_held m')\<close> show ?thesis by linarith
  qed
  let ?f = "frame_of (options (sock m')) a" and ?F = "nat (FrameSize (options (sock m')))"
  let ?d = "\<lparr>Addr = a, Len = 0, Opts = 0\<rparr>"
  have "unat a < (unat a div ?F + 1) * ?F"
    using ok(2) dividend_less_div_times [of ?F "unat a"] by (simp add: opts_ok_def algebra_simps)
  then have "unat (Addr ?d) + unat (Len ?d) \<le> (?f + 1) * ?F" by (simp add: frame_of_def)
  from kern_deliver [OF assms(4) room _ this] kern_put_view(2) [OF ok(1) room, of ?d] ring_ok_size [OF ok(1)]
  show ?thesis by (intro exI conjI) (assumption | simp)+
qed

text \<open>
  What \<open>NumFilled\<close> returns in every reachable state: the descriptors in the Fill ring, plus
  those the kernel holds, plus those waiting in the Rx ring. Its documentation promises the first
  number only; the value does not drop when the kernel consumes from the Fill ring.
\<close>

lemma NumFilled_counts:
  assumes "conserved m" and "step\<^sup>*\<^sup>* m m'"
  shows "NumFilled (sock m') =
    int (length (fill_queue (sock m')) + length (rx_held m') + length (rx_queue (sock m')))"
  using steps_conserved [OF assms(2,1)] by (simp add: conserved_def NumFilled_def rx_owned_def Let_def)

text \<open>
  C27: a received frame that is sent on, as the example in the package documentation does, is handed
  out again at once: \<open>Receive\<close> has set its receive flag, \<open>Transmit\<close> clears only the transmit
  flag, and the next \<open>GetDescs\<close> for receiving returns a descriptor of the very frame that is still in
  the Tx ring, so that the kernel may overwrite a packet it has not sent yet.
\<close>

theorem forwarded_frame_reused:
  assumes "sock_ok x" and "FillRingNumDescs (options x) \<le> NumFrames (options x)"
    and "rx_queue x = d # q" and "frame_of (options x) (Addr d) < fill_size x"
    and "length (tx_queue x) < tx_size x"
  shows "\<exists>y z ds. Receive x 1 = Inr ([d], y) \<and> Transmit y [d] [None] = Some (Inr (1, z)) \<and>
    GetDescs z (FillRingNumDescs (options z)) True = Inr ds \<and>
    d \<in> set (tx_queue z) \<and> (\<exists>e \<in> set ds. frame_of (options z) (Addr e) = frame_of (options z) (Addr d))"
proof -
  let ?f = "frame_of (options x) (Addr d)"
  from Receive_eq [OF assms(1), of 1] assms(3) obtain r where R: "Receive x 1 = Inr ([d], x\<lparr>rxRing := r,
      freeRXDescs := (freeRXDescs x)[?f := True], numFilled := numFilled x - 1\<rparr>)" (is "_ = Inr (_, ?y)")
    by (auto simp: min_def split: if_splits)
  have y: "sock_ok ?y" using Receive_sock_ok [OF assms(1) R] .
  have adr: "\<forall>e \<in> set [d]. addr_ok ?y (Addr e)"
    using assms(1,3) by (simp add: sock_ok_def addr_ok_upd)
  have k: "fits (tx_size ?y) (tx_queue ?y) [d] = 1" using assms(5) by (simp add: fits_def)
  from tx_submit_eq [OF y adr] k obtain r' where T: "tx_submit ?y [d] = Inr (1, ?y\<lparr>txRing := r',
      freeTXDescs := (freeTXDescs x)[?f := False], numTransmitted := numTransmitted x + 1\<rparr>)" (is "_ = Inr (_, ?z)")
    and r': "ring_view (tx_size ?y) r' = tx_queue x @ [d]"
    by auto
  from tx.submit_law [OF y adr] T have z: "sock_ok ?z" by auto
  have lt: "?f < length (freeRXDescs x)" using assms(1,2,4) by (auto simp: sock_ok_def)
  then have "?f \<in> set (rx_free ?z)" using assms(4) by (simp add: rx_free_def)
  moreover have "frame_of (options x) (Addr (frame_desc (options x) ?f)) = ?f"
    using assms(1) lt by (intro frame_of_desc) (auto simp: sock_ok_def)
  moreover have "GetDescs ?z (FillRingNumDescs (options ?z)) True =
      Inr (map (frame_desc (options ?z)) (take (fill_size ?z) (rx_free ?z)))"
    using GetDescs_rx [OF z] assms(2) by simp
  moreover have "take (fill_size ?z) (rx_free ?z) = rx_free ?z"
    by (simp add: rx_free_def le_trans [OF length_filter_le])
  ultimately show ?thesis
    using R T r' by (intro exI [of _ ?y] exI [of _ ?z] exI [of _ "map (frame_desc (options ?z)) (rx_free ?z)"])
      (auto simp: Transmit_def intro!: bexI [of _ "frame_desc (options x) ?f"])
qed

theorem forwarded_frame_reused_witness:
  "\<exists>y z ds. Receive demo_socket 1 = Inr ([demo_desc 2], y) \<and> Transmit y [demo_desc 2] [None] = Some (Inr (1, z)) \<and>
    GetDescs z (FillRingNumDescs (options z)) True = Inr ds \<and> demo_desc 2 \<in> set (tx_queue z) \<and>
    (\<exists>e \<in> set ds. frame_of (options z) (Addr e) = frame_of (options z) (Addr (demo_desc 2)))"
proof (rule forwarded_frame_reused [OF demo_socket_ok _ demo_queues(2)])
  show "length (tx_queue demo_socket) < tx_size demo_socket"
    unfolding demo_queues(3) by (simp add: demo_opts_def)
qed (simp_all add: demo_opts_def frame_of_def demo_desc_def)

text \<open>
  C31: \<open>GetDescs\<close> takes the first \<open>FillRingNumDescs\<close> frames for the receive region without
  checking that there are as many: on a socket with fewer frames than Fill ring entries, which
  \<open>NewSocket\<close> does not refuse, asking for more descriptors than there are free frames is an index
  out of range, a panic, instead of a shorter list.
\<close>

theorem GetDescs_panics:
  assumes "sock_ok x" and "NumFrames (options x) < FillRingNumDescs (options x)"
    and "length (filter (\<lambda>b. b) (freeRXDescs x)) < nat n"
  shows "GetDescs x n True = Inl Index_Out_Of_Range"
proof -
  let ?f = "freeRXDescs x" and ?n = "if int (fill_size x) < n then int (fill_size x) else n"
  have c: "cap_getRXDescs x = fill_size x" and lt: "length ?f < fill_size x"
    using assms(1,2) ring_ok_size [of "FillRingNumDescs (options x)"] by (auto simp: sock_ok_def opts_ok_def)
  have "map (\<lambda>i. ?f ! i) (filter (\<lambda>i. ?f ! i) [0..<length ?f]) = filter (\<lambda>b. b) ?f"
    using filter_map [of "\<lambda>b. b" "\<lambda>i. ?f ! i" "[0..<length ?f]"] by (simp add: comp_def map_nth)
  then have "length (filter (\<lambda>i. ?f ! i) [0..<length ?f]) = length (filter (\<lambda>b. b) ?f)"
    by (metis length_map)
  moreover have "length (filter (\<lambda>b. b) ?f) < fill_size x"
    by (rule le_less_trans [OF length_filter_le lt])
  ultimately have "int (length (filter (\<lambda>i. ?f ! i) [0..<length ?f])) < ?n - 0" using assms(3) by auto
  from get_loop_panics [OF lt le0 this] show ?thesis
    by (simp only: GetDescs_def Let_def c if_True simp_thms if_False)
qed

theorem GetDescs_panics_witness:
  "GetDescs (demo_socket\<lparr>options := demo_opts\<lparr>NumFrames := 8, FillRingNumDescs := 16\<rparr>,
      fillRing := demo_ring 0 0 (replicate 16 0), cap_getRXDescs := 16\<rparr>) 16 True = Inl Index_Out_Of_Range"
    (is "GetDescs ?x 16 True = _")
proof -
  have o: "options ?x = demo_opts\<lparr>FillRingNumDescs := 16\<rparr>" by (simp add: demo_opts_def)
  have "ring_size 16" by (auto simp: ring_size_def intro!: image_eqI [of _ _ 4])
  then have "ring_ok 16 (fillRing ?x)" "ring_view 16 (fillRing ?x) = []"
    by (simp_all add: ring_ok_def ring_view_def demo_ring_def)
  moreover have "addr_ok ?x = addr_ok demo_socket" by (simp add: addr_ok_def frame_of_def fun_eq_iff demo_opts_def)
  ultimately have "sock_ok ?x"
    using demo_socket_ok by (simp add: sock_ok_def opts_ok_def o)
  moreover have "length (filter (\<lambda>b. b) (freeRXDescs ?x)) < nat 16" by (simp add: demo_socket_def)
  ultimately show ?thesis
    using GetDescs_panics [of ?x 16] by (simp add: o) (simp add: demo_opts_def)
qed

end
