(* ===== verification/Xsk_Race.thy ===== *)
theory Xsk_Race
  imports Xsk_Frames
begin

text \<open>
  The operations of a socket next to a kernel that works at the same time. The loops of \<open>Fill\<close>,
  \<open>Transmit\<close>, \<open>Receive\<close> and \<open>Complete\<close> are run one memory access at a time, with moves of the kernel
  between any two of them. The results are those of the operation taken as one step, which is how the
  other theories use it.
  Accesses take effect in program order here; \<^verbatim>\<open>Xsk_Memory\<close> goes on from that.
\<close>

section \<open>A producer and the kernel\<close>

text \<open>
  The shared ring, the entries not yet written, the local producer counter, what the kernel has
  consumed meanwhile, and whether the producer counter has been written back.
\<close>

record 'd pthread =
  p_ring :: "'d ring"
  p_todo :: "'d list"
  p_prd :: u32
  p_seen :: "'d list"
  p_done :: bool

inductive pstep :: "nat \<Rightarrow> 'd pthread \<Rightarrow> 'd pthread \<Rightarrow> bool" for n where
  p_store: "p_todo s = v # vs \<Longrightarrow>
    pstep n s (s\<lparr>p_ring := (p_ring s)\<lparr>Descs := (Descs (p_ring s))[ring_slot (int n) (p_prd s) := v]\<rparr>,
                p_todo := vs, p_prd := p_prd s + 1\<rparr>)"
| p_publish: "p_todo s = [] \<Longrightarrow> \<not> p_done s \<Longrightarrow>
    pstep n s (s\<lparr>p_ring := (p_ring s)\<lparr>Producer := Some (p_prd s)\<rparr>, p_done := True\<rparr>)"
| p_kernel: "ring_view n (p_ring s) = v # q \<Longrightarrow>
    pstep n s (s\<lparr>p_ring := kern_get (p_ring s), p_seen := p_seen s @ [v]\<rparr>)"

definition pstart :: "'d ring \<Rightarrow> 'd list \<Rightarrow> 'd pthread" where
  "pstart r vs = \<lparr>p_ring = r, p_todo = vs, p_prd = the (Producer r), p_seen = [], p_done = False\<rparr>"

text \<open>The ring as it would be if the producer counter were written back now.\<close>

definition pub :: "'d pthread \<Rightarrow> 'd ring" where
  "pub s = (p_ring s)\<lparr>Producer := Some (p_prd s)\<rparr>"

text \<open>
  Before the write-back the kernel sees the old entries that it has not consumed; the entries written
  so far follow them, and there is room for the rest.
\<close>

definition pinv :: "nat \<Rightarrow> u32 \<Rightarrow> 'd list \<Rightarrow> 'd list \<Rightarrow> 'd pthread \<Rightarrow> bool" where
  "pinv n p0 v0 vs s \<longleftrightarrow> ring_ok n (pub s) \<and> length (ring_view n (pub s)) + length (p_todo s) \<le> n \<and>
     p_seen s @ ring_view n (pub s) @ p_todo s = v0 @ vs \<and> length (p_todo s) \<le> length vs \<and>
     (if p_done s then Producer (p_ring s) = Some (p_prd s) \<and> p_todo s = []
      else Producer (p_ring s) = Some p0 \<and> (\<exists>c. Consumer (p_ring s) = Some c \<and>
             unat (p0 - c) + length (p_seen s) = length v0))"

lemma pub_done: "pinv n p0 v0 vs s \<Longrightarrow> p_done s \<Longrightarrow> pub s = p_ring s"
  by (cases "p_ring s") (auto simp: pinv_def pub_def)

lemma ring_view_pub:
  assumes "pinv n p0 v0 vs s" and "\<not> p_done s"
  shows "ring_view n (p_ring s) = take (length v0 - length (p_seen s)) (ring_view n (pub s))"
    and "length v0 - length (p_seen s) \<le> length (ring_view n (pub s))" and "length (p_seen s) \<le> length v0"
proof -
  obtain c where c: "Producer (p_ring s) = Some p0" "Consumer (p_ring s) = Some c"
    "unat (p0 - c) + length (p_seen s) = length v0" using assms by (auto simp: pinv_def)
  have "length (p_seen s) + length (ring_view n (pub s)) + length (p_todo s) = length v0 + length vs"
    using arg_cong [of _ _ length, OF assms(1) [unfolded pinv_def, THEN conjunct2, THEN conjunct2, THEN conjunct1]]
    by simp
  moreover have "length (p_todo s) \<le> length vs" using assms(1) by (simp add: pinv_def)
  ultimately show le: "length v0 - length (p_seen s) \<le> length (ring_view n (pub s))" by linarith
  have "ring_view n (pub s) = window n c (Descs (p_ring s)) (unat (p_prd s - c))"
    using c by (simp add: pub_def ring_view_def)
  moreover from this le c(3) have "unat (p0 - c) \<le> unat (p_prd s - c)" by simp
  ultimately show "ring_view n (p_ring s) = take (length v0 - length (p_seen s)) (ring_view n (pub s))"
    using c by (simp add: ring_view_def take_window min_def flip: c(3))
  show "length (p_seen s) \<le> length v0" using c(3) by simp
qed

lemma pub_store: "p_todo s = v # vs \<Longrightarrow>
    pub (s\<lparr>p_ring := (p_ring s)\<lparr>Descs := (Descs (p_ring s))[ring_slot (int n) (p_prd s) := v]\<rparr>,
           p_todo := vs, p_prd := p_prd s + 1\<rparr>) = kern_put (int n) v (pub s)"
  by (simp add: pub_def kern_put_def)

lemma pstep_pinv:
  assumes "pstep n s s'" and "pinv n p0 v0 vs s"
  shows "pinv n p0 v0 vs s'"
  using assms(1)
proof cases
  case (p_store v ws)
  have ok: "ring_ok n (pub s)" and room: "length (ring_view n (pub s)) < n"
    using assms(2) p_store(2) by (simp_all add: pinv_def)
  from kern_put_view [OF ok room, of v] assms(2) p_store show ?thesis
    by (auto simp: pinv_def pub_store)
next
  case p_publish
  then show ?thesis using assms(2) by (simp add: pinv_def pub_def)
next
  case (p_kernel v q)
  have ok: "ring_ok n (pub s)" using assms(2) by (simp add: pinv_def)
  have pk: "pub s' = kern_get (pub s)" "p_seen s' = p_seen s @ [v]" "p_todo s' = p_todo s" "p_done s' = p_done s"
      "p_prd s' = p_prd s" "Producer (p_ring s') = Producer (p_ring s)"
      "Consumer (p_ring s') = map_option (\<lambda>c. c + 1) (Consumer (p_ring s))"
    using p_kernel(1) by (simp_all add: pub_def kern_get_def)
  show ?thesis
  proof (cases "p_done s")
    case True
    with p_kernel(2) pub_done [OF assms(2)] have "ring_view n (pub s) = v # q" by simp
    with kern_get_view [OF ok this] assms(2) True show ?thesis unfolding pinv_def pk by auto
  next
    case False
    note v = ring_view_pub [OF assms(2) False]
    obtain c where c: "Producer (p_ring s) = Some p0" "Consumer (p_ring s) = Some c"
      "unat (p0 - c) + length (p_seen s) = length v0" using assms(2) False by (auto simp: pinv_def)
    from v(1) p_kernel(2) obtain q' where q': "ring_view n (pub s) = v # q'"
      by (cases "ring_view n (pub s)"; cases "length v0 - length (p_seen s)") auto
    have "1 \<le> unat (p0 - c)" using p_kernel(2) c by (cases "unat (p0 - c)") (auto simp: ring_view_def)
    then have "unat (p0 - (c + 1)) = unat (p0 - c) - 1" using unat_diff_consume [of 1 p0 c] by simp
    with kern_get_view [OF ok q'] q' assms(2) False c \<open>1 \<le> unat (p0 - c)\<close> show ?thesis
      unfolding pinv_def pk by simp
  qed
qed

lemma psteps_pinv: "(pstep n)\<^sup>*\<^sup>* s s' \<Longrightarrow> pinv n p0 v0 vs s \<Longrightarrow> pinv n p0 v0 vs s'"
  by (induction rule: rtranclp_induct) (auto intro: pstep_pinv)

lemma pstart_pinv:
  assumes "ring_ok n r" and "length (ring_view n r) + length vs \<le> n"
  shows "pinv n (the (Producer r)) (ring_view n r) vs (pstart r vs)"
proof -
  from assms(1) obtain p c where r: "Producer r = Some p" "Consumer r = Some c"
    "ring_view n r = window n c (Descs r) (unat (p - c))" by (rule ring_okE)
  then have "pub (pstart r vs) = r" by (cases r) (simp add: pub_def pstart_def)
  with assms r show ?thesis by (simp add: pinv_def) (simp add: pstart_def)
qed

lemma pinv_view:
  assumes "pinv n p0 v0 vs s"
  shows "p_seen s @ ring_view n (p_ring s) = (if p_done s then v0 @ vs else v0)"
proof (cases "p_done s")
  case True
  with assms pub_done [OF assms True] show ?thesis by (auto simp: pinv_def)
next
  case False
  note v = ring_view_pub [OF assms False]
  have "p_seen s @ ring_view n (pub s) @ p_todo s = v0 @ vs" using assms by (simp add: pinv_def)
  from arg_cong [OF this, of "take (length v0)"] v False show ?thesis by simp
qed

lemma producer_atomic:
  assumes "ring_ok n r" and "length (ring_view n r) + length vs \<le> n" and "(pstep n)\<^sup>*\<^sup>* (pstart r vs) s"
  shows "p_seen s @ ring_view n (p_ring s) = (if p_done s then ring_view n r @ vs else ring_view n r)"
  by (rule pinv_view [OF psteps_pinv [OF assms(3) pstart_pinv [OF assms(1,2)]]])

section \<open>A consumer and the kernel\<close>

text \<open>
  The shared ring, how many entries are still to be read, the local consumer counter, the entries
  read, what the kernel has produced meanwhile, and whether the counter has been written back.
\<close>

record 'd cthread =
  c_ring :: "'d ring"
  c_todo :: nat
  c_cons :: u32
  c_got :: "'d list"
  c_put :: "'d list"
  c_done :: bool

inductive cstep :: "nat \<Rightarrow> 'd cthread \<Rightarrow> 'd cthread \<Rightarrow> bool" for n where
  c_load: "c_todo s = Suc k \<Longrightarrow>
    cstep n s (s\<lparr>c_todo := k, c_cons := c_cons s + 1,
                c_got := c_got s @ [Descs (c_ring s) ! ring_slot (int n) (c_cons s)]\<rparr>)"
| c_publish: "c_todo s = 0 \<Longrightarrow> \<not> c_done s \<Longrightarrow>
    cstep n s (s\<lparr>c_ring := (c_ring s)\<lparr>Consumer := Some (c_cons s)\<rparr>, c_done := True\<rparr>)"
| c_kernel: "length (ring_view n (c_ring s)) < n \<Longrightarrow>
    cstep n s (s\<lparr>c_ring := kern_put (int n) v (c_ring s), c_put := c_put s @ [v]\<rparr>)"

definition cstart :: "'d ring \<Rightarrow> nat \<Rightarrow> 'd cthread" where
  "cstart r k = \<lparr>c_ring = r, c_todo = k, c_cons = the (Consumer r), c_got = [], c_put = [], c_done = False\<rparr>"

definition cinv :: "nat \<Rightarrow> u32 \<Rightarrow> 'd list \<Rightarrow> nat \<Rightarrow> 'd cthread \<Rightarrow> bool" where
  "cinv n c0 v0 k s \<longleftrightarrow> ring_ok n (c_ring s) \<and> k \<le> length v0 \<and> length (c_got s) + c_todo s = k \<and>
     c_got s = take (length (c_got s)) v0 \<and> c_cons s = c0 + of_nat (length (c_got s)) \<and>
     (if c_done s then c_todo s = 0 \<and> ring_view n (c_ring s) = drop k v0 @ c_put s
      else Consumer (c_ring s) = Some c0 \<and> ring_view n (c_ring s) = v0 @ c_put s)"

lemma ring_view_nth:
  assumes "ring_ok n r" and "Consumer r = Some c" and "i < length (ring_view n r)"
  shows "ring_view n r ! i = Descs r ! ring_slot (int n) (c + of_nat i)"
proof -
  from assms(1) obtain p c' where "Consumer r = Some c'" "ring_size n"
    and v: "ring_view n r = window n c' (Descs r) (unat (p - c'))" by (rule ring_okE)
  with assms(2,3) slot_at [of n "c + of_nat i" c i] show ?thesis by (simp add: window_def)
qed

lemma cstep_cinv:
  assumes "cstep n s s'" and "cinv n c0 v0 k s"
  shows "cinv n c0 v0 k s'"
  using assms(1)
proof cases
  case (c_load j)
  then have nd: "\<not> c_done s" using assms(2) by (auto simp: cinv_def)
  let ?i = "length (c_got s)"
  have i: "?i < length v0" "ring_ok n (c_ring s)" "Consumer (c_ring s) = Some c0"
    "ring_view n (c_ring s) = v0 @ c_put s" "c_cons s = c0 + of_nat ?i" "c_got s = take ?i v0"
    using assms(2) c_load(2) nd by (simp_all add: cinv_def)
  then have "Descs (c_ring s) ! ring_slot (int n) (c_cons s) = v0 ! ?i"
    using ring_view_nth [OF i(2,3), of ?i] by (simp add: nth_append)
  moreover have "take ?i v0 @ [v0 ! ?i] = take (Suc ?i) v0" using i(1) by (simp add: take_Suc_conv_app_nth)
  ultimately show ?thesis using assms(2) c_load nd i by (simp add: cinv_def)
next
  case c_publish
  have "Consumer (c_ring s) = Some c0" "ring_ok n (c_ring s)" "ring_view n (c_ring s) = v0 @ c_put s"
    "length (c_got s) = k" "k \<le> length v0" "c_cons s = c0 + of_nat k"
    using assms(2) c_publish(2,3) by (auto simp: cinv_def)
  moreover from this(2) obtain p where "Producer (c_ring s) = Some p" by (rule ring_okE)
  ultimately show ?thesis
    using ring_consumed [of n "c_ring s" p c0 k] assms(2) c_publish by (simp add: cinv_def)
next
  case (c_kernel v)
  have "ring_ok n (c_ring s)" using assms(2) by (simp add: cinv_def)
  from kern_put_view [OF this c_kernel(2), of v] assms(2) c_kernel(1) show ?thesis
    by (auto simp: cinv_def) (auto simp: kern_put_def)
qed

lemma csteps_cinv: "(cstep n)\<^sup>*\<^sup>* s s' \<Longrightarrow> cinv n c0 v0 k s \<Longrightarrow> cinv n c0 v0 k s'"
  by (induction rule: rtranclp_induct) (auto intro: cstep_cinv)

lemma cstart_cinv:
  assumes "ring_ok n r" and "k \<le> length (ring_view n r)"
  shows "cinv n (the (Consumer r)) (ring_view n r) k (cstart r k)"
proof -
  from assms(1) obtain c where "Consumer r = Some c" by (rule ring_okE)
  with assms show ?thesis by (simp add: cinv_def cstart_def)
qed

section \<open>Runs without interference\<close>

text \<open>The stores of a loop that writes \<open>vs\<close> from the counter \<open>p\<close> on.\<close>

fun stores :: "nat \<Rightarrow> 'd list \<Rightarrow> u32 \<Rightarrow> 'd list \<Rightarrow> 'd list" where
  "stores n [] p descs = descs"
| "stores n (v # vs) p descs = stores n vs (p + 1) (descs[ring_slot (int n) p := v])"

lemma stores_run:
  "(pstep n)\<^sup>*\<^sup>* \<lparr>p_ring = r\<lparr>Descs := descs\<rparr>, p_todo = vs, p_prd = p, p_seen = [], p_done = False\<rparr>
     \<lparr>p_ring = r\<lparr>Descs := stores n vs p descs\<rparr>, p_todo = [], p_prd = p + of_nat (length vs),
      p_seen = [], p_done = False\<rparr>"
proof (induction vs arbitrary: p descs)
  case (Cons v vs)
  let ?s = "\<lparr>p_ring = r\<lparr>Descs := descs\<rparr>, p_todo = v # vs, p_prd = p, p_seen = [], p_done = False\<rparr>"
  have "pstep n ?s \<lparr>p_ring = r\<lparr>Descs := descs[ring_slot (int n) p := v]\<rparr>, p_todo = vs, p_prd = p + 1,
      p_seen = [], p_done = False\<rparr>"
    using p_store [of ?s v vs n] by simp
  from converse_rtranclp_into_rtranclp [OF this Cons.IH] show ?case by (simp add: add.assoc)
qed simp

lemma producer_alone:
  assumes "Producer r = Some p"
  shows "\<exists>s. (pstep n)\<^sup>*\<^sup>* (pstart r vs) s \<and> p_done s \<and>
    p_ring s = r\<lparr>Producer := Some (p + of_nat (length vs)), Descs := stores n vs p (Descs r)\<rparr>"
proof -
  let ?t = "\<lparr>p_ring = r\<lparr>Descs := stores n vs p (Descs r)\<rparr>, p_todo = [], p_prd = p + of_nat (length vs),
      p_seen = [], p_done = False\<rparr>"
  have "(pstep n)\<^sup>*\<^sup>* (pstart r vs) ?t"
    using stores_run [where r = r and descs = "Descs r" and p = p] assms by (simp add: pstart_def)
  moreover have "pstep n ?t (?t\<lparr>p_ring := r\<lparr>Producer := Some (p + of_nat (length vs)), Descs := stores n vs p (Descs r)\<rparr>,
      p_done := True\<rparr>)"
    using p_publish [of ?t n] by (cases r) simp
  ultimately show ?thesis
    by (intro exI [of _ "?t\<lparr>p_ring := r\<lparr>Producer := Some (p + of_nat (length vs)), Descs := stores n vs p (Descs r)\<rparr>,
      p_done := True\<rparr>"]) simp
qed

lemma loads_run:
  "\<exists>got. (cstep n)\<^sup>*\<^sup>* \<lparr>c_ring = r, c_todo = k, c_cons = c, c_got = got0, c_put = [], c_done = False\<rparr>
     \<lparr>c_ring = r, c_todo = 0, c_cons = c + of_nat k, c_got = got, c_put = [], c_done = False\<rparr>"
proof (induction k arbitrary: c got0)
  case (Suc k)
  let ?s = "\<lparr>c_ring = r, c_todo = Suc k, c_cons = c, c_got = got0, c_put = [], c_done = False\<rparr>"
  have "cstep n ?s \<lparr>c_ring = r, c_todo = k, c_cons = c + 1, c_got = got0 @ [Descs r ! ring_slot (int n) c],
      c_put = [], c_done = False\<rparr>"
    using c_load [of ?s k n] by simp
  with Suc.IH [of "c + 1" "got0 @ [Descs r ! ring_slot (int n) c]"] show ?case
    by (auto simp: add.assoc intro: converse_rtranclp_into_rtranclp)
qed auto

lemma consumer_alone:
  assumes "Consumer r = Some c"
  shows "\<exists>s. (cstep n)\<^sup>*\<^sup>* (cstart r k) s \<and> c_done s \<and> c_ring s = r\<lparr>Consumer := Some (c + of_nat k)\<rparr>"
proof -
  from loads_run [of n r k c "[]"] assms obtain got where
    run: "(cstep n)\<^sup>*\<^sup>* (cstart r k)
      \<lparr>c_ring = r, c_todo = 0, c_cons = c + of_nat k, c_got = got, c_put = [], c_done = False\<rparr>"
    by (auto simp: cstart_def)
  let ?t = "\<lparr>c_ring = r, c_todo = 0, c_cons = c + of_nat k, c_got = got, c_put = [], c_done = False\<rparr>"
  have "cstep n ?t (?t\<lparr>c_ring := r\<lparr>Consumer := Some (c + of_nat k)\<rparr>, c_done := True\<rparr>)"
    using c_publish [of ?t n] by simp
  with run show ?thesis
    by (intro exI [of _ "?t\<lparr>c_ring := r\<lparr>Consumer := Some (c + of_nat k)\<rparr>, c_done := True\<rparr>"]) simp
qed

section \<open>Operations that are atomic\<close>

text \<open>
  A producer whose operation amounts to stores in consecutive slots and one write of the producer
  counter, next to a consumer that may run between any two of these accesses.
\<close>

locale atomic_producer = ring_producer submit ok queue capacity item valid
  for submit :: "'s \<Rightarrow> Desc list \<Rightarrow> go_panic + (int \<times> 's)" and ok and queue :: "'s \<Rightarrow> 'd list"
    and capacity and item and valid +
  fixes ring :: "'s \<Rightarrow> 'd ring"
  assumes ring_law: "ok s \<Longrightarrow> ring_ok (capacity s) (ring s) \<and> queue s = ring_view (capacity s) (ring s)"
    and store_law: "ok s \<Longrightarrow> submit s ds = Inr (k, s') \<Longrightarrow> Producer (ring s) = Some p \<Longrightarrow>
      \<forall>d \<in> set ds. valid s d \<Longrightarrow>
      ring s' = (ring s)\<lparr>Producer := Some (p + of_nat (nat k)),
        Descs := stores (capacity s) (map item (take (nat k) ds)) p (Descs (ring s))\<rparr>"
begin

text \<open>What is submitted fits, and makes up the new end of the queue.\<close>

lemma submit_room:
  assumes "ok s" and "\<forall>d \<in> set ds. valid s d" and "submit s ds = Inr (k, s')"
  shows "length (queue s) + length (map item (take (nat k) ds)) \<le> capacity s"
    and "queue s' = queue s @ map item (take (nat k) ds)" and "length (map item (take (nat k) ds)) = nat k"
  using submit_law [OF assms(1,2)] assms(3) bounded [OF assms(1)] by (auto simp: fits_def)

lemma submit_atomic:
  assumes "ok s" and "\<forall>d \<in> set ds. valid s d" and "submit s ds = Inr (k, s')"
  shows "(\<exists>t. (pstep (capacity s))\<^sup>*\<^sup>* (pstart (ring s) (map item (take (nat k) ds))) t \<and>
      p_done t \<and> p_ring t = ring s') \<and>
    (\<forall>t. (pstep (capacity s))\<^sup>*\<^sup>* (pstart (ring s) (map item (take (nat k) ds))) t \<longrightarrow>
      p_seen t @ ring_view (capacity s) (p_ring t) = (if p_done t then queue s' else queue s))"
proof -
  let ?vs = "map item (take (nat k) ds)"
  from ring_law [OF assms(1)] have r: "ring_ok (capacity s) (ring s)" "queue s = ring_view (capacity s) (ring s)"
    by simp_all
  note room = submit_room [OF assms]
  from producer_atomic [OF r(1) room(1) [unfolded r(2)]] room(2) r(2)
  have "\<forall>t. (pstep (capacity s))\<^sup>*\<^sup>* (pstart (ring s) ?vs) t \<longrightarrow>
      p_seen t @ ring_view (capacity s) (p_ring t) = (if p_done t then queue s' else queue s)" by simp
  moreover from r(1) obtain p where p: "Producer (ring s) = Some p" by (rule ring_okE)
  ultimately show ?thesis
    using producer_alone [OF p, of "capacity s" ?vs] store_law [OF assms(1,3) p assms(2)] room(3) by simp
qed

end

text \<open>The same for a consumer that loads consecutive slots and writes the consumer counter.\<close>

locale atomic_consumer = ring_consumer consume ok queue
  for consume :: "'s \<Rightarrow> nat \<Rightarrow> go_panic + 's" and ok and queue :: "'s \<Rightarrow> 'd list" +
  fixes capacity :: "'s \<Rightarrow> nat" and ring :: "'s \<Rightarrow> 'd ring"
  assumes ring_law: "ok s \<Longrightarrow> ring_ok (capacity s) (ring s) \<and> queue s = ring_view (capacity s) (ring s)"
    and load_law: "ok s \<Longrightarrow> n \<le> length (queue s) \<Longrightarrow> consume s n = Inr s' \<Longrightarrow> Consumer (ring s) = Some c \<Longrightarrow>
      ring s' = (ring s)\<lparr>Consumer := Some (c + of_nat n)\<rparr>"
begin

lemma consume_atomic:
  assumes "ok s" and "n \<le> length (queue s)" and "consume s n = Inr s'"
  shows "(\<exists>t. (cstep (capacity s))\<^sup>*\<^sup>* (cstart (ring s) n) t \<and>
      c_done t \<and> c_got t = take n (queue s) \<and> c_ring t = ring s') \<and>
    (\<forall>t. (cstep (capacity s))\<^sup>*\<^sup>* (cstart (ring s) n) t \<and> c_done t \<longrightarrow>
      c_got t = take n (queue s) \<and> ring_view (capacity s) (c_ring t) = queue s' @ c_put t)"
proof -
  from ring_law [OF assms(1)] have r: "ring_ok (capacity s) (ring s)" "queue s = ring_view (capacity s) (ring s)"
    by simp_all
  from consume_law [OF assms(1,2)] assms(3) have q: "queue s' = drop n (queue s)" by simp
  have all: "c_got t = take n (queue s) \<and> ring_view (capacity s) (c_ring t) = queue s' @ c_put t"
    if "(cstep (capacity s))\<^sup>*\<^sup>* (cstart (ring s) n) t" "c_done t" for t
    using csteps_cinv [OF that(1) cstart_cinv [OF r(1) assms(2) [unfolded r(2)]]] that(2) q r(2)
    by (auto simp: cinv_def)
  from r(1) obtain c where c: "Consumer (ring s) = Some c" by (rule ring_okE)
  from consumer_alone [OF c, of "capacity s" n] load_law [OF assms c] all show ?thesis by auto
qed

end

section \<open>The four operations\<close>

lemma go_store_Inr: "go_store xs i v = Inr ys \<Longrightarrow> ys = xs[i := v]"
  by (simp add: go_store_def split: if_splits)

lemma fill_loop_stores:
  assumes "FillRingNumDescs opts = int n"
  shows "fill_loop opts ds prd ring free = Inr (prd', ring', free') \<Longrightarrow>
    prd' = prd + of_nat (length ds) \<and> ring' = stores n (map Addr ds) prd ring"
  by (induction ds arbitrary: prd ring free) (fastforce simp: rbind_eq_Inr assms add.assoc dest!: go_store_Inr)+

lemma tx_loop_stores:
  assumes "TxRingNumDescs opts = int n"
  shows "tx_loop opts ds prd ring free = Inr (prd', ring', free') \<Longrightarrow>
    prd' = prd + of_nat (length ds) \<and> ring' = stores n ds prd ring"
  by (induction ds arbitrary: prd ring free) (fastforce simp: rbind_eq_Inr assms add.assoc dest!: go_store_Inr)+

lemma recv_loop_cons:
  "recv_loop opts ring k cons got free = Inr (cons', ds, free') \<Longrightarrow>
   cons' = cons + of_nat k \<and> length ds = length got + k"
  by (induction k arbitrary: cons got free) (fastforce simp: rbind_eq_Inr add.assoc)+

lemma complete_loop_cons:
  "complete_loop opts ring k cons free = Inr (cons', free') \<Longrightarrow> cons' = cons + of_nat k"
  by (induction k arbitrary: cons free) (fastforce simp: rbind_eq_Inr add.assoc)+

lemma clip_take:
  assumes "k = int (length (if m < int (length ds) then take (nat m) ds else ds))"
  shows "(if m < int (length ds) then take (nat m) ds else ds) = take (nat k) ds"
  using assms by (cases "0 \<le> m") auto

lemma Fill_stores:
  assumes "Fill x ds = Inr (k, x')" and "Producer (fillRing x) = Some p"
    and "0 \<le> FillRingNumDescs (options x)"
  shows "fillRing x' = (fillRing x)\<lparr>Producer := Some (p + of_nat (nat k)),
    Descs := stores (fill_size x) (map Addr (take (nat k) ds)) p (Descs (fillRing x))\<rparr>"
proof -
  have n: "FillRingNumDescs (options x) = int (fill_size x)" using assms(3) by simp
  from assms(1,2) obtain m prd ring free where
    loop: "fill_loop (options x) (if m < int (length ds) then take (nat m) ds else ds) p (Descs (fillRing x))
      (freeRXDescs x) = Inr (prd, ring, free)"
    and k: "k = int (length (if m < int (length ds) then take (nat m) ds else ds))"
    and x': "fillRing x' = (fillRing x)\<lparr>Producer := Some prd, Descs := ring\<rparr>"
    by (auto simp: Fill_def rbind_eq_Inr Let_def)
  have kl: "length (take (nat k) ds) = nat k" using k unfolding clip_take [OF k] by (metis nat_int)
  from fill_loop_stores [OF n loop [unfolded clip_take [OF k]]] show ?thesis by (simp only: x' kl)
qed

lemma tx_submit_stores:
  assumes "tx_submit x ds = Inr (k, x')" and "Producer (txRing x) = Some p"
    and "0 \<le> TxRingNumDescs (options x)"
  shows "txRing x' = (txRing x)\<lparr>Producer := Some (p + of_nat (nat k)),
    Descs := stores (tx_size x) (take (nat k) ds) p (Descs (txRing x))\<rparr>"
proof -
  have n: "TxRingNumDescs (options x) = int (tx_size x)" using assms(3) by simp
  from assms(1,2) obtain m prd ring free where
    loop: "tx_loop (options x) (if m < int (length ds) then take (nat m) ds else ds) p (Descs (txRing x))
      (freeTXDescs x) = Inr (prd, ring, free)"
    and k: "k = int (length (if m < int (length ds) then take (nat m) ds else ds))"
    and x': "txRing x' = (txRing x)\<lparr>Producer := Some prd, Descs := ring\<rparr>"
    by (auto simp: tx_submit_def rbind_eq_Inr Let_def)
  have kl: "length (take (nat k) ds) = nat k" using k unfolding clip_take [OF k] by (metis nat_int)
  from tx_loop_stores [OF n loop [unfolded clip_take [OF k]]] show ?thesis by (simp only: x' kl)
qed

lemma Receive_cons:
  assumes "Receive x num = Inr (ds, x')" and "Consumer (rxRing x) = Some c"
  shows "rxRing x' = (rxRing x)\<lparr>Consumer := Some (c + of_nat (length ds))\<rparr>"
proof -
  from assms obtain j cons free where
    "recv_loop (options x) (Descs (rxRing x)) j c [] (freeRXDescs x) = Inr (cons, ds, free)"
    and "rxRing x' = (rxRing x)\<lparr>Consumer := Some cons\<rparr>"
    by (auto simp: Receive_def rbind_eq_Inr Let_def)
  then show ?thesis using recv_loop_cons by fastforce
qed

lemma Complete_cons:
  assumes "Complete x (int n) = Inr x'" and "Consumer (completionRing x) = Some c"
  shows "completionRing x' = (completionRing x)\<lparr>Consumer := Some (c + of_nat n)\<rparr>"
  using assms by (auto simp: Complete_def rbind_eq_Inr dest!: complete_loop_cons)

lemma sock_rings:
  assumes "sock_ok x"
  shows "ring_ok (fill_size x) (fillRing x)" "ring_ok (rx_size x) (rxRing x)"
    "ring_ok (tx_size x) (txRing x)" "ring_ok (comp_size x) (completionRing x)"
  using assms by (simp_all add: sock_ok_def)

interpretation fill_race: atomic_producer Fill sock_ok fill_queue fill_size Addr "\<lambda>x d. addr_ok x (Addr d)" fillRing
proof
  show "ring_ok (fill_size x) (fillRing x) \<and> fill_queue x = ring_view (fill_size x) (fillRing x)" if "sock_ok x" for x
    using sock_rings [OF that] by simp
  show "fillRing x' = (fillRing x)\<lparr>Producer := Some (p + of_nat (nat k)),
      Descs := stores (fill_size x) (map Addr (take (nat k) ds)) p (Descs (fillRing x))\<rparr>"
    if "sock_ok x" "Fill x ds = Inr (k, x')" "Producer (fillRing x) = Some p" for x ds k x' p
    using Fill_stores [OF that(2,3)] ring_ok_size [OF sock_rings(1) [OF that(1)]] by linarith
qed

interpretation tx_race: atomic_producer tx_submit sock_ok tx_queue tx_size "\<lambda>d. d" "\<lambda>x d. addr_ok x (Addr d)" txRing
proof
  show "ring_ok (tx_size x) (txRing x) \<and> tx_queue x = ring_view (tx_size x) (txRing x)" if "sock_ok x" for x
    using sock_rings [OF that] by simp
  show "txRing x' = (txRing x)\<lparr>Producer := Some (p + of_nat (nat k)),
      Descs := stores (tx_size x) (map (\<lambda>d. d) (take (nat k) ds)) p (Descs (txRing x))\<rparr>"
    if "sock_ok x" "tx_submit x ds = Inr (k, x')" "Producer (txRing x) = Some p" for x ds k x' p
    using tx_submit_stores [OF that(2,3)] ring_ok_size [OF sock_rings(3) [OF that(1)]] by simp
qed

interpretation rx_race: atomic_consumer "\<lambda>x n. rbind (Receive x (int n)) (\<lambda>(ds, x). Inr x)" sock_ok rx_queue rx_size rxRing
proof
  show "ring_ok (rx_size x) (rxRing x) \<and> rx_queue x = ring_view (rx_size x) (rxRing x)" if "sock_ok x" for x
    using sock_rings [OF that] by simp
  show "rxRing x' = (rxRing x)\<lparr>Consumer := Some (c + of_nat n)\<rparr>"
    if "sock_ok x" "n \<le> length (rx_queue x)" "rbind (Receive x (int n)) (\<lambda>(ds, x). Inr x) = Inr x'"
      "Consumer (rxRing x) = Some c" for x n x' c
  proof -
    from that(3) obtain ds where r: "Receive x (int n) = Inr (ds, x')" by (auto simp: rbind_eq_Inr)
    with Receive_eq [OF that(1), of "int n"] that(2) have "length ds = n" by (auto simp: min_def)
    with Receive_cons [OF r that(4)] show ?thesis by simp
  qed
qed

interpretation comp_race: atomic_consumer "\<lambda>x n. Complete x (int n)" sock_ok comp_queue comp_size completionRing
proof
  show "ring_ok (comp_size x) (completionRing x) \<and> comp_queue x = ring_view (comp_size x) (completionRing x)"
    if "sock_ok x" for x using sock_rings [OF that] by simp
  show "completionRing x' = (completionRing x)\<lparr>Consumer := Some (c + of_nat n)\<rparr>"
    if "Complete x (int n) = Inr x'" "Consumer (completionRing x) = Some c" for x n x' c
    using Complete_cons [OF that] .
qed

text \<open>Asking for more than there is makes no difference to \<open>Receive\<close>.\<close>

lemma Receive_clip:
  assumes "sock_ok x" and "Receive x num = Inr (ds, x')"
  shows "Receive x (int (length ds)) = Inr (ds, x')"
proof -
  have u: "NumReceived x = Inr (int (length (rx_queue x)))"
    using ring_used_ok [OF sock_rings(2) [OF assms(1)]] ring_ok_size [OF sock_rings(2) [OF assms(1)]]
    by (simp add: NumReceived_def)
  have "length ds = nat (min num (int (length (rx_queue x))))"
    using Receive_eq [OF assms(1), of num] assms(2) by auto
  with assms(2) show ?thesis
    by (cases "0 \<le> num") (simp_all add: Receive_def u Let_def min_def split: if_splits)
qed

section \<open>Properties\<close>

text \<open>
  \<open>Receive\<close> is safe against a kernel that produces while it runs: when the kernel appends entries
  between any of its accesses, it still returns the descriptors that it returns alone, and the ring
  then holds the entries that follow them, with those of the kernel at the end.
\<close>

lemma Receive_atomic:
  assumes "sock_ok x" and "Receive x num = Inr (ds, x')"
  shows "(\<exists>s. (cstep (rx_size x))\<^sup>*\<^sup>* (cstart (rxRing x) (length ds)) s \<and>
      c_done s \<and> c_got s = ds \<and> c_ring s = rxRing x') \<and>
    (\<forall>s. (cstep (rx_size x))\<^sup>*\<^sup>* (cstart (rxRing x) (length ds)) s \<and> c_done s \<longrightarrow>
      c_got s = ds \<and> ring_view (rx_size x) (c_ring s) = rx_queue x' @ c_put s)"
proof -
  from Receive_eq [OF assms(1), of num] assms(2) have
    ds: "ds = take (length ds) (rx_queue x)" "length ds \<le> length (rx_queue x)" by auto
  have "Receive x (int (length ds)) = Inr (ds, x')"
    using Receive_clip [OF assms] .
  then have "rbind (Receive x (int (length ds))) (\<lambda>(ds, x). Inr x) = Inr x'" by simp
  from rx_race.consume_atomic [OF assms(1) ds(2) this] show ?thesis by (simp flip: ds(1))
qed

text \<open>
  \<open>Complete\<close>, for as many completions as the ring holds, is safe against a kernel that completes
  further frames while it runs: it releases the frames that it releases alone, and the ring then
  holds the completions that follow, with those of the kernel at the end.
\<close>

lemma Complete_atomic:
  assumes "sock_ok x" and "n \<le> length (comp_queue x)" and "Complete x (int n) = Inr x'"
  shows "(\<exists>s. (cstep (comp_size x))\<^sup>*\<^sup>* (cstart (completionRing x) n) s \<and>
      c_done s \<and> c_got s = take n (comp_queue x) \<and> c_ring s = completionRing x') \<and>
    (\<forall>s. (cstep (comp_size x))\<^sup>*\<^sup>* (cstart (completionRing x) n) s \<and> c_done s \<longrightarrow>
      c_got s = take n (comp_queue x) \<and> ring_view (comp_size x) (c_ring s) = comp_queue x' @ c_put s)"
  by (rule comp_race.consume_atomic [OF assms])

end
