(* ===== verification/Xsk_Memory.thy ===== *)
theory Xsk_Memory
  imports Xsk_Race
begin

text \<open>
  The rings on machines that delay and reorder memory accesses. \<^verbatim>\<open>xdp.go\<close> has fences between its
  accesses to the entries and to the counters of a ring, all of them commented out. Here stores wait in a
  buffer until they take effect, and loads may be done early or late; a flag says whether the fence is
  there, another whether the machine keeps stores in order, as x86 does. With one of the two the
  operations have the effect that \<^verbatim>\<open>Xsk_Race\<close> shows for accesses in program order; with neither the
  kernel, or the program, can take an entry that was never written.
\<close>

section \<open>Stores in a buffer\<close>

datatype 'd mem_write = Slot nat 'd | Counter u32

fun commit :: "'d mem_write \<Rightarrow> 'd ring \<Rightarrow> 'd ring" where
  "commit (Slot k v) r = r\<lparr>Descs := (Descs r)[k := v]\<rparr>"
| "commit (Counter p) r = r\<lparr>Producer := Some p\<rparr>"

fun same_place :: "'d mem_write \<Rightarrow> 'd mem_write \<Rightarrow> bool" where
  "same_place (Slot k v) (Slot k' v') \<longleftrightarrow> k = k'"
| "same_place (Counter p) (Counter p') \<longleftrightarrow> True"
| "same_place _ _ \<longleftrightarrow> False"

text \<open>The shared ring, the buffer with the oldest store first, and the rest as in \<open>pthread\<close>.\<close>

record 'd bthread =
  b_ring :: "'d ring"
  b_buf :: "'d mem_write list"
  b_todo :: "'d list"
  b_prd :: u32
  b_seen :: "'d list"
  b_done :: bool

text \<open>
  \<open>fence\<close>: the counter is stored only when the buffer is empty. \<open>weak\<close>: a store may overtake older
  ones to other places. The kernel reads the shared ring.
\<close>

inductive bstep :: "bool \<Rightarrow> bool \<Rightarrow> nat \<Rightarrow> 'd bthread \<Rightarrow> 'd bthread \<Rightarrow> bool" for fence weak n where
  b_store: "b_todo s = v # vs \<Longrightarrow>
    bstep fence weak n s (s\<lparr>b_buf := b_buf s @ [Slot (ring_slot (int n) (b_prd s)) v], b_todo := vs, b_prd := b_prd s + 1\<rparr>)"
| b_publish: "b_todo s = [] \<Longrightarrow> \<not> b_done s \<Longrightarrow> (fence \<longrightarrow> b_buf s = []) \<Longrightarrow>
    bstep fence weak n s (s\<lparr>b_buf := b_buf s @ [Counter (b_prd s)], b_done := True\<rparr>)"
| b_flush: "b_buf s = older @ w # newer \<Longrightarrow> weak \<or> older = [] \<Longrightarrow> \<forall>a \<in> set older. \<not> same_place a w \<Longrightarrow>
    bstep fence weak n s (s\<lparr>b_ring := commit w (b_ring s), b_buf := older @ newer\<rparr>)"
| b_kernel: "ring_view n (b_ring s) = v # q \<Longrightarrow>
    bstep fence weak n s (s\<lparr>b_ring := kern_get (b_ring s), b_seen := b_seen s @ [v]\<rparr>)"

definition bstart :: "'d ring \<Rightarrow> 'd list \<Rightarrow> 'd bthread" where
  "bstart r vs = \<lparr>b_ring = r, b_buf = [], b_todo = vs, b_prd = the (Producer r), b_seen = [], b_done = False\<rparr>"

text \<open>The counter has been stored and the store has taken effect.\<close>

definition visible :: "'d bthread \<Rightarrow> bool" where
  "visible s \<longleftrightarrow> b_done s \<and> Counter (b_prd s) \<notin> set (b_buf s)"

section \<open>Ordered stores\<close>

text \<open>
  The state of \<^verbatim>\<open>Xsk_Race\<close> that a state with a buffer stands for: entries count as written when they are
  in the buffer, the counter when its store has taken effect.
\<close>

fun is_slot :: "'d mem_write \<Rightarrow> bool" where
  "is_slot (Slot k v) \<longleftrightarrow> True"
| "is_slot (Counter p) \<longleftrightarrow> False"

definition settle :: "'d bthread \<Rightarrow> 'd pthread" where
  "settle s = \<lparr>p_ring = fold commit (filter is_slot (b_buf s)) (b_ring s), p_todo = b_todo s, p_prd = b_prd s,
     p_seen = b_seen s, p_done = visible s\<rparr>"

text \<open>
  All stores to entries are older than the one to the counter, and none of them goes to a slot that the
  kernel may read before the counter takes effect.
\<close>

definition buf_shape :: "bool \<Rightarrow> 'd bthread \<Rightarrow> bool" where
  "buf_shape fence s \<longleftrightarrow>
     (if visible s then b_buf s = [] \<and> b_todo s = []
      else if b_done s then b_todo s = [] \<and>
        (\<exists>ws. b_buf s = ws @ [Counter (b_prd s)] \<and> list_all is_slot ws \<and> (fence \<longrightarrow> ws = []))
      else list_all is_slot (b_buf s))"

definition slots_ahead :: "nat \<Rightarrow> u32 \<Rightarrow> nat \<Rightarrow> 'd bthread \<Rightarrow> bool" where
  "slots_ahead n p0 m s \<longleftrightarrow> b_prd s = p0 + of_nat (m - length (b_todo s)) \<and>
     (\<forall>k v. Slot k v \<in> set (b_buf s) \<longrightarrow> (\<exists>j. j + length (b_todo s) < m \<and> k = ring_slot (int n) (p0 + of_nat j)))"

definition binv :: "bool \<Rightarrow> nat \<Rightarrow> u32 \<Rightarrow> 'd list \<Rightarrow> 'd list \<Rightarrow> 'd bthread \<Rightarrow> bool" where
  "binv fence n p0 v0 vs s \<longleftrightarrow> buf_shape fence s \<and> slots_ahead n p0 (length vs) s \<and> pinv n p0 v0 vs (settle s)"

lemma commit_commute: "\<not> same_place a b \<Longrightarrow> commit a (commit b r) = commit b (commit a r)"
  by (cases a; cases b) (auto simp: list_update_swap)

lemma fold_commit_first:
  "\<forall>a \<in> set ws. \<not> same_place a w \<Longrightarrow> fold commit ws (commit w r) = commit w (fold commit ws r)"
proof (induction ws arbitrary: r)
  case (Cons a ws)
  then have "commit a (commit w r) = commit w (commit a r)" by (intro commit_commute) simp
  with Cons show ?case by simp
qed simp

lemma fold_commit_slots:
  "list_all is_slot ws \<Longrightarrow> Producer (fold commit ws r) = Producer r \<and> Consumer (fold commit ws r) = Consumer r"
  by (induction ws arbitrary: r) (auto elim!: is_slot.elims)

lemma window_update: "\<forall>i < k. (unat c + i) mod n \<noteq> j \<Longrightarrow> window n c (ds[j := v]) k = window n c ds k"
  by (auto simp: window_def)

lemma fold_commit_window:
  "list_all is_slot ws \<Longrightarrow> \<forall>j v. Slot j v \<in> set ws \<longrightarrow> (\<forall>i < k. (unat c + i) mod n \<noteq> j) \<Longrightarrow>
   window n c (Descs (fold commit ws r)) k = window n c (Descs r) k"
proof (induction ws arbitrary: r)
  case (Cons w ws)
  then obtain j v where w: "w = Slot j v" by (cases w) auto
  with Cons.prems have "window n c ((Descs r)[j := v]) k = window n c (Descs r) k"
    by (intro window_update) auto
  moreover have "window n c (Descs (fold commit ws (commit w r))) k = window n c (Descs (commit w r)) k"
    using Cons.prems by (intro Cons.IH) auto
  ultimately show ?case by (simp add: w)
qed simp

lemma filter_slots: "list_all is_slot ws \<Longrightarrow> filter is_slot ws = ws"
  by (induction ws) auto

lemma slots_filter: "list_all is_slot (filter is_slot ws)"
  by (simp add: list_all_iff)

lemma settle_sel [simp]:
  "p_todo (settle s) = b_todo s" "p_prd (settle s) = b_prd s" "p_seen (settle s) = b_seen s"
  "p_done (settle s) = visible s"
  "Producer (p_ring (settle s)) = Producer (b_ring s)" "Consumer (p_ring (settle s)) = Consumer (b_ring s)"
  using fold_commit_slots [OF slots_filter, of "b_buf s" "b_ring s"] by (simp_all add: settle_def)

text \<open>Stores that wait do not concern what the kernel sees.\<close>

lemma settle_view:
  assumes "binv fence n p0 v0 vs s"
  shows "ring_view n (p_ring (settle s)) = ring_view n (b_ring s)"
proof (cases "visible s")
  case True
  then show ?thesis using assms by (simp add: binv_def buf_shape_def settle_def)
next
  case False
  have inv: "pinv n p0 v0 vs (settle s)" and ahead: "slots_ahead n p0 (length vs) s"
    using assms by (simp_all add: binv_def)
  from inv False obtain c where c: "Producer (b_ring s) = Some p0" "Consumer (b_ring s) = Some c"
    "unat (p0 - c) + length (b_seen s) = length v0" by (auto simp: pinv_def)
  have sz: "ring_size n" using inv by (auto simp: pinv_def ring_ok_def)
  have "length (b_seen s) + length (ring_view n (pub (settle s))) + length (b_todo s) = length v0 + length vs"
    using inv unfolding pinv_def by (metis length_append add.assoc settle_sel(1,3))
  moreover have "length (ring_view n (pub (settle s))) + length (b_todo s) \<le> n"
    using inv by (simp add: pinv_def)
  ultimately have room: "unat (p0 - c) + length vs \<le> n" using c(3) by linarith
  have "(unat c + i) mod n \<noteq> k" if "Slot k v \<in> set (b_buf s)" "i < unat (p0 - c)" for k v i
  proof -
    from ahead that(1) obtain j where j: "j + length (b_todo s) < length vs" "k = ring_slot (int n) (p0 + of_nat j)"
      by (auto simp: slots_ahead_def)
    have "p0 + of_nat j = c + of_nat (unat (p0 - c) + j)" by simp
    from slot_at [OF sz this] j(2) have "k = (unat c + (unat (p0 - c) + j)) mod n" by simp
    with mod_neq_of_less [of i "unat (p0 - c) + j" n "unat c"] that(2) j(1) room show ?thesis by simp
  qed
  then have "window n c (Descs (fold commit (filter is_slot (b_buf s)) (b_ring s))) (unat (p0 - c)) =
      window n c (Descs (b_ring s)) (unat (p0 - c))"
    by (intro fold_commit_window slots_filter) auto
  then show ?thesis using c unfolding ring_view_def settle_sel by (simp add: settle_def)
qed

lemma kern_get_commit: "commit w (kern_get r) = kern_get (commit w r)"
  by (cases w) (simp_all add: kern_get_def)

lemma kern_get_commits: "fold commit ws (kern_get r) = kern_get (fold commit ws r)"
  by (induction ws arbitrary: r) (simp_all add: kern_get_commit)

lemma settle_store:
  assumes "b_todo s = v # vs" and "\<not> b_done s"
  shows "pstep n (settle s) (settle (s\<lparr>b_buf := b_buf s @ [Slot (ring_slot (int n) (b_prd s)) v],
    b_todo := vs, b_prd := b_prd s + 1\<rparr>))"
proof -
  have "p_todo (settle s) = v # vs" using assms(1) by simp
  from p_store [OF this, of n] show ?thesis using assms by (simp add: settle_def visible_def)
qed

lemma settle_publish:
  "\<not> b_done s \<Longrightarrow> settle (s\<lparr>b_buf := b_buf s @ [Counter (b_prd s)], b_done := True\<rparr>) = settle s"
  by (simp add: settle_def visible_def)

lemma settle_flush:
  assumes "b_buf s = older @ w # newer" and "\<forall>a \<in> set older. \<not> same_place a w" and "is_slot w"
  shows "settle (s\<lparr>b_ring := commit w (b_ring s), b_buf := older @ newer\<rparr>) = settle s"
proof -
  have "fold commit (filter is_slot older) (commit w (b_ring s)) = commit w (fold commit (filter is_slot older) (b_ring s))"
    using assms(2) by (intro fold_commit_first) auto
  moreover have "w \<noteq> Counter (b_prd s)" using assms(3) by auto
  ultimately show ?thesis using assms(1,3) by (simp add: settle_def visible_def)
qed

lemma settle_counter:
  assumes "b_buf s = [Counter (b_prd s)]" and "b_done s" and "b_todo s = []"
  shows "pstep n (settle s) (settle (s\<lparr>b_ring := commit (Counter (b_prd s)) (b_ring s), b_buf := []\<rparr>))"
proof -
  have "p_todo (settle s) = []" "\<not> p_done (settle s)" using assms by (simp_all add: visible_def)
  from p_publish [OF this, of n] show ?thesis using assms by (simp add: settle_def visible_def)
qed

lemma settle_kernel:
  assumes "ring_view n (p_ring (settle s)) = v # q"
  shows "pstep n (settle s) (settle (s\<lparr>b_ring := kern_get (b_ring s), b_seen := b_seen s @ [v]\<rparr>))"
  using p_kernel [OF assms] by (simp add: settle_def visible_def kern_get_commits)

text \<open>A counter leaves an ordered buffer last.\<close>

lemma counter_last:
  assumes "buf_shape fence s" and "fence \<or> \<not> weak" and "b_buf s = older @ w # newer"
    and "weak \<or> older = []" and "\<not> is_slot w"
  shows "older = [] \<and> newer = [] \<and> w = Counter (b_prd s) \<and> b_done s \<and> b_todo s = []"
proof -
  have "b_done s" "\<not> visible s" using assms(1,3,5) by (auto simp: buf_shape_def split: if_splits)
  with assms(1) obtain ws where ws: "b_buf s = ws @ [Counter (b_prd s)]" "list_all is_slot ws"
    "fence \<longrightarrow> ws = []" "b_todo s = []" by (auto simp: buf_shape_def)
  from ws(1) assms(3) have "older @ w # newer = ws @ [Counter (b_prd s)]" by simp
  then have "newer = [] \<and> older = ws \<and> w = Counter (b_prd s) \<or> w \<in> set ws"
    by (cases newer rule: rev_cases) auto
  with ws assms(2,4,5) \<open>b_done s\<close> show ?thesis by (auto simp: list_all_iff)
qed

lemma slots_ahead_store:
  assumes "slots_ahead n p0 m s" and "b_todo s = v # vs" and "length (b_todo s) \<le> m"
  shows "slots_ahead n p0 m (s\<lparr>b_buf := b_buf s @ [Slot (ring_slot (int n) (b_prd s)) v],
    b_todo := vs, b_prd := b_prd s + 1\<rparr>)"
proof -
  obtain j where j: "m = Suc (length vs + j)" using assms(2,3) by (metis Suc_le_D add_Suc le_iff_add length_Cons)
  have p: "b_prd s = p0 + of_nat j" using assms(1,2) j by (simp add: slots_ahead_def)
  have "\<exists>i. i + length vs < m \<and> k = ring_slot (int n) (p0 + of_nat i)" if "Slot k w \<in> set (b_buf s)" for k w
  proof -
    from assms(1,2) that obtain i where "i + length (v # vs) < m" "k = ring_slot (int n) (p0 + of_nat i)"
      unfolding slots_ahead_def by metis
    then show ?thesis by (intro exI [of _ i]) simp
  qed
  moreover have "b_prd s + 1 = p0 + of_nat (m - length vs)" using p j by (simp add: add.assoc)
  ultimately show ?thesis using p j by (auto simp: slots_ahead_def intro!: exI [of _ j])
qed

lemma buf_shape_flush:
  assumes "buf_shape fence s" and "b_buf s = older @ w # newer" and "is_slot w"
  shows "buf_shape fence (s\<lparr>b_ring := r, b_buf := older @ newer\<rparr>)"
proof (cases "b_done s")
  case True
  with assms obtain ws where ws: "older @ w # newer = ws @ [Counter (b_prd s)]" "list_all is_slot ws"
    "fence \<longrightarrow> ws = []" "b_todo s = []" by (auto simp: buf_shape_def split: if_splits)
  with assms(3) obtain newer' where "newer = newer' @ [Counter (b_prd s)]" "ws = older @ w # newer'"
    by (cases newer rule: rev_cases) auto
  with ws True show ?thesis by (auto simp: buf_shape_def visible_def)
next
  case False
  with assms show ?thesis by (simp add: buf_shape_def visible_def)
qed

lemma bstep_binv:
  assumes "bstep fence weak n s s'" and "fence \<or> \<not> weak" and "binv fence n p0 v0 vs s"
  shows "binv fence n p0 v0 vs s'"
proof -
  have shape: "buf_shape fence s" and ahead: "slots_ahead n p0 (length vs) s" and inv: "pinv n p0 v0 vs (settle s)"
    using assms(3) by (simp_all add: binv_def)
  from assms(1) show ?thesis
  proof cases
    case (b_store v ws)
    then have nd: "\<not> b_done s" using shape by (auto simp: buf_shape_def split: if_splits)
    with b_store shape have "buf_shape fence s'" by (simp add: buf_shape_def visible_def)
    moreover have "slots_ahead n p0 (length vs) s'"
      unfolding b_store(1) by (rule slots_ahead_store [OF ahead b_store(2)]) (use inv in \<open>simp add: pinv_def\<close>)
    moreover have "pinv n p0 v0 vs (settle s')"
      unfolding b_store(1) by (rule pstep_pinv [OF settle_store inv]) (use b_store nd in auto)
    ultimately show ?thesis by (simp add: binv_def)
  next
    case b_publish
    with shape have "buf_shape fence s'" by (auto simp: buf_shape_def visible_def)
    moreover have "slots_ahead n p0 (length vs) s'" using ahead b_publish by (simp add: slots_ahead_def)
    ultimately show ?thesis using inv b_publish by (simp add: binv_def settle_publish)
  next
    case (b_flush older w newer)
    show ?thesis
    proof (cases "is_slot w")
      case True
      have "buf_shape fence s'" unfolding b_flush(1) by (rule buf_shape_flush [OF shape b_flush(2) True])
      moreover have "slots_ahead n p0 (length vs) s'" using ahead b_flush by (auto simp: slots_ahead_def)
      ultimately show ?thesis using inv settle_flush [OF b_flush(2,4) True] b_flush(1) by (simp add: binv_def)
    next
      case False
      note c = counter_last [OF shape assms(2) b_flush(2,3) False]
      then have "buf_shape fence s'" using b_flush by (simp add: buf_shape_def visible_def)
      moreover have "slots_ahead n p0 (length vs) s'" using ahead b_flush c by (simp add: slots_ahead_def)
      moreover have "pinv n p0 v0 vs (settle s')"
        using pstep_pinv [OF settle_counter inv] b_flush c by simp
      ultimately show ?thesis by (simp add: binv_def)
    qed
  next
    case (b_kernel v q)
    have "buf_shape fence s'" using shape b_kernel(1) by (simp add: buf_shape_def visible_def)
    moreover have "slots_ahead n p0 (length vs) s'" using ahead b_kernel(1) by (simp add: slots_ahead_def)
    moreover have "pinv n p0 v0 vs (settle s')"
      unfolding b_kernel(1) using b_kernel(2)
      by (intro pstep_pinv [OF settle_kernel inv]) (simp add: settle_view [OF assms(3)])
    ultimately show ?thesis by (simp add: binv_def)
  qed
qed

lemma bstart_binv:
  assumes "ring_ok n r" and "length (ring_view n r) + length vs \<le> n"
  shows "binv fence n (the (Producer r)) (ring_view n r) vs (bstart r vs)"
proof -
  have "settle (bstart r vs) = pstart r vs" by (simp add: settle_def bstart_def pstart_def visible_def)
  with pstart_pinv [OF assms] show ?thesis
    by (simp add: binv_def) (simp add: bstart_def buf_shape_def slots_ahead_def visible_def)
qed

text \<open>What the kernel has seen and what it sees, in every state that ordered stores lead to.\<close>

lemma ordered_stores:
  assumes "fence \<or> \<not> weak" and "ring_ok n r" and "length (ring_view n r) + length vs \<le> n"
    and "(bstep fence weak n)\<^sup>*\<^sup>* (bstart r vs) s"
  shows "b_seen s @ ring_view n (b_ring s) = (if visible s then ring_view n r @ vs else ring_view n r)"
proof -
  from assms(4) have i: "binv fence n (the (Producer r)) (ring_view n r) vs s"
    by (induction rule: rtranclp_induct) (auto intro: bstart_binv [OF assms(2,3)] bstep_binv [OF _ assms(1)])
  then show ?thesis using pinv_view [of n "the (Producer r)" "ring_view n r" vs "settle s"] settle_view [OF i] by (simp add: binv_def)
qed

section \<open>Runs\<close>

text \<open>
  One order of events that every machine allows: each store takes effect before the next access. It
  needs no assumption on \<open>fence\<close> and \<open>weak\<close>, so the results on all runs are not about nothing.
\<close>

lemma stores_eager:
  "(bstep fence weak n)\<^sup>*\<^sup>*
     \<lparr>b_ring = r\<lparr>Descs := descs\<rparr>, b_buf = [], b_todo = vs, b_prd = p, b_seen = [], b_done = False\<rparr>
     \<lparr>b_ring = r\<lparr>Descs := stores n vs p descs\<rparr>, b_buf = [], b_todo = [], b_prd = p + of_nat (length vs),
      b_seen = [], b_done = False\<rparr>"
proof (induction vs arbitrary: p descs)
  case (Cons v vs)
  let ?w = "Slot (ring_slot (int n) p) v"
  let ?s = "\<lparr>b_ring = r\<lparr>Descs := descs\<rparr>, b_buf = [], b_todo = v # vs, b_prd = p, b_seen = [], b_done = False\<rparr>"
  let ?t = "\<lparr>b_ring = r\<lparr>Descs := descs\<rparr>, b_buf = [?w], b_todo = vs, b_prd = p + 1, b_seen = [], b_done = False\<rparr>"
  have "bstep fence weak n ?s ?t" using b_store [of ?s v vs fence weak n] by simp
  moreover have "bstep fence weak n ?t \<lparr>b_ring = r\<lparr>Descs := descs[ring_slot (int n) p := v]\<rparr>, b_buf = [],
      b_todo = vs, b_prd = p + 1, b_seen = [], b_done = False\<rparr>"
    using b_flush [of ?t "[]" ?w "[]" weak fence n] by simp
  ultimately show ?case
    using Cons.IH [where p = "p + 1" and descs = "descs[ring_slot (int n) p := v]"]
    by (simp add: add.assoc converse_rtranclp_into_rtranclp)
qed simp

lemma publish_run:
  assumes "b_todo s = []" and "\<not> b_done s" and "b_buf s = []"
  shows "(bstep fence weak n)\<^sup>*\<^sup>* s (s\<lparr>b_ring := (b_ring s)\<lparr>Producer := Some (b_prd s)\<rparr>, b_done := True\<rparr>)"
proof -
  let ?t = "s\<lparr>b_buf := [Counter (b_prd s)], b_done := True\<rparr>"
  have "bstep fence weak n s ?t" using b_publish [OF assms(1,2), of fence weak n] assms(3) by simp
  moreover have "bstep fence weak n ?t (s\<lparr>b_ring := (b_ring s)\<lparr>Producer := Some (b_prd s)\<rparr>, b_done := True\<rparr>)"
    using b_flush [of ?t "[]" "Counter (b_prd s)" "[]" weak fence n] assms(3) by (cases s) simp
  ultimately show ?thesis by simp
qed

lemma stores_complete:
  assumes "Producer r = Some p"
  shows "\<exists>s. (bstep fence weak n)\<^sup>*\<^sup>* (bstart r vs) s \<and> visible s \<and>
    b_ring s = r\<lparr>Producer := Some (p + of_nat (length vs)), Descs := stores n vs p (Descs r)\<rparr>"
proof -
  let ?t = "\<lparr>b_ring = r\<lparr>Descs := stores n vs p (Descs r)\<rparr>, b_buf = [], b_todo = [], b_prd = p + of_nat (length vs),
      b_seen = [], b_done = False\<rparr>"
  let ?u = "?t\<lparr>b_ring := r\<lparr>Producer := Some (p + of_nat (length vs)), Descs := stores n vs p (Descs r)\<rparr>, b_done := True\<rparr>"
  have "(bstep fence weak n)\<^sup>*\<^sup>* (bstart r vs) ?t"
    using stores_eager [where r = r and descs = "Descs r" and p = p] assms by (simp add: bstart_def)
  moreover have "(bstep fence weak n)\<^sup>*\<^sup>* ?t ?u" using publish_run [of ?t fence weak n] by (cases r) simp
  ultimately show ?thesis by (intro exI [of _ ?u]) (simp add: visible_def)
qed

section \<open>The accesses of \<open>Fill\<close>\<close>

text \<open>
  The stores to shared memory that \<open>Fill\<close> makes, in program order. The source has no fence among them:
  the call of \<open>fencer.SFence()\<close> before the last one is commented out.
\<close>

datatype 'd access = Write "'d mem_write" | SFence

fun fill_accesses :: "socket_options \<Rightarrow> Desc list \<Rightarrow> u32 \<Rightarrow> u64 access list" where
  "fill_accesses opts [] prd = [Write (Counter prd)]"
| "fill_accesses opts (desc # descs) prd =
     Write (Slot (ring_slot (FillRingNumDescs opts) prd) (Addr desc)) # fill_accesses opts descs (prd + 1)"

definition Fill_accesses :: "socket \<Rightarrow> Desc list \<Rightarrow> u64 access list" where
  "Fill_accesses xsk descs =
     (case (NumFreeFillSlots xsk, Producer (fillRing xsk)) of
        (Inr numFreeSlots, Some prd) \<Rightarrow>
          fill_accesses (options xsk)
            (if numFreeSlots < int (length descs) then take (nat numFreeSlots) descs else descs) prd
      | _ \<Rightarrow> [])"

text \<open>The stores alone, and the sequence with the fence that is commented out.\<close>

fun stored :: "'d access list \<Rightarrow> 'd mem_write list" where
  "stored [] = []"
| "stored (Write w # as) = w # stored as"
| "stored (SFence # as) = stored as"

fun add_sfence :: "'d access list \<Rightarrow> 'd access list" where
  "add_sfence [] = []"
| "add_sfence (Write (Counter p) # as) = SFence # Write (Counter p) # add_sfence as"
| "add_sfence (a # as) = a # add_sfence as"

text \<open>
  A machine that runs such a sequence: a store is put into the buffer, a fence waits until the buffer is
  empty, and stores leave the buffer as in \<open>bstep\<close>.
\<close>

record 'd machine =
  m_ring :: "'d ring"
  m_buf :: "'d mem_write list"
  m_todo :: "'d access list"
  m_seen :: "'d list"

inductive mstep :: "bool \<Rightarrow> nat \<Rightarrow> 'd machine \<Rightarrow> 'd machine \<Rightarrow> bool" for weak n where
  m_write: "m_todo m = Write w # as \<Longrightarrow> mstep weak n m (m\<lparr>m_buf := m_buf m @ [w], m_todo := as\<rparr>)"
| m_sfence: "m_todo m = SFence # as \<Longrightarrow> m_buf m = [] \<Longrightarrow> mstep weak n m (m\<lparr>m_todo := as\<rparr>)"
| m_flush: "m_buf m = older @ w # newer \<Longrightarrow> weak \<or> older = [] \<Longrightarrow> \<forall>a \<in> set older. \<not> same_place a w \<Longrightarrow>
    mstep weak n m (m\<lparr>m_ring := commit w (m_ring m), m_buf := older @ newer\<rparr>)"
| m_kernel: "ring_view n (m_ring m) = v # q \<Longrightarrow>
    mstep weak n m (m\<lparr>m_ring := kern_get (m_ring m), m_seen := m_seen m @ [v]\<rparr>)"

definition mstart :: "'d ring \<Rightarrow> 'd access list \<Rightarrow> 'd machine" where
  "mstart r as = \<lparr>m_ring = r, m_buf = [], m_todo = as, m_seen = []\<rparr>"

fun slot_writes :: "nat \<Rightarrow> 'd list \<Rightarrow> u32 \<Rightarrow> 'd mem_write list" where
  "slot_writes n [] p = []"
| "slot_writes n (v # vs) p = Slot (ring_slot (int n) p) v # slot_writes n vs (p + 1)"

definition submit_accesses :: "bool \<Rightarrow> nat \<Rightarrow> 'd list \<Rightarrow> u32 \<Rightarrow> 'd access list" where
  "submit_accesses fence n vs p =
     map Write (slot_writes n vs p) @ (if fence then [SFence] else []) @ [Write (Counter (p + of_nat (length vs)))]"

lemma fill_accesses_eq:
  "FillRingNumDescs opts = int n \<Longrightarrow> fill_accesses opts ds p = submit_accesses False n (map Addr ds) p"
  by (induction ds arbitrary: p) (simp_all add: submit_accesses_def add.assoc)

lemma add_sfence_submit: "add_sfence (submit_accesses False n vs p) = submit_accesses True n vs p"
proof -
  have "add_sfence (map Write (slot_writes n vs p) @ [Write (Counter q)]) =
      map Write (slot_writes n vs p) @ [SFence, Write (Counter q)]" for q :: u32
    by (induction vs arbitrary: p) simp_all
  then show ?thesis by (simp add: submit_accesses_def)
qed

lemma stored_submit: "stored (submit_accesses False n vs p) = slot_writes n vs p @ [Counter (p + of_nat (length vs))]"
proof -
  have "stored (map Write ws @ as) = ws @ stored as" for ws :: "'a mem_write list" and as
    by (induction ws) simp_all
  then show ?thesis by (simp add: submit_accesses_def)
qed

lemma slot_writes_places: "a \<in> set (slot_writes n vs p) \<Longrightarrow> \<not> same_place a (Counter q)"
  by (induction vs arbitrary: p) auto

lemma commit_slots: "fold commit (slot_writes n vs p) r = r\<lparr>Descs := stores n vs p (Descs r)\<rparr>"
  by (induction vs arbitrary: p r) simp_all

text \<open>The machine in lockstep with \<open>bstep\<close>.\<close>

definition runs_as :: "bool \<Rightarrow> nat \<Rightarrow> 'd machine \<Rightarrow> 'd bthread \<Rightarrow> bool" where
  "runs_as fence n m s \<longleftrightarrow> m_ring m = b_ring s \<and> m_buf m = b_buf s \<and> m_seen m = b_seen s \<and>
     (if b_done s then m_todo m = []
      else m_todo m = submit_accesses fence n (b_todo s) (b_prd s) \<or>
        b_todo s = [] \<and> (fence \<longrightarrow> b_buf s = []) \<and> m_todo m = [Write (Counter (b_prd s))])"

lemma submit_accesses_simps [simp]:
  "submit_accesses fence n (v # vs) p = Write (Slot (ring_slot (int n) p) v) # submit_accesses fence n vs (p + 1)"
  "submit_accesses fence n [] p = (if fence then [SFence, Write (Counter p)] else [Write (Counter p)])"
  by (simp_all add: submit_accesses_def add.assoc)

lemma mstep_runs_as:
  assumes "mstep weak n m m'" and "runs_as fence n m s"
  shows "\<exists>s'. (bstep fence weak n)\<^sup>*\<^sup>* s s' \<and> runs_as fence n m' s'"
  using assms(1)
proof cases
  case (m_write w as)
  with assms(2) have nd: "\<not> b_done s" by (auto simp: runs_as_def)
  show ?thesis
  proof (cases "b_todo s")
    case Nil
    with assms(2) nd m_write have "w = Counter (b_prd s)" "as = []" "fence \<longrightarrow> b_buf s = []"
      by (auto simp: runs_as_def split: if_splits)
    with assms(2) m_write b_publish [of s fence weak n] Nil nd show ?thesis
      by (intro exI [of _ "s\<lparr>b_buf := b_buf s @ [Counter (b_prd s)], b_done := True\<rparr>"]) (auto simp: runs_as_def)
  next
    case (Cons v vs)
    with assms(2) nd m_write b_store [OF Cons, of fence weak n] show ?thesis
      by (intro exI [of _ "s\<lparr>b_buf := b_buf s @ [Slot (ring_slot (int n) (b_prd s)) v], b_todo := vs, b_prd := b_prd s + 1\<rparr>"])
        (auto simp: runs_as_def)
  qed
next
  case (m_sfence as)
  with assms(2) have "b_todo s = []" by (cases "b_todo s") (auto simp: runs_as_def split: if_splits)
  with assms(2) m_sfence show ?thesis by (intro exI [of _ s]) (auto simp: runs_as_def split: if_splits)
next
  case (m_flush older w newer)
  with assms(2) have "b_buf s = older @ w # newer" by (simp add: runs_as_def)
  from b_flush [OF this m_flush(3,4), of fence n] assms(2) m_flush show ?thesis
    by (intro exI [of _ "s\<lparr>b_ring := commit w (b_ring s), b_buf := older @ newer\<rparr>"]) (auto simp: runs_as_def)
next
  case (m_kernel v q)
  with assms(2) have "ring_view n (b_ring s) = v # q" by (simp add: runs_as_def)
  from b_kernel [OF this, of fence weak] assms(2) m_kernel show ?thesis
    by (intro exI [of _ "s\<lparr>b_ring := kern_get (b_ring s), b_seen := b_seen s @ [v]\<rparr>"]) (auto simp: runs_as_def)
qed

text \<open>What the kernel sees of such a sequence when its stores are ordered.\<close>

lemma ordered_accesses:
  assumes "fence \<or> \<not> weak" and "ring_ok n r" and "length (ring_view n r) + length vs \<le> n" and "Producer r = Some p"
    and "(mstep weak n)\<^sup>*\<^sup>* (mstart r (submit_accesses fence n vs p)) m"
  shows "m_seen m @ ring_view n (m_ring m) \<in> {ring_view n r, ring_view n r @ vs}"
proof -
  have "\<exists>s. (bstep fence weak n)\<^sup>*\<^sup>* (bstart r vs) s \<and> runs_as fence n m s"
    using assms(5)
  proof (induction rule: rtranclp_induct)
    case base
    show ?case using assms(4) by (intro exI [of _ "bstart r vs"]) (simp add: runs_as_def mstart_def bstart_def)
  next
    case (step m m')
    then obtain s where "(bstep fence weak n)\<^sup>*\<^sup>* (bstart r vs) s" "runs_as fence n m s" by blast
    with mstep_runs_as [OF step(2)] show ?case by (meson rtranclp_trans)
  qed
  then obtain s where s: "(bstep fence weak n)\<^sup>*\<^sup>* (bstart r vs) s" "runs_as fence n m s" by blast
  from ordered_stores [OF assms(1-3) s(1)] s(2) show ?thesis by (simp add: runs_as_def)
qed

text \<open>The kernel may consume all that it sees.\<close>

lemma kernel_drains:
  assumes "ring_ok n (m_ring m)"
  shows "\<exists>m'. (mstep weak n)\<^sup>*\<^sup>* m m' \<and> m_seen m' = m_seen m @ ring_view n (m_ring m) \<and>
    m_buf m' = m_buf m \<and> m_todo m' = m_todo m"
  using assms
proof (induction "ring_view n (m_ring m)" arbitrary: m)
  case Nil
  then show ?case by (intro exI [of _ m]) simp
next
  case (Cons v q)
  let ?t = "m\<lparr>m_ring := kern_get (m_ring m), m_seen := m_seen m @ [v]\<rparr>"
  note g = kern_get_view [OF Cons.prems Cons.hyps(2) [symmetric]]
  have "mstep weak n m ?t" using Cons.hyps(2) [symmetric] by (rule m_kernel)
  with Cons.hyps(1) [of ?t] g Cons.hyps(2) [symmetric] show ?case
    by (auto intro: converse_rtranclp_into_rtranclp)
qed

lemma writes_wait:
  "(mstep weak n)\<^sup>*\<^sup>* \<lparr>m_ring = r, m_buf = b, m_todo = map Write ws @ as, m_seen = t\<rparr>
     \<lparr>m_ring = r, m_buf = b @ ws, m_todo = as, m_seen = t\<rparr>"
proof (induction ws arbitrary: b)
  case (Cons w ws)
  have "mstep weak n \<lparr>m_ring = r, m_buf = b, m_todo = map Write (w # ws) @ as, m_seen = t\<rparr>
      \<lparr>m_ring = r, m_buf = b @ [w], m_todo = map Write ws @ as, m_seen = t\<rparr>"
    using m_write [of "\<lparr>m_ring = r, m_buf = b, m_todo = map Write (w # ws) @ as, m_seen = t\<rparr>" w "map Write ws @ as"] by simp
  with Cons.IH [of "b @ [w]"] show ?case by (simp add: converse_rtranclp_into_rtranclp)
qed simp

text \<open>
  Without the fence, on a machine that lets stores overtake each other: the counter takes effect first,
  and the kernel consumes what was in the slots before.
\<close>

lemma stale_run:
  assumes "ring_ok n r" and "Producer r = Some p" and "length (ring_view n r) + length vs \<le> n"
  shows "\<exists>m. (mstep True n)\<^sup>*\<^sup>* (mstart r (submit_accesses False n vs p)) m \<and>
    m_todo m = [] \<and> m_buf m = slot_writes n vs p \<and>
    m_seen m = ring_view n r @ map (\<lambda>i. Descs r ! ring_slot (int n) (p + of_nat i)) [0..<length vs]"
proof -
  let ?q = "p + of_nat (length vs)" and ?ws = "slot_writes n vs p"
  let ?r = "r\<lparr>Producer := Some ?q\<rparr>"
  from assms(1,2) obtain c where c: "Consumer r = Some c" "unat (p - c) \<le> n" "length (Descs r) = n" "ring_size n"
    "ring_view n r = window n c (Descs r) (unat (p - c))" by (auto elim!: ring_okE)
  have u: "unat (?q - c) = unat (p - c) + length vs"
  proof -
    have "?q - c = of_nat (unat (p - c) + length vs)" by simp
    moreover have "unat (p - c) + length vs < 2 ^ 32"
      using assms(3) c(5) ring_size_bounds [OF c(4)] by simp
    ultimately show ?thesis by (simp only: unat_of_nat) (simp add: take_bit_eq_mod)
  qed
  have slot: "Descs r ! ((unat c + (unat (p - c) + i)) mod n) = Descs r ! ring_slot (int n) (p + of_nat i)" for i
    by (subst slot_at [OF c(4), of _ c "unat (p - c) + i"]) simp_all
  have view: "ring_view n ?r = ring_view n r @ map (\<lambda>i. Descs r ! ring_slot (int n) (p + of_nat i)) [0..<length vs]"
  proof -
    have "window n c (Descs r) (unat (p - c) + k) = window n c (Descs r) (unat (p - c)) @
        map (\<lambda>i. Descs r ! ((unat c + (unat (p - c) + i)) mod n)) [0..<k]" for k
      by (induction k) (simp_all add: window_def)
    then show ?thesis using c(1,5) u by (simp add: ring_view_def slot)
  qed
  have ok: "ring_ok n ?r" using c u assms(3) by (simp add: ring_ok_def)
  let ?a = "\<lparr>m_ring = r, m_buf = ?ws @ [Counter ?q], m_todo = [], m_seen = []\<rparr>"
  let ?b = "\<lparr>m_ring = ?r, m_buf = ?ws, m_todo = [], m_seen = []\<rparr>"
  have "(mstep True n)\<^sup>*\<^sup>* (mstart r (submit_accesses False n vs p)) ?a"
    using writes_wait [of True n r "[]" "?ws @ [Counter ?q]" "[]" "[]"] by (simp add: mstart_def submit_accesses_def)
  moreover have "\<forall>a \<in> set ?ws. \<not> same_place a (Counter ?q)" using slot_writes_places by blast
  then have "mstep True n ?a ?b" using m_flush [of ?a ?ws "Counter ?q" "[]" True n] by simp
  moreover obtain m where "(mstep True n)\<^sup>*\<^sup>* ?b m" "m_seen m = ring_view n ?r" "m_buf m = ?ws" "m_todo m = []"
    using kernel_drains [of n ?b True] ok by auto
  ultimately show ?thesis using view by (metis (no_types, lifting) rtranclp.rtrancl_into_rtrancl rtranclp_trans)
qed

lemma Fill_accesses_eq:
  assumes "Fill x ds = Inr (k, x')" and "Producer (fillRing x) = Some p" and "0 \<le> FillRingNumDescs (options x)"
  shows "Fill_accesses x ds = submit_accesses False (fill_size x) (map Addr (take (nat k) ds)) p"
proof -
  have n: "FillRingNumDescs (options x) = int (fill_size x)" using assms(3) by simp
  from assms(1,2) obtain m where m: "NumFreeFillSlots x = Inr m"
    and k: "k = int (length (if m < int (length ds) then take (nat m) ds else ds))"
    by (auto simp: Fill_def rbind_eq_Inr Let_def)
  show ?thesis by (simp only: Fill_accesses_def m assms(2) prod.case sum.case option.case clip_take [OF k] fill_accesses_eq [OF n])
qed

context atomic_producer
begin

lemma submit_ordered:
  assumes "ok s" and "\<forall>d \<in> set ds. valid s d" and "submit s ds = Inr (k, s')" and "fence \<or> \<not> weak"
  shows "(\<exists>t. (bstep fence weak (capacity s))\<^sup>*\<^sup>* (bstart (ring s) (map item (take (nat k) ds))) t \<and>
      visible t \<and> b_ring t = ring s') \<and>
    (\<forall>t. (bstep fence weak (capacity s))\<^sup>*\<^sup>* (bstart (ring s) (map item (take (nat k) ds))) t \<longrightarrow>
      b_seen t @ ring_view (capacity s) (b_ring t) = (if visible t then queue s' else queue s))"
proof -
  let ?vs = "map item (take (nat k) ds)"
  note r = ring_law [OF assms(1), THEN conjunct1] ring_law [OF assms(1), THEN conjunct2]
  note room = submit_room [OF assms(1-3)]
  from ordered_stores [OF assms(4) r(1) room(1) [unfolded r(2)]] room(2) r(2)
  have "\<forall>t. (bstep fence weak (capacity s))\<^sup>*\<^sup>* (bstart (ring s) ?vs) t \<longrightarrow>
      b_seen t @ ring_view (capacity s) (b_ring t) = (if visible t then queue s' else queue s)" by simp
  moreover from r(1) obtain p where p: "Producer (ring s) = Some p" by (rule ring_okE)
  ultimately show ?thesis
    using stores_complete [OF p, of fence weak "capacity s" ?vs] store_law [OF assms(1,3) p assms(2)] room(3) by simp
qed

end

section \<open>Loads\<close>

text \<open>
  \<open>Receive\<close>, with the load of the producer counter by \<open>NumReceived\<close>: the shared ring, how many entries
  are taken once that is known, the local consumer counter, the entries loaded so far by their index,
  what the kernel has produced meanwhile, and whether the consumer counter has been written back.
\<close>

record 'd lthread =
  l_ring :: "'d ring"
  l_num :: "nat option"
  l_cons :: u32
  l_vals :: "nat \<Rightarrow> 'd option"
  l_put :: "'d list"
  l_done :: bool

text \<open>
  Loads of entries are not ordered among each other. \<open>early\<close>: they may be done before the producer
  counter is loaded, which \<open>fencer.LFence()\<close> would forbid. \<open>late\<close>: they may be done after the consumer
  counter is stored, which \<open>fencer.MFence()\<close> would forbid. x86 does neither.
\<close>

inductive lstep :: "bool \<Rightarrow> bool \<Rightarrow> nat \<Rightarrow> nat \<Rightarrow> 'd lthread \<Rightarrow> 'd lthread \<Rightarrow> bool" for early late n mx where
  l_count: "l_num s = None \<Longrightarrow>
    lstep early late n mx s (s\<lparr>l_num := Some (min mx (length (ring_view n (l_ring s))))\<rparr>)"
| l_load: "l_vals s i = None \<Longrightarrow> (case l_num s of Some k \<Rightarrow> i < k | None \<Rightarrow> early \<and> i < mx) \<Longrightarrow> (l_done s \<longrightarrow> late) \<Longrightarrow>
    lstep early late n mx s (s\<lparr>l_vals := (l_vals s)(i \<mapsto> Descs (l_ring s) ! ring_slot (int n) (l_cons s + of_nat i))\<rparr>)"
| l_publish: "l_num s = Some k \<Longrightarrow> \<not> l_done s \<Longrightarrow> late \<or> (\<forall>i < k. l_vals s i \<noteq> None) \<Longrightarrow>
    lstep early late n mx s (s\<lparr>l_ring := (l_ring s)\<lparr>Consumer := Some (l_cons s + of_nat k)\<rparr>, l_done := True\<rparr>)"
| l_kernel: "length (ring_view n (l_ring s)) < n \<Longrightarrow>
    lstep early late n mx s (s\<lparr>l_ring := kern_put (int n) v (l_ring s), l_put := l_put s @ [v]\<rparr>)"

definition lstart :: "'d ring \<Rightarrow> 'd lthread" where
  "lstart r = \<lparr>l_ring = r, l_num = None, l_cons = the (Consumer r), l_vals = (\<lambda>_. None), l_put = [], l_done = False\<rparr>"

text \<open>The call returns when the counter is stored and all entries are loaded; what it returns.\<close>

definition l_returns :: "'d lthread \<Rightarrow> bool" where
  "l_returns s \<longleftrightarrow> l_done s \<and> (case l_num s of None \<Rightarrow> False | Some k \<Rightarrow> list_all (\<lambda>i. l_vals s i \<noteq> None) [0..<k])"

definition l_got :: "'d lthread \<Rightarrow> 'd list" where
  "l_got s = map (\<lambda>i. the (l_vals s i)) [0..<(case l_num s of None \<Rightarrow> 0 | Some k \<Rightarrow> k)]"

text \<open>
  Ordered loads: an entry is loaded only when the kernel is known to have written it and before the
  kernel is told that it may be overwritten.
\<close>

definition linv :: "nat \<Rightarrow> nat \<Rightarrow> u32 \<Rightarrow> 'd list \<Rightarrow> 'd lthread \<Rightarrow> bool" where
  "linv n mx c0 v0 s \<longleftrightarrow> ring_ok n (l_ring s) \<and> l_cons s = c0 \<and>
     (case l_num s of
        None \<Rightarrow> (\<forall>i. l_vals s i = None) \<and> \<not> l_done s
      | Some k \<Rightarrow> min mx (length v0) \<le> k \<and> k \<le> mx \<and> k \<le> length (v0 @ l_put s) \<and>
          (\<forall>i v. l_vals s i = Some v \<longrightarrow> i < k \<and> v = (v0 @ l_put s) ! i) \<and>
          (l_done s \<longrightarrow> (\<forall>i < k. l_vals s i \<noteq> None) \<and> ring_view n (l_ring s) = drop k (v0 @ l_put s))) \<and>
     (\<not> l_done s \<longrightarrow> Consumer (l_ring s) = Some c0 \<and> ring_view n (l_ring s) = v0 @ l_put s)"

lemma lstep_linv:
  assumes "lstep False False n mx s s'" and "linv n mx c0 v0 s"
  shows "linv n mx c0 v0 s'"
  using assms(1)
proof cases
  case l_count
  with assms(2) show ?thesis by (auto simp: linv_def)
next
  case (l_load i)
  then obtain k where k: "l_num s = Some k" "i < k" by (auto split: option.splits)
  have i: "ring_ok n (l_ring s)" "Consumer (l_ring s) = Some c0" "ring_view n (l_ring s) = v0 @ l_put s"
    "l_cons s = c0" "k \<le> length (v0 @ l_put s)"
    using assms(2) l_load(4) k(1) by (auto simp: linv_def)
  then have "Descs (l_ring s) ! ring_slot (int n) (l_cons s + of_nat i) = (v0 @ l_put s) ! i"
    using ring_view_nth [OF i(1,2), of i] k(2) by simp
  with assms(2) k l_load show ?thesis by (simp add: linv_def)
next
  case (l_publish k)
  have i: "ring_ok n (l_ring s)" "Consumer (l_ring s) = Some c0" "ring_view n (l_ring s) = v0 @ l_put s"
    "l_cons s = c0" "k \<le> length (v0 @ l_put s)"
    using assms(2) l_publish(2,3) by (auto simp: linv_def)
  from i(1) obtain p where "Producer (l_ring s) = Some p" by (rule ring_okE)
  from ring_consumed [OF i(1) this i(2), of k] i assms(2) l_publish show ?thesis by (simp add: linv_def)
next
  case (l_kernel v)
  have ok: "ring_ok n (l_ring s)" using assms(2) by (simp add: linv_def)
  have cons: "Consumer (kern_put (int n) v (l_ring s)) = Consumer (l_ring s)" by (simp add: kern_put_def)
  note put = kern_put_view [OF ok l_kernel(2), of v]
  show ?thesis
  proof (cases "l_num s")
    case None
    then show ?thesis using assms(2) put cons l_kernel(1) by (simp add: linv_def)
  next
    case (Some k)
    then have k: "k \<le> length (v0 @ l_put s)" "\<forall>i v. l_vals s i = Some v \<longrightarrow> i < k \<and> v = (v0 @ l_put s) ! i"
      using assms(2) by (simp_all add: linv_def)
    then have "\<forall>i w. l_vals s i = Some w \<longrightarrow> i < k \<and> w = (v0 @ l_put s @ [v]) ! i"
      by (metis append.assoc nth_append order_less_le_trans)
    with assms(2) put cons l_kernel(1) Some k show ?thesis by (simp add: linv_def)
  qed
qed

lemma ordered_loads:
  assumes "ring_ok n r" and "(lstep False False n mx)\<^sup>*\<^sup>* (lstart r) s" and "l_done s"
  shows "l_returns s" and "length (l_got s) \<le> mx" and "min mx (length (ring_view n r)) \<le> length (l_got s)"
    and "l_got s @ ring_view n (l_ring s) = ring_view n r @ l_put s"
proof -
  from assms(1) obtain c where c: "Consumer r = Some c" by (rule ring_okE)
  then have "linv n mx c (ring_view n r) (lstart r)" using assms(1) by (simp add: linv_def lstart_def)
  with assms(2) have i: "linv n mx c (ring_view n r) s" by (induction rule: rtranclp_induct) (auto intro: lstep_linv)
  with assms(3) obtain k where k: "l_num s = Some k" "min mx (length (ring_view n r)) \<le> k" "k \<le> mx"
    "k \<le> length (ring_view n r @ l_put s)" "\<forall>i < k. l_vals s i \<noteq> None"
    "\<forall>i v. l_vals s i = Some v \<longrightarrow> v = (ring_view n r @ l_put s) ! i"
    "ring_view n (l_ring s) = drop k (ring_view n r @ l_put s)"
    by (auto simp: linv_def split: option.splits)
  have "\<forall>i < k. the (l_vals s i) = (ring_view n r @ l_put s) ! i" using k(5,6) by fastforce
  then have "l_got s = take k (ring_view n r @ l_put s)"
    using k(1,4) by (intro nth_equalityI) (simp_all add: l_got_def del: take_append)
  with k(7) show "l_got s @ ring_view n (l_ring s) = ring_view n r @ l_put s" by (simp only: append_take_drop_id)
  show "l_returns s" "length (l_got s) \<le> mx" "min mx (length (ring_view n r)) \<le> length (l_got s)"
    using assms(3) k by (simp_all add: l_returns_def l_got_def list_all_iff)
qed

lemma loads_upto:
  assumes "l_num s = Some k" and "l_done s \<longrightarrow> late"
  shows "j \<le> k \<Longrightarrow> (lstep early late n mx)\<^sup>*\<^sup>* s (s\<lparr>l_vals := (\<lambda>i. if i < j \<and> l_vals s i = None
    then Some (Descs (l_ring s) ! ring_slot (int n) (l_cons s + of_nat i)) else l_vals s i)\<rparr>)"
proof (induction j)
  case 0
  then show ?case by simp
next
  case (Suc j)
  define f where "f = (\<lambda>j i. if i < j \<and> l_vals s i = None
    then Some (Descs (l_ring s) ! ring_slot (int n) (l_cons s + of_nat i)) else l_vals s i)"
  show ?case
  proof (cases "l_vals s j")
    case None
    then have "f (Suc j) = (f j)(j \<mapsto> Descs (l_ring s) ! ring_slot (int n) (l_cons s + of_nat j))"
      by (auto simp: f_def fun_eq_iff)
    then have "lstep early late n mx (s\<lparr>l_vals := f j\<rparr>) (s\<lparr>l_vals := f (Suc j)\<rparr>)"
      using l_load [of "s\<lparr>l_vals := f j\<rparr>" j early mx late n] None assms Suc.prems by (simp add: f_def)
    with Suc show ?thesis unfolding f_def by simp
  next
    case (Some v)
    then have "f (Suc j) = f j" by (auto simp: f_def fun_eq_iff less_Suc_eq)
    with Suc show ?thesis unfolding f_def by simp
  qed
qed

text \<open>All loads in place, from a state where the number of entries is known.\<close>

definition load_all :: "nat \<Rightarrow> nat \<Rightarrow> 'd lthread \<Rightarrow> 'd lthread" where
  "load_all n k s = s\<lparr>l_vals := (\<lambda>i. if i < k \<and> l_vals s i = None
    then Some (Descs (l_ring s) ! ring_slot (int n) (l_cons s + of_nat i)) else l_vals s i)\<rparr>"

lemma load_all_run:
  "l_num s = Some k \<Longrightarrow> (l_done s \<longrightarrow> late) \<Longrightarrow> (lstep early late n mx)\<^sup>*\<^sup>* s (load_all n k s)"
  using loads_upto [of s k late k] by (simp add: load_all_def)

lemma load_all_sel [simp]:
  "l_num (load_all n k s) = l_num s" "l_ring (load_all n k s) = l_ring s" "l_cons (load_all n k s) = l_cons s"
  "l_put (load_all n k s) = l_put s" "l_done (load_all n k s) = l_done s"
  "i < k \<Longrightarrow> l_vals (load_all n k s) i \<noteq> None"
  by (simp_all add: load_all_def)

text \<open>Counting, loading and storing the counter, in this order.\<close>

lemma receive_run:
  assumes "l_num s = None" and "\<not> l_done s" and "k = min mx (length (ring_view n (l_ring s)))"
  defines "t \<equiv> load_all n k (s\<lparr>l_num := Some k\<rparr>)"
  shows "(lstep early late n mx)\<^sup>*\<^sup>* s (t\<lparr>l_ring := (l_ring s)\<lparr>Consumer := Some (l_cons s + of_nat k)\<rparr>, l_done := True\<rparr>)"
proof -
  have "lstep early late n mx s (s\<lparr>l_num := Some k\<rparr>)" using l_count [OF assms(1)] assms(3) by simp
  moreover have "(lstep early late n mx)\<^sup>*\<^sup>* (s\<lparr>l_num := Some k\<rparr>) t"
    unfolding t_def by (rule load_all_run) (simp_all add: assms(2))
  moreover have "lstep early late n mx t (t\<lparr>l_ring := (l_ring t)\<lparr>Consumer := Some (l_cons t + of_nat k)\<rparr>, l_done := True\<rparr>)"
    by (rule l_publish) (simp_all add: t_def assms(2))
  ultimately show ?thesis
    by (simp add: t_def converse_rtranclp_into_rtranclp rtranclp.rtrancl_into_rtrancl)
qed

text \<open>An entry loaded before the counter that announces it.\<close>

lemma early_load:
  assumes "ring_ok n r" and "length (ring_view n r) < n" and "Producer r = Some p"
  shows "\<exists>s. (lstep True False n (Suc (length (ring_view n r))))\<^sup>*\<^sup>* (lstart r) s \<and> l_returns s \<and>
    l_put s = [v] \<and> l_got s = ring_view n r @ [Descs r ! ring_slot (int n) p]"
proof -
  from assms(1,3) obtain c where c: "Consumer r = Some c" "ring_view n r = window n c (Descs r) (unat (p - c))"
    by (auto elim: ring_okE)
  let ?m = "length (ring_view n r)" and ?x = "Descs r ! ring_slot (int n) p"
  have p: "c + of_nat ?m = p" using c by simp
  let ?s = "(lstart r)\<lparr>l_vals := [?m \<mapsto> ?x]\<rparr>"
  let ?t = "?s\<lparr>l_ring := kern_put (int n) v r, l_put := [v]\<rparr>"
  let ?u = "(load_all n (Suc ?m) (?t\<lparr>l_num := Some (Suc ?m)\<rparr>))
    \<lparr>l_ring := (kern_put (int n) v r)\<lparr>Consumer := Some (c + of_nat (Suc ?m))\<rparr>, l_done := True\<rparr>"
  have "lstep True False n (Suc ?m) (lstart r) ?s"
    using l_load [of "lstart r" ?m True "Suc ?m" False n] c(1) p by (simp add: lstart_def)
  moreover have "lstep True False n (Suc ?m) ?s ?t"
    using l_kernel [of n ?s True False "Suc ?m" v] assms(2) by (simp add: lstart_def)
  ultimately have run: "(lstep True False n (Suc ?m))\<^sup>*\<^sup>* (lstart r) ?t" by simp
  note put = kern_put_view [OF assms(1,2), of v]
  have "(lstep True False n (Suc ?m))\<^sup>*\<^sup>* ?t ?u"
    using receive_run [of ?t "Suc ?m" "Suc ?m" n True False] put(2) c(1) by (simp add: lstart_def)
  with run have "(lstep True False n (Suc ?m))\<^sup>*\<^sup>* (lstart r) ?u" by (rule rtranclp_trans)
  moreover have "the (l_vals ?u i) = (ring_view n r @ [?x]) ! i" if "i < Suc ?m" for i
  proof (cases "i = ?m")
    case True
    then show ?thesis by (simp add: load_all_def)
  next
    case False
    moreover have "Consumer (kern_put (int n) v r) = Some c" using c(1) by (simp add: kern_put_def)
    ultimately show ?thesis
      using ring_view_nth [OF put(1), of c i] put(2) that c(1) by (simp add: load_all_def lstart_def nth_append)
  qed
  then have "l_got ?u = ring_view n r @ [?x]" by (intro nth_equalityI) (simp_all add: l_got_def del: upt_Suc)
  moreover have "l_returns ?u" by (simp add: l_returns_def list_all_iff load_all_def lstart_def)
  ultimately show ?thesis by (intro exI [of _ ?u]) simp
qed

lemma kernel_puts:
  assumes "ring_ok n (l_ring s)" and "Consumer (l_ring s) = Some c" and "length (ring_view n (l_ring s)) + length ws \<le> n"
  shows "\<exists>r. (lstep early late n mx)\<^sup>*\<^sup>* s (s\<lparr>l_ring := r, l_put := l_put s @ ws\<rparr>) \<and> ring_ok n r \<and>
    Consumer r = Some c \<and> ring_view n r = ring_view n (l_ring s) @ ws"
  using assms
proof (induction ws arbitrary: s)
  case Nil
  then show ?case by (intro exI [of _ "l_ring s"]) simp
next
  case (Cons w ws)
  let ?t = "s\<lparr>l_ring := kern_put (int n) w (l_ring s), l_put := l_put s @ [w]\<rparr>"
  have room: "length (ring_view n (l_ring s)) < n" using Cons.prems(3) by simp
  note put = kern_put_view [OF Cons.prems(1) room, of w]
  have "lstep early late n mx s ?t" using room by (rule l_kernel)
  moreover from Cons.IH [of ?t] put Cons.prems(2,3) obtain r where
    "(lstep early late n mx)\<^sup>*\<^sup>* ?t (?t\<lparr>l_ring := r, l_put := l_put ?t @ ws\<rparr>)" "ring_ok n r" "Consumer r = Some c"
    "ring_view n r = ring_view n (l_ring s) @ w # ws" by (auto simp: kern_put_def)
  ultimately show ?case by (intro exI [of _ r]) (simp add: converse_rtranclp_into_rtranclp)
qed

text \<open>An entry loaded after the kernel was told that it has been consumed, and has reused its slot.\<close>

lemma reused_slot:
  fixes w :: 'd
  assumes "ring_ok n r" and "Consumer r = Some c" and "length (ring_view n r) = n"
  defines "r' \<equiv> kern_put (int n) w (r\<lparr>Consumer := Some (c + 1)\<rparr>)"
  shows "length (ring_view n (r\<lparr>Consumer := Some (c + 1)\<rparr>)) < n" and "Descs r' ! ring_slot (int n) c = w"
proof -
  from assms(1) obtain p where p: "Producer r = Some p" and sz: "ring_size n" by (rule ring_okE)
  have n: "1 \<le> n" using ring_size_bounds [OF sz] by simp
  from ring_consumed [OF assms(1) p assms(2), of 1] n assms(3)
  have ok: "ring_ok n (r\<lparr>Consumer := Some (c + 1)\<rparr>)" and view: "length (ring_view n (r\<lparr>Consumer := Some (c + 1)\<rparr>)) = n - 1"
    by simp_all
  then show less: "length (ring_view n (r\<lparr>Consumer := Some (c + 1)\<rparr>)) < n" using n by simp
  note put = kern_put_view [OF ok less, of w, folded r'_def]
  have "Consumer r' = Some (c + 1)" by (simp add: r'_def kern_put_def)
  from ring_view_nth [OF put(1) this, of "n - 1"] put(2) view n
  have "Descs r' ! ring_slot (int n) (c + 1 + of_nat (n - 1)) = w" by (simp add: nth_append)
  moreover have "c + 1 + of_nat (n - 1) = c + of_nat n" using n by (simp add: of_nat_diff)
  moreover have "ring_slot (int n) (c + of_nat n) = ring_slot (int n) c"
    using mod_add_of_nat [OF sz, of c n] by (simp add: ring_slot_eq [OF sz])
  ultimately show "Descs r' ! ring_slot (int n) c = w" by (simp only:)
qed

lemma late_load:
  assumes "ring_ok n r" and "length (ring_view n r) + length ws = n"
  shows "\<exists>s. (lstep False True n 1)\<^sup>*\<^sup>* (lstart r) s \<and> l_returns s \<and> l_put s = ws @ [w] \<and> l_got s = [w]"
proof -
  from assms(1) obtain c where c: "Consumer r = Some c" and sz: "ring_size n" by (rule ring_okE)
  from kernel_puts [of n "lstart r" c ws False True 1] assms c obtain r1 where
    run: "(lstep False True n 1)\<^sup>*\<^sup>* (lstart r) ((lstart r)\<lparr>l_ring := r1, l_put := ws\<rparr>)" and
    r1: "ring_ok n r1" "Consumer r1 = Some c" "length (ring_view n r1) = n" by (auto simp: lstart_def)
  let ?s = "(lstart r)\<lparr>l_ring := r1, l_put := ws\<rparr>"
  let ?t = "?s\<lparr>l_num := Some 1\<rparr>"
  let ?u = "?t\<lparr>l_ring := r1\<lparr>Consumer := Some (c + 1)\<rparr>, l_done := True\<rparr>"
  let ?v = "?u\<lparr>l_ring := kern_put (int n) w (r1\<lparr>Consumer := Some (c + 1)\<rparr>), l_put := ws @ [w]\<rparr>"
  have "min 1 n = 1" using ring_size_bounds [OF sz] by simp
  then have "lstep False True n 1 ?s ?t" using l_count [of ?s False True n 1] r1(3) by (simp add: lstart_def)
  moreover have "lstep False True n 1 ?t ?u"
    using l_publish [of ?t 1 True False n 1] c by (simp add: lstart_def)
  moreover have "lstep False True n 1 ?u ?v"
    using l_kernel [of n ?u False True 1 w] reused_slot(1) [OF r1] by simp
  moreover have "(lstep False True n 1)\<^sup>*\<^sup>* ?v (load_all n 1 ?v)" by (rule load_all_run) simp_all
  ultimately have "(lstep False True n 1)\<^sup>*\<^sup>* (lstart r) (load_all n 1 ?v)"
    using run by (meson converse_rtranclp_into_rtranclp rtranclp_trans)
  moreover have "l_got (load_all n 1 ?v) = [w]" "l_returns (load_all n 1 ?v)"
    using reused_slot(2) [OF r1, of w] c by (simp_all add: l_got_def l_returns_def load_all_def lstart_def)
  ultimately show ?thesis by (intro exI [of _ "load_all n 1 ?v"]) simp
qed

section \<open>Properties\<close>

text \<open>
  C6: \<open>Fill\<close> is safe against a kernel that consumes while it runs, on a machine that keeps stores in
  order, and on any machine if the fence before the store of the counter were there. The stores of
  \<open>Fill\<close> can lead to the ring of its result. When they are delayed in a buffer and the kernel consumes
  entries between any of these events, then what it has consumed and what is left make up the old
  queue as long as the counter has not taken effect, and the queue that \<open>Fill\<close> announces afterwards: no
  entry is overwritten before it is consumed, none is seen half-done, lost or doubled, although the
  number of free slots was computed from an old consumer counter.
\<close>

theorem Fill_ordered:
  assumes "sock_ok x" and "\<forall>d \<in> set ds. addr_ok x (Addr d)" and "Fill x ds = Inr (k, x')" and "fence \<or> \<not> weak"
  shows "(\<exists>s. (bstep fence weak (fill_size x))\<^sup>*\<^sup>* (bstart (fillRing x) (map Addr (take (nat k) ds))) s \<and>
      visible s \<and> b_ring s = fillRing x') \<and>
    (\<forall>s. (bstep fence weak (fill_size x))\<^sup>*\<^sup>* (bstart (fillRing x) (map Addr (take (nat k) ds))) s \<longrightarrow>
      b_seen s @ ring_view (fill_size x) (b_ring s) = (if visible s then fill_queue x' else fill_queue x))"
  by (rule fill_race.submit_ordered [OF assms])

theorem Fill_ordered_witness:
  "\<exists>k x'. Fill demo_socket [demo_desc 0] = Inr (k, x') \<and>
     (\<exists>s. (bstep True True (fill_size demo_socket))\<^sup>*\<^sup>* (bstart (fillRing demo_socket) (map Addr (take (nat k) [demo_desc 0]))) s \<and>
       visible s \<and> b_ring s = fillRing x')"
proof -
  have a: "\<forall>d \<in> set [demo_desc 0]. addr_ok demo_socket (Addr d)" by (simp add: demo_addr_ok demo_desc_def)
  from Fill_eq [OF demo_socket_ok a] obtain k x' where f: "Fill demo_socket [demo_desc 0] = Inr (k, x')" by blast
  from Fill_ordered [OF demo_socket_ok a f, of True True] f show ?thesis by blast
qed

text \<open>
  C38: \<open>Transmit\<close> is safe against a kernel that takes descriptors to send while they are being submitted,
  in the same sense as \<open>Fill\<close>: whatever the kernel consumes while stores wait, it sees the old queue
  until the producer counter takes effect and then the queue that \<open>Transmit\<close> announces.
\<close>

theorem Transmit_ordered:
  assumes "sock_ok x" and "\<forall>d \<in> set ds. addr_ok x (Addr d)" and "Transmit x ds rs = Some (Inr (k, x'))"
    and "fence \<or> \<not> weak"
  shows "(\<exists>s. (bstep fence weak (tx_size x))\<^sup>*\<^sup>* (bstart (txRing x) (take (nat k) ds)) s \<and>
      visible s \<and> b_ring s = txRing x') \<and>
    (\<forall>s. (bstep fence weak (tx_size x))\<^sup>*\<^sup>* (bstart (txRing x) (take (nat k) ds)) s \<longrightarrow>
      b_seen s @ ring_view (tx_size x) (b_ring s) = (if visible s then tx_queue x' else tx_queue x))"
proof -
  have "tx_submit x ds = Inr (k, x')"
    using assms(3) by (auto simp: Transmit_def rbind_eq_Inr split: sum.splits)
  from tx_race.submit_ordered [OF assms(1,2) this assms(4)] show ?thesis by simp
qed

theorem Transmit_ordered_witness:
  "\<exists>k x'. Transmit demo_socket [demo_desc 4] [None] = Some (Inr (k, x')) \<and>
     (\<exists>s. (bstep False False (tx_size demo_socket))\<^sup>*\<^sup>* (bstart (txRing demo_socket) (take (nat k) [demo_desc 4])) s \<and>
       visible s \<and> b_ring s = txRing x')"
proof -
  have a: "\<forall>d \<in> set [demo_desc 4]. addr_ok demo_socket (Addr d)" by (simp add: demo_addr_ok demo_desc_def)
  from tx_submit_eq [OF demo_socket_ok a] obtain k x' where
    "Transmit demo_socket [demo_desc 4] [None] = Some (Inr (k, x'))" by (auto simp: Transmit_def)
  from Transmit_ordered [OF demo_socket_ok a this, of False False] this show ?thesis by blast
qed

text \<open>
  C7: \<open>Receive\<close> is safe against a kernel that produces while it runs, when no entry is loaded before the
  producer counter or after the store of the consumer counter; the loads themselves may be done in any
  order. There is such a run to the result of \<open>Receive\<close>. In every run, what \<open>Receive\<close> returns and what is
  left in the ring make up the old queue and the entries that the kernel has added since; it returns at
  most as many as asked for, and begins with those that it returns alone.
\<close>

theorem Receive_ordered:
  assumes "sock_ok x" and "Receive x num = Inr (ds, x')"
  shows "(\<exists>s. (lstep False False (rx_size x) (nat num))\<^sup>*\<^sup>* (lstart (rxRing x)) s \<and>
      l_returns s \<and> l_got s = ds \<and> l_ring s = rxRing x') \<and>
    (\<forall>s. (lstep False False (rx_size x) (nat num))\<^sup>*\<^sup>* (lstart (rxRing x)) s \<and> l_done s \<longrightarrow>
      l_returns s \<and> l_got s @ ring_view (rx_size x) (l_ring s) = rx_queue x @ l_put s \<and>
      length (l_got s) \<le> nat num \<and> take (length ds) (l_got s) = ds)"
proof (intro conjI allI impI; (elim conjE)?)
  have ok: "ring_ok (rx_size x) (rxRing x)" using sock_rings(2) [OF assms(1)] .
  from ok obtain c where c: "Consumer (rxRing x) = Some c" by (rule ring_okE)
  have ds: "ds = take (length ds) (rx_queue x)" "length ds = min (nat num) (length (rx_queue x))"
    using Receive_eq [OF assms(1), of num] assms(2) by auto
  let ?s = "(load_all (rx_size x) (length ds) ((lstart (rxRing x))\<lparr>l_num := Some (length ds)\<rparr>))
    \<lparr>l_ring := rxRing x', l_done := True\<rparr>"
  have run: "(lstep False False (rx_size x) (nat num))\<^sup>*\<^sup>* (lstart (rxRing x)) ?s"
    using receive_run [of "lstart (rxRing x)" "length ds" "nat num" "rx_size x"] ds(2) c
    by (simp add: lstart_def Receive_cons [OF assms(2) c])
  have got: "length (l_got ?s) = length ds" "l_put ?s = []" by (simp_all add: l_got_def lstart_def)
  note o = ordered_loads [OF ok run]
  from o(4) got(2) have "l_got ?s @ ring_view (rx_size x) (rxRing x') = rx_queue x" by simp
  with got(1) ds(1) have "l_got ?s = ds" by (metis append_eq_conv_conj)
  with run o(1) show "\<exists>s. (lstep False False (rx_size x) (nat num))\<^sup>*\<^sup>* (lstart (rxRing x)) s \<and>
      l_returns s \<and> l_got s = ds \<and> l_ring s = rxRing x'" by (intro exI [of _ ?s]) simp
  fix s assume "(lstep False False (rx_size x) (nat num))\<^sup>*\<^sup>* (lstart (rxRing x)) s" "l_done s"
  note o = ordered_loads [OF ok this]
  show "l_returns s" "l_got s @ ring_view (rx_size x) (l_ring s) = rx_queue x @ l_put s" "length (l_got s) \<le> nat num"
    by (fact o(1), fact o(4), fact o(2))
  have "length ds \<le> length (l_got s)" "length ds \<le> length (rx_queue x)" using o(3) ds(2) by simp_all
  with arg_cong [OF o(4), of "take (length ds)"] ds(1) show "take (length ds) (l_got s) = ds" by simp
qed

theorem Receive_ordered_witness:
  "\<exists>ds x'. Receive demo_socket 2 = Inr (ds, x') \<and>
     (\<exists>s. (lstep False False (rx_size demo_socket) 2)\<^sup>*\<^sup>* (lstart (rxRing demo_socket)) s \<and> l_returns s \<and> l_got s = ds)"
proof -
  from Receive_eq [OF demo_socket_ok, of 2] obtain ds x' where r: "Receive demo_socket 2 = Inr (ds, x')" by blast
  from Receive_ordered [OF demo_socket_ok r] r show ?thesis by auto
qed

text \<open>
  C25: the fence before the store of the producer counter is needed, and it is commented out. The stores
  that \<open>Fill\<close> makes lead, one after the other, to the ring of its result. On a machine that lets stores
  overtake each other they have a run in which the kernel consumes the old queue and then whatever was
  in the slots, while none of the addresses has been written. With the fence before the store of the
  counter, or on a machine that keeps stores in order, the kernel sees in every run the old queue or the
  one that \<open>Fill\<close> announces.
\<close>

theorem Fill_unfenced_stale:
  assumes "sock_ok x" and "\<forall>d \<in> set ds. addr_ok x (Addr d)" and "Fill x ds = Inr (k, x')"
    and "Producer (fillRing x) = Some p"
  shows "fold commit (stored (Fill_accesses x ds)) (fillRing x) = fillRing x' \<and>
    (\<exists>m. (mstep True (fill_size x))\<^sup>*\<^sup>* (mstart (fillRing x) (Fill_accesses x ds)) m \<and>
      m_buf m = butlast (stored (Fill_accesses x ds)) \<and> m_seen m = fill_queue x @
        map (\<lambda>i. Descs (fillRing x) ! ring_slot (int (fill_size x)) (p + of_nat i)) [0..<nat k]) \<and>
    (\<forall>weak m. (mstep weak (fill_size x))\<^sup>*\<^sup>*
        (mstart (fillRing x) (if weak then add_sfence (Fill_accesses x ds) else Fill_accesses x ds)) m \<longrightarrow>
      m_seen m @ ring_view (fill_size x) (m_ring m) \<in> {fill_queue x, fill_queue x'})"
proof -
  let ?vs = "map Addr (take (nat k) ds)"
  have n0: "0 \<le> FillRingNumDescs (options x)"
    using sock_rings(1) [OF assms(1)] ring_size_bounds [of "fill_size x"] by (auto simp: ring_ok_def)
  note acc = Fill_accesses_eq [OF assms(3,4) n0]
  note room = fill_race.submit_room [OF assms(1-3)]
  note r = sock_rings(1) [OF assms(1)]
  have "fold commit (stored (Fill_accesses x ds)) (fillRing x) = fillRing x'"
    using room(3) by (simp add: acc stored_submit commit_slots Fill_stores [OF assms(3,4) n0])
  moreover have "\<exists>m. (mstep True (fill_size x))\<^sup>*\<^sup>* (mstart (fillRing x) (Fill_accesses x ds)) m \<and>
      m_buf m = butlast (stored (Fill_accesses x ds)) \<and> m_seen m = fill_queue x @
        map (\<lambda>i. Descs (fillRing x) ! ring_slot (int (fill_size x)) (p + of_nat i)) [0..<nat k]"
    using stale_run [OF r assms(4) room(1)] room(3) by (auto simp: acc stored_submit)
  moreover have "m_seen m @ ring_view (fill_size x) (m_ring m) \<in> {fill_queue x, fill_queue x'}"
    if "(mstep weak (fill_size x))\<^sup>*\<^sup>*
        (mstart (fillRing x) (if weak then add_sfence (Fill_accesses x ds) else Fill_accesses x ds)) m" for weak m
  proof -
    have "(mstep weak (fill_size x))\<^sup>*\<^sup>* (mstart (fillRing x) (submit_accesses weak (fill_size x) ?vs p)) m"
      using that by (cases weak) (simp_all add: acc add_sfence_submit)
    from ordered_accesses [OF _ r room(1) assms(4) this] room(2) show ?thesis by simp
  qed
  ultimately show ?thesis by blast
qed

theorem Fill_unfenced_stale_witness:
  "\<exists>x' m. Fill demo_socket [demo_desc 1] = Inr (1, x') \<and> fill_queue x' = [2048] \<and>
     (mstep True 4)\<^sup>*\<^sup>* (mstart (fillRing demo_socket) (Fill_accesses demo_socket [demo_desc 1])) m \<and> m_seen m = [0]"
proof -
  have a: "\<forall>d \<in> set [demo_desc 1]. addr_ok demo_socket (Addr d)" by (simp add: demo_addr_ok demo_desc_def)
  have p: "Producer (fillRing demo_socket) = Some 0xFFFFFFFE" by (simp add: demo_socket_defs)
  have f: "fill_size demo_socket = 4" "Addr (demo_desc 1) = 2048" by (simp_all add: demo_socket_defs)
  have z: "Descs (fillRing demo_socket) ! ring_slot (int 4) 0xFFFFFFFE = 0"
    unfolding ring_slot_eq [OF demo_ring_size] by (simp add: demo_socket_defs)
  have "fits (fill_size demo_socket) (fill_queue demo_socket) [demo_desc 1] = 1"
    unfolding f demo_queues [unfolded f] by (simp add: fits_def)
  with Fill_eq [OF demo_socket_ok a] obtain x' where x': "Fill demo_socket [demo_desc 1] = Inr (1, x')"
    "fill_queue x' = fill_queue demo_socket @ [2048]" using f(2) by auto
  from Fill_unfenced_stale [OF demo_socket_ok a x'(1) p] x' show ?thesis
    unfolding f demo_queues [unfolded f] by (auto simp: z [simplified])
qed

text \<open>
  The two fences in \<open>Receive\<close> are needed as well. When an entry may be loaded before the producer
  counter, \<open>Receive\<close> returns what was in the slot before the kernel delivered a frame. When it may be
  loaded after the consumer counter is stored, the kernel has filled its slot again: \<open>Receive\<close> returns the
  newest frame in place of the oldest, which is lost.
\<close>

lemma Receive_unfenced_stale:
  assumes "sock_ok x" and "length (rx_queue x) < rx_size x" and "Producer (rxRing x) = Some p"
    and "length (rx_queue x) + length ws = rx_size x"
  shows "(\<exists>s. (lstep True False (rx_size x) (Suc (length (rx_queue x))))\<^sup>*\<^sup>* (lstart (rxRing x)) s \<and> l_returns s \<and>
      l_put s = [w] \<and> l_got s = rx_queue x @ [Descs (rxRing x) ! ring_slot (int (rx_size x)) p]) \<and>
    (\<exists>s. (lstep False True (rx_size x) 1)\<^sup>*\<^sup>* (lstart (rxRing x)) s \<and> l_returns s \<and>
      l_put s = ws @ [w] \<and> l_got s = [w])"
  using early_load [OF sock_rings(2) [OF assms(1)] assms(2,3)] late_load [OF sock_rings(2) [OF assms(1)] assms(4)]
  by blast

end
