(* ===== verification/Dump_Frames.thy ===== *)
theory Dump_Frames
  imports Xsk_Frames
begin

text \<open>
  The receive loop of \<^verbatim>\<open>dumpframes/src/dumpframes.go\<close>: one iteration refills the Fill ring, waits,
  and takes the received frames. The frames are returned to the caller here; decoding and printing
  them is \<^verbatim>\<open>gopacket\<close> and \<^verbatim>\<open>log\<close>. The loop is shown never to panic and to deliver exactly the
  frames that the kernel has put into the Rx ring.
\<close>

section \<open>The loop body\<close>

definition refill :: "socket \<Rightarrow> go_panic + socket" where
  "refill xsk =
     rbind (NumFreeFillSlots xsk) (\<lambda>n.
       if 0 < n then rbind (GetDescs xsk n True) (\<lambda>descs. rbind (Fill xsk descs) (\<lambda>(_, xsk). Inr xsk))
       else Inr xsk)"

fun get_frames :: "socket \<Rightarrow> Desc list \<Rightarrow> go_panic + u8 list list" where
  "get_frames xsk [] = Inr []"
| "get_frames xsk (d # ds) =
     rbind (GetFrame xsk d) (\<lambda>f. rbind (get_frames xsk ds) (\<lambda>fs. Inr (f # fs)))"

text \<open>
  The result of an iteration: still waiting, a panic, the error that ends the loop, or the frames
  and the socket of the next iteration.
\<close>

definition dump_iter ::
  "socket \<Rightarrow> (errno option \<times> (socket \<Rightarrow> socket)) list \<Rightarrow> (go_panic + (errno + (u8 list list \<times> socket))) option" where
  "dump_iter xsk poll =
     (case refill xsk of
        Inl e \<Rightarrow> Some (Inl e)
      | Inr xsk \<Rightarrow>
          (case Poll xsk poll of
             None \<Rightarrow> None
           | Some (Inl e) \<Rightarrow> Some (Inl e)
           | Some (Inr (numRx, numCompleted, Some err, xsk)) \<Rightarrow> Some (Inr (Inl err))
           | Some (Inr (numRx, numCompleted, None, xsk)) \<Rightarrow> Some (
               if 0 < numRx then
                 rbind (Receive xsk numRx) (\<lambda>(rxDescs, xsk).
                 rbind (get_frames xsk rxDescs) (\<lambda>frames. Inr (Inr (frames, xsk))))
               else Inr (Inr ([], xsk)))))"

section \<open>Delivered frames lie in the packet memory\<close>

definition in_frame :: "socket_options \<Rightarrow> Desc \<Rightarrow> bool" where
  "in_frame opts d \<longleftrightarrow>
     unat (Addr d) + unat (Len d) \<le> (frame_of opts (Addr d) + 1) * nat (FrameSize opts)"

definition delivered :: "socket \<Rightarrow> bool" where
  "delivered x \<longleftrightarrow> list_all (in_frame (options x)) (rx_queue x) \<and>
     (\<exists>u. umem x = Some u \<and> int (length u) = NumFrames (options x) * FrameSize (options x))"

lemma Fill_keeps:
  "Fill x ds = Inr (k, x') \<Longrightarrow> umem x' = umem x \<and> rxRing x' = rxRing x \<and> options x' = options x \<and>
   numFilled x' = numFilled x + k"
  by (auto simp: Fill_def rbind_eq_Inr Let_def split: prod.splits)

lemma Transmit_keeps:
  "Transmit x ds r = Some (Inr (k, x')) \<Longrightarrow> umem x' = umem x \<and> rxRing x' = rxRing x \<and> options x' = options x"
  by (auto simp: Transmit_def tx_submit_def rbind_eq_Inr Let_def split: prod.splits sum.splits)

lemma Complete_keeps:
  "Complete x n = Inr x' \<Longrightarrow> umem x' = umem x \<and> rxRing x' = rxRing x \<and> options x' = options x"
  by (auto simp: Complete_def rbind_eq_Inr split: prod.splits)

lemma Receive_keeps:
  assumes "sock_ok x" and "Receive x n = Inr (ds, x')"
  shows "umem x' = umem x \<and> options x' = options x \<and> rx_queue x' = drop (length ds) (rx_queue x)"
  using Receive_eq [OF assms(1), of n] assms(2) by auto

lemma step_delivered:
  assumes "step m m'" and "conserved m" and "delivered (sock m)"
  shows "delivered (sock m')"
  using assms(1)
proof cases
  case (kern_deliver a d)
  have ok: "ring_ok (rx_size (sock m)) (rxRing (sock m))"
    using assms(2) by (simp add: conserved_def sock_ok_def)
  from kern_put_view(2) [OF ok kern_deliver(3), of d] ring_ok_size [OF ok] kern_deliver assms(3)
  show ?thesis by (simp add: delivered_def in_frame_def)
next
  case (user_receive n ds x)
  have "sock_ok (sock m)" using assms(2) by (simp add: conserved_def)
  from Receive_keeps [OF this user_receive(2)] user_receive(1) assms(3) show ?thesis
    by (auto simp: delivered_def list_all_drop)
qed (use assms(3) in \<open>auto simp: delivered_def dest!: Fill_keeps Transmit_keeps Complete_keeps\<close>)

lemma steps_delivered:
  "step\<^sup>*\<^sup>* m m' \<Longrightarrow> conserved m \<Longrightarrow> delivered (sock m) \<Longrightarrow> conserved m' \<and> delivered (sock m')"
  by (induction rule: rtranclp_induct) (auto intro: step_conserved step_delivered)

text \<open>The bytes of a frame.\<close>

definition frame_bytes :: "socket \<Rightarrow> Desc \<Rightarrow> u8 list" where
  "frame_bytes x d = take (unat (Len d)) (drop (unat (Addr d)) (the (umem x)))"

lemma GetFrame_in_frame:
  assumes "opts_ok (options x)" and "umem x = Some u"
    and "int (length u) = NumFrames (options x) * FrameSize (options x)"
    and "addr_ok x (Addr d)" and "in_frame (options x) d"
  shows "GetFrame x d = Inr (frame_bytes x d)"
proof -
  let ?F = "nat (FrameSize (options x))" and ?N = "nat (NumFrames (options x))"
  have len: "length u = ?N * ?F" and lt: "length u < 2 ^ 63"
    using assms(1,3) by (simp_all add: opts_ok_def flip: nat_mult_distrib)
  have "(frame_of (options x) (Addr d) + 1) * ?F \<le> ?N * ?F"
    using assms(4) by (intro mult_le_mono1) (simp add: addr_ok_def)
  with assms(5) len have le: "unat (Addr d) + unat (Len d) \<le> length u" by (simp add: in_frame_def)
  then have "unat (Addr d + ucast (Len d)) = unat (Addr d) + unat (Len d)"
    using lt by (subst unat_add_small) simp_all
  with le assms(2) show ?thesis by (simp add: GetFrame_def go_slice_def frame_bytes_def)
qed

lemma get_frames_map:
  "\<forall>d \<in> set ds. GetFrame x d = Inr (g d) \<Longrightarrow> get_frames x ds = Inr (map g ds)"
  by (induction ds) auto

section \<open>An iteration\<close>

lemma refill_ok:
  assumes "conserved m"
  shows "\<exists>x. refill (sock m) = Inr x \<and> step\<^sup>*\<^sup>* m (m\<lparr>sock := x\<rparr>) \<and> 0 < numFilled x"
proof -
  have ok: "sock_ok (sock m)" "ring_ok (fill_size (sock m)) (fillRing (sock m))"
    and num: "numFilled (sock m) = int (length (rx_owned m))"
    using assms by (simp_all add: conserved_def sock_ok_def)
  define n where "n = FillRingNumDescs (options (sock m)) - int (length (fill_queue (sock m)))"
  have slots: "NumFreeFillSlots (sock m) = Inr n" using slot_counts(1) [OF ok(1)] by (simp add: n_def)
  have F: "0 < fill_size (sock m)" "int (fill_size (sock m)) = FillRingNumDescs (options (sock m))"
    using ok(2) ring_size_bounds [of "fill_size (sock m)"] ring_ok_size [OF ok(2)] by (auto simp: ring_ok_def)
  have sub: "length (fill_queue (sock m)) \<le> length (rx_owned m)" by (simp add: rx_owned_def Let_def)
  show ?thesis
  proof (cases "0 < n")
    case True
    from GetDescs_Fill [OF assms, of n] obtain ds k x where
      g: "GetDescs (sock m) n True = Inr ds" and f: "Fill (sock m) ds = Inr (int k, x)"
      and k: "k = min (nat n) (fill_size (sock m) - length (rx_owned m))" by auto
    have "0 < numFilled x"
      using Fill_keeps [OF f] k num True F rx_owned_le [OF assms] by (auto simp: min_def)
    moreover have "refill (sock m) = Inr x" using slots g f True by (simp add: refill_def)
    ultimately show ?thesis using user_fill [OF g f] by blast
  next
    case False
    then have "0 < numFilled (sock m)" unfolding num using sub F by (simp only: n_def)
    moreover have "refill (sock m) = Inr (sock m)" using slots False by (simp add: refill_def)
    ultimately show ?thesis by (intro exI [of _ "sock m"]) simp
  qed
qed

text \<open>The wait, with what the kernel does during it given by the state it leaves.\<close>

lemma poll_stage:
  assumes "poll_events x \<noteq> 0" and "poll_loop poll x = Some (None, sock m)" and "conserved m"
  shows "\<exists>y n. Poll x poll = Some (Inr (int (length (rx_queue (sock m))), n, None, y)) \<and>
    step\<^sup>*\<^sup>* m (m\<lparr>sock := y\<rparr>) \<and> rx_queue y = rx_queue (sock m) \<and> umem y = umem (sock m)"
proof -
  have ok: "sock_ok (sock m)" using assms(3) by (simp add: conserved_def)
  note cnt = slot_counts(3,4) [OF ok]
  show ?thesis
  proof (cases "comp_queue (sock m) = []")
    case True
    with assms cnt show ?thesis by (intro exI [of _ "sock m"] exI [of _ 0]) (simp add: Poll_def)
  next
    case False
    from comp.consume_all [OF ok] obtain y where
      y: "Complete (sock m) (int (length (comp_queue (sock m)))) = Inr y" by blast
    from user_complete [OF cnt(2) y] have "step\<^sup>*\<^sup>* m (m\<lparr>sock := y\<rparr>)" by blast
    moreover have "Poll x poll =
        Some (Inr (int (length (rx_queue (sock m))), int (length (comp_queue (sock m))), None, y))"
      using assms(1,2) cnt False y by (simp add: Poll_def)
    ultimately show ?thesis using Complete_keeps [OF y] by (intro exI conjI) (assumption | simp)+
  qed
qed

text \<open>Taking everything from the Rx ring and reading the frames.\<close>

lemma receive_stage:
  assumes "conserved m" and "delivered (sock m)"
  shows "\<exists>w. Receive (sock m) (int (length (rx_queue (sock m)))) = Inr (rx_queue (sock m), w) \<and>
    get_frames w (rx_queue (sock m)) = Inr (map (frame_bytes (sock m)) (rx_queue (sock m))) \<and>
    step m (m\<lparr>sock := w\<rparr>) \<and> rx_queue w = []"
proof -
  have ok: "sock_ok (sock m)" using assms(1) by (simp add: conserved_def)
  from Receive_eq [OF ok, of "int (length (rx_queue (sock m)))"] obtain w where
    w: "Receive (sock m) (int (length (rx_queue (sock m)))) = Inr (rx_queue (sock m), w)"
      and keep: "umem w = umem (sock m)" "options w = options (sock m)" "rx_queue w = []" by auto
  have "GetFrame w d = Inr (frame_bytes (sock m) d)" if "d \<in> set (rx_queue (sock m))" for d
  proof -
    have "GetFrame w d = Inr (frame_bytes w d)"
      using ok assms(2) that keep by (intro GetFrame_in_frame [of w "the (umem w)"])
        (auto simp: sock_ok_def delivered_def list_all_iff addr_ok_def)
    then show ?thesis using keep(1) by (simp add: frame_bytes_def)
  qed
  then have "get_frames w (rx_queue (sock m)) = Inr (map (frame_bytes (sock m)) (rx_queue (sock m)))"
    by (intro get_frames_map) simp
  with w keep(3) user_receive [OF w] show ?thesis by blast
qed

text \<open>An iteration in which the wait ends in the state \<open>m'\<close>.\<close>

lemma dump_iter_ok:
  assumes x: "refill xsk = Inr x" "0 < numFilled x" and poll: "poll_loop poll x = Some (None, sock m')"
    and c': "conserved m'" "delivered (sock m')"
  shows "\<exists>w. dump_iter xsk poll =
      Some (Inr (Inr (map (frame_bytes (sock m')) (rx_queue (sock m')), w))) \<and>
    rx_queue w = [] \<and> conserved (m'\<lparr>sock := w\<rparr>) \<and> delivered w"
proof -
  have ev: "poll_events x \<noteq> 0" using x(2) by (simp add: poll_events_def)
  from poll_stage [OF ev poll c'(1)] obtain y n where
    P: "Poll x poll = Some (Inr (int (length (rx_queue (sock m'))), n, None, y))"
    and y: "step\<^sup>*\<^sup>* m' (m'\<lparr>sock := y\<rparr>)" "rx_queue y = rx_queue (sock m')" "umem y = umem (sock m')" by blast
  have cy: "conserved (m'\<lparr>sock := y\<rparr>)" "delivered (sock (m'\<lparr>sock := y\<rparr>))"
    using steps_delivered [OF y(1) c'] by simp_all
  from receive_stage [OF cy] y(2) obtain w where
    w: "Receive y (int (length (rx_queue (sock m')))) = Inr (rx_queue (sock m'), w)"
      "get_frames w (rx_queue (sock m')) = Inr (map (frame_bytes y) (rx_queue (sock m')))"
    and st: "step (m'\<lparr>sock := y\<rparr>) (m'\<lparr>sock := w\<rparr>)" and e: "rx_queue w = []" by auto
  have cw: "conserved (m'\<lparr>sock := w\<rparr>)" "delivered (sock (m'\<lparr>sock := w\<rparr>))"
    using step_conserved [OF st cy(1)] step_delivered [OF st cy] .
  have fb: "frame_bytes y = frame_bytes (sock m')" using y(3) by (simp add: frame_bytes_def fun_eq_iff)
  show ?thesis
  proof (cases "rx_queue (sock m') = []")
    case True
    with x(1) P y(2) cy show ?thesis by (intro exI [of _ y]) (simp add: dump_iter_def)
  next
    case False
    with x(1) P w e cw fb show ?thesis by (intro exI [of _ w]) (simp add: dump_iter_def)
  qed
qed

section \<open>Properties\<close>

text \<open>
  An iteration of the receive loop never panics and never deadlocks on an empty Fill ring: from
  every state in which the frames are conserved and the delivered descriptors lie in their frames, it
  refills, waits with a receive event requested, and, whatever the kernel does meanwhile, hands out
  exactly the bytes of the frames in the Rx ring, oldest first, leaves the ring empty, and keeps both
  invariants for the next iteration. An error of \<open>poll\<close> ends the loop with that error.
\<close>

lemma dump_iter_correct:
  assumes "conserved m" and "delivered (sock m)"
  shows "\<exists>x. refill (sock m) = Inr x \<and>
    (\<forall>m' kern. step\<^sup>*\<^sup>* (m\<lparr>sock := x\<rparr>) m' \<and> kern x = sock m' \<longrightarrow>
      (\<exists>m''. dump_iter (sock m) [(None, kern)] =
          Some (Inr (Inr (map (frame_bytes (sock m')) (rx_queue (sock m')), sock m''))) \<and>
        rx_queue (sock m'') = [] \<and> conserved m'' \<and> delivered (sock m''))) \<and>
    (\<forall>e kern. e \<noteq> EINTR \<longrightarrow> dump_iter (sock m) [(Some e, kern)] = Some (Inr (Inl e)))"
proof -
  from refill_ok [OF assms(1)] obtain x where
    x: "refill (sock m) = Inr x" "step\<^sup>*\<^sup>* m (m\<lparr>sock := x\<rparr>)" "0 < numFilled x" by blast
  have "\<exists>m''. dump_iter (sock m) [(None, kern)] =
          Some (Inr (Inr (map (frame_bytes (sock m')) (rx_queue (sock m')), sock m''))) \<and>
        rx_queue (sock m'') = [] \<and> conserved m'' \<and> delivered (sock m'')"
    if run: "step\<^sup>*\<^sup>* (m\<lparr>sock := x\<rparr>) m'" "kern x = sock m'" for m' kern
  proof -
    have "conserved m'" "delivered (sock m')"
      using steps_delivered [OF rtranclp_trans [OF x(2) run(1)] assms] by simp_all
    moreover have "poll_loop [(None, kern)] x = Some (None, sock m')" using run(2) by simp
    ultimately obtain w where
      "dump_iter (sock m) [(None, kern)] =
          Some (Inr (Inr (map (frame_bytes (sock m')) (rx_queue (sock m')), w)))"
      "rx_queue w = [] \<and> conserved (m'\<lparr>sock := w\<rparr>) \<and> delivered w"
      using dump_iter_ok [OF x(1,3)] by blast
    then show ?thesis by (intro exI [of _ "m'\<lparr>sock := w\<rparr>"]) simp
  qed
  moreover have "dump_iter (sock m) [(Some e, kern)] = Some (Inr (Inl e))" if "e \<noteq> EINTR" for e kern
    using x that by (simp add: dump_iter_def Poll_def poll_events_def)
  ultimately show ?thesis using x(1) by blast
qed

lemma demo_delivered: "delivered demo_socket"
proof -
  have "umem demo_socket = Some (replicate 16384 0)" by (simp add: demo_socket_def)
  then show ?thesis
    unfolding delivered_def demo_queues(2)
    by (simp add: in_frame_def frame_of_def demo_desc_def demo_opts_def)
qed

end
