(* ===== verification/Xsk_New.thy ===== *)
theory Xsk_New
  imports Dump_Frames
begin

text \<open>
  \<open>NewSocket\<close> of \<^verbatim>\<open>dumpframes/xdp.go\<close>: the sequence of system calls that sets a socket up, with
  the result of each call as an argument. On success it establishes the invariants that the other
  theories start from; on failure the question is which resources are given back.
\<close>

section \<open>Model\<close>

text \<open>
  The results of the system calls, \<open>None\<close> for success. \<open>sys_map_ring\<close> gives the results of the
  four \<open>mmap\<close> calls on the socket, in the order Fill, Completion, Rx, Tx.
\<close>

record sys =
  sys_socket :: "errno + int"
  sys_mmap_umem :: "errno option"
  sys_umem_reg :: "errno option"
  sys_fill_ring :: "errno option"
  sys_completion_ring :: "errno option"
  sys_rx_ring :: "errno option"
  sys_tx_ring :: "errno option"
  sys_mmap_offsets :: "errno option"
  sys_map_fill :: "errno option"
  sys_map_completion :: "errno option"
  sys_map_rx :: "errno option"
  sys_map_tx :: "errno option"
  sys_bind :: "u32 \<Rightarrow> u32 \<Rightarrow> errno option"
  sys_close :: "errno option"
  sys_munmap :: "errno option"

datatype new_error =
    Socket_Failed errno | Mmap_Failed errno | Umem_Reg_Failed errno | Fill_Ring_Failed errno
  | Completion_Ring_Failed errno | Rx_Ring_Failed errno | Tx_Ring_Failed errno | No_Rings
  | Offsets_Failed errno | Map_Fill_Failed errno | Map_Completion_Failed errno
  | Map_Rx_Failed errno | Map_Tx_Failed errno | Bind_Failed errno

definition EINVAL :: errno where
  "EINVAL = Errno 22"

text \<open>\<open>&Socket{fd: -1, ifindex: Ifindex, options: *options}\<close>: everything else is nil or zero.\<close>

definition nil_ring :: "'d ring" where
  "nil_ring = \<lparr>Producer = None, Consumer = None, Descs = []\<rparr>"

definition zero_socket :: "int \<Rightarrow> socket_options \<Rightarrow> socket" where
  "zero_socket ifx opts = \<lparr>fd = -1, umem = None, fillRing = nil_ring, rxRing = nil_ring, txRing = nil_ring,
     completionRing = nil_ring, ifindex = ifx, numTransmitted = 0, numFilled = 0, freeRXDescs = [],
     freeTXDescs = [], options = opts, cap_rxDescs = 0, cap_getTXDescs = 0, cap_getRXDescs = 0\<rparr>"

text \<open>A ring as the kernel hands it over: counters and entries are zero.\<close>

definition mapped_ring :: "'d \<Rightarrow> int \<Rightarrow> 'd ring" where
  "mapped_ring z n = \<lparr>Producer = Some 0, Consumer = Some 0, Descs = replicate (nat n) z\<rparr>"

definition zero_desc :: Desc where
  "zero_desc = \<lparr>Addr = 0, Len = 0, Opts = 0\<rparr>"

text \<open>
  \<open>syscall.Mmap\<close> refuses a length that is not positive before it calls the kernel. Where the result
  of the call is \<open>None\<close> the mapping exists.
\<close>

definition go_mmap :: "int \<Rightarrow> errno option \<Rightarrow> errno option" where
  "go_mmap len r = (if len \<le> 0 then Some EINVAL else r)"

text \<open>
  A result is a panic, an error or a socket, with the resources that the process then holds. A failed
  step returns its error after a call of \<open>xsk.Close()\<close>, whose own result is dropped.
\<close>

type_synonym new_result = "(go_panic + (new_error + socket)) \<times> resources"

definition check :: "sys \<Rightarrow> errno option \<Rightarrow> (errno \<Rightarrow> new_error) \<Rightarrow> socket \<Rightarrow> resources \<Rightarrow> new_result \<Rightarrow> new_result" where
  "check s r err xsk res k =
     (case r of
        Some e \<Rightarrow> (Inr (Inl (err e)), snd (snd (Close (sys_close s) (sys_munmap s) xsk res)))
      | None \<Rightarrow> k)"

definition mapped :: "mapping \<Rightarrow> resources \<Rightarrow> resources" where
  "mapped m res = res\<lparr>mappings := mappings res @ [m]\<rparr>"

text \<open>The end of \<open>NewSocket\<close>, from the \<open>bind\<close> call on.\<close>

definition new_bind :: "sys \<Rightarrow> int \<Rightarrow> int \<Rightarrow> socket_options \<Rightarrow> socket \<Rightarrow> resources \<Rightarrow> new_result" where
  "new_bind s Ifindex QueueID opts xsk res =
     check s (sys_bind s (to_u32 Ifindex) (to_u32 QueueID)) Bind_Failed xsk res
       (case go_make [NumFrames opts, NumFrames opts, CompletionRingNumDescs opts, FillRingNumDescs opts] of
          Inl e \<Rightarrow> (Inl e, res)
        | Inr _ \<Rightarrow>
            (Inr (Inr (xsk\<lparr>freeRXDescs := replicate (nat (NumFrames opts)) True,
                           freeTXDescs := replicate (nat (NumFrames opts)) True,
                           cap_getTXDescs := nat (CompletionRingNumDescs opts),
                           cap_getRXDescs := nat (FillRingNumDescs opts)\<rparr>)), res))"

text \<open>The four ring mappings; the length of a mapping also counts the ring's header.\<close>

definition new_maps ::
  "sys \<Rightarrow> int \<Rightarrow> int \<Rightarrow> socket_options \<Rightarrow> bool \<Rightarrow> bool \<Rightarrow> socket \<Rightarrow> resources \<Rightarrow> new_result" where
  "new_maps s Ifindex QueueID opts rx tx xsk res =
     check s (sys_map_fill s) Map_Fill_Failed xsk res (
     let xsk = xsk\<lparr>fillRing := mapped_ring 0 (FillRingNumDescs opts)\<rparr>; res = mapped Fill_Map res in
     check s (sys_map_completion s) Map_Completion_Failed xsk res (
     let xsk = xsk\<lparr>completionRing := mapped_ring 0 (CompletionRingNumDescs opts)\<rparr>; res = mapped Completion_Map res in
     check s (if rx then sys_map_rx s else None) Map_Rx_Failed xsk res (
     let (xsk, res) =
       (if rx then (xsk\<lparr>rxRing := mapped_ring zero_desc (RxRingNumDescs opts),
                        cap_rxDescs := nat (RxRingNumDescs opts)\<rparr>, mapped Rx_Map res)
        else (xsk, res)) in
     check s (if tx then sys_map_tx s else None) Map_Tx_Failed xsk res (
     let (xsk, res) =
       (if tx then (xsk\<lparr>txRing := mapped_ring zero_desc (TxRingNumDescs opts)\<rparr>, mapped Tx_Map res)
        else (xsk, res)) in
     new_bind s Ifindex QueueID opts xsk res))))"

definition NewSocket :: "sys \<Rightarrow> int \<Rightarrow> int \<Rightarrow> socket_options option \<Rightarrow> resources \<Rightarrow> new_result" where
  "NewSocket s Ifindex QueueID options_arg res =
     (let opts = (case options_arg of None \<Rightarrow> DefaultSocketOptions | Some p \<Rightarrow> p);
          xsk = zero_socket Ifindex opts;
          size = to_int (NumFrames opts * FrameSize opts) in
      case sys_socket s of
        Inl e \<Rightarrow> (Inr (Inl (Socket_Failed e)), res)
      | Inr f \<Rightarrow>
          (let xsk = xsk\<lparr>fd := f\<rparr>; res = res\<lparr>open_fds := open_fds res @ [f]\<rparr> in
           check s (go_mmap size (sys_mmap_umem s)) Mmap_Failed xsk res (
           let xsk = xsk\<lparr>umem := Some (replicate (nat size) 0)\<rparr>; res = mapped Umem_Map res in
           check s (sys_umem_reg s) Umem_Reg_Failed xsk res (
           check s (sys_fill_ring s) Fill_Ring_Failed xsk res (
           check s (sys_completion_ring s) Completion_Ring_Failed xsk res (
           let rxRing = (RxRingNumDescs opts > 0) in
           check s (if rxRing then sys_rx_ring s else None) Rx_Ring_Failed xsk res (
           let txRing = (TxRingNumDescs opts > 0) in
           check s (if txRing then sys_tx_ring s else None) Tx_Ring_Failed xsk res (
           if \<not> (rxRing \<or> txRing) then (Inr (Inl No_Rings), res)
           else
             check s (sys_mmap_offsets s) Offsets_Failed xsk res (
             new_maps s Ifindex QueueID opts rxRing txRing xsk res)))))))))"

section \<open>Results\<close>

lemma check_socket: "check s r err x res k = (Inr (Inr y), res') \<longleftrightarrow> r = None \<and> k = (Inr (Inr y), res')"
  by (simp add: check_def split: option.splits)

lemma check_None [simp]: "check s None err x res k = k"
  by (simp add: check_def)

lemma check_error:
  "check s r err x res k = (Inr (Inl e), res') \<longleftrightarrow>
     (\<exists>n. r = Some n \<and> e = err n \<and> res' = snd (snd (Close (sys_close s) (sys_munmap s) x res))) \<or>
     r = None \<and> k = (Inr (Inl e), res')"
  by (auto simp: check_def split: option.splits)

lemma check_panic: "check s r err x res k = (Inl e, res') \<longleftrightarrow> r = None \<and> k = (Inl e, res')"
  by (simp add: check_def split: option.splits)

text \<open>What an error-free \<open>Close\<close> releases.\<close>

lemma Close_releases:
  "fd x \<noteq> -1 \<Longrightarrow> open_fds (snd (snd (Close None None x res))) = remove1 (fd x) (open_fds res)"
  "mappings (snd (snd (Close None None x res))) = (if umem x = None then mappings res else remove1 Umem_Map (mappings res))"
  by (auto simp: Close_def Let_def)

text \<open>The socket that \<open>NewSocket\<close> returns when it succeeds with both directions enabled.\<close>

definition new_socket :: "int \<Rightarrow> int \<Rightarrow> socket_options \<Rightarrow> socket" where
  "new_socket f ifx opts = \<lparr>fd = f, umem = Some (replicate (nat (to_int (NumFrames opts * FrameSize opts))) 0),
     fillRing = mapped_ring 0 (FillRingNumDescs opts), rxRing = mapped_ring zero_desc (RxRingNumDescs opts),
     txRing = mapped_ring zero_desc (TxRingNumDescs opts),
     completionRing = mapped_ring 0 (CompletionRingNumDescs opts),
     ifindex = ifx, numTransmitted = 0, numFilled = 0,
     freeRXDescs = replicate (nat (NumFrames opts)) True, freeTXDescs = replicate (nat (NumFrames opts)) True,
     options = opts, cap_rxDescs = nat (RxRingNumDescs opts),
     cap_getTXDescs = nat (CompletionRingNumDescs opts), cap_getRXDescs = nat (FillRingNumDescs opts)\<rparr>"

lemma NewSocket_Inr:
  assumes "NewSocket s Ifindex QueueID (Some opts) res = (Inr (Inr x), res')"
    and "0 < RxRingNumDescs opts" and "0 < TxRingNumDescs opts"
  shows "\<exists>f. sys_socket s = Inr f \<and> x = new_socket f Ifindex opts"
  using assms
  by (auto simp: NewSocket_def new_maps_def new_bind_def check_socket zero_socket_def new_socket_def Let_def
      split: sum.splits)

text \<open>Ring sizes the kernel accepts.\<close>

definition ring_opts :: "socket_options \<Rightarrow> bool" where
  "ring_opts opts \<longleftrightarrow> list_all (\<lambda>n. 0 < n \<and> ring_size (nat n))
     [FillRingNumDescs opts, CompletionRingNumDescs opts, RxRingNumDescs opts, TxRingNumDescs opts]"

lemma ring_size_64: "ring_size 64"
  by (auto simp: ring_size_def intro!: image_eqI [of _ _ 6])

lemma mapped_ring_view: "ring_size (nat n) \<Longrightarrow> ring_ok (nat n) (mapped_ring z n) \<and> ring_view (nat n) (mapped_ring z n) = []"
  by (simp add: mapped_ring_def ring_ok_def ring_view_def)

lemma umem_size:
  assumes "opts_ok opts"
  shows "to_int (NumFrames opts * FrameSize opts) = NumFrames opts * FrameSize opts"
proof (rule to_int_small)
  have "0 \<le> NumFrames opts * FrameSize opts" using assms by (simp add: opts_ok_def)
  then show "- (2 ^ 63) \<le> NumFrames opts * FrameSize opts" by simp
  show "NumFrames opts * FrameSize opts < 2 ^ 63" using assms by (simp add: opts_ok_def)
qed

lemma new_socket_conserved:
  assumes "opts_ok opts" and "ring_opts opts" and "FillRingNumDescs opts \<le> NumFrames opts"
  shows "conserved \<lparr>sock = new_socket f ifx opts, rx_held = [], tx_held = []\<rparr>"
    and "delivered (new_socket f ifx opts)"
proof -
  let ?x = "new_socket f ifx opts"
  have v: "fill_queue ?x = []" "rx_queue ?x = []" "tx_queue ?x = []" "comp_queue ?x = []"
    using assms(2) by (simp_all add: ring_opts_def new_socket_def mapped_ring_view)
  have "sock_ok ?x"
    unfolding sock_ok_def v using assms(1,2) by (simp add: ring_opts_def new_socket_def mapped_ring_view)
  moreover have "freeRXDescs ?x ! i" if "i < fill_size ?x" for i
    using that assms(3) by (simp add: new_socket_def)
  then have "filter (\<lambda>i. \<not> freeRXDescs ?x ! i) (rx_region ?x) = []" by (simp add: filter_empty_conv)
  moreover have "freeTXDescs ?x ! i" if "i < nat (NumFrames (options ?x))" for i
    using that by (simp add: new_socket_def)
  then have "filter (\<lambda>i. \<not> freeTXDescs ?x ! i) (tx_region ?x) = []" by (simp add: filter_empty_conv)
  ultimately show "conserved \<lparr>sock = ?x, rx_held = [], tx_held = []\<rparr>"
    using assms(3) by (simp add: conserved_def rx_owned_def tx_owned_def v Let_def del: mset_filter)
      (simp add: new_socket_def)
  show "delivered ?x"
    unfolding delivered_def v using assms(1) by (simp add: new_socket_def umem_size opts_ok_def)
qed

section \<open>Properties\<close>

text \<open>
  C18: with ring sizes that are powers of two in both directions, and no more Fill ring entries than
  frames, every socket that \<open>NewSocket\<close> returns is one from which the frames are conserved and the
  receive loop is safe: all rings are empty, every frame is free, and the flags, capacities and the
  packet memory fit the options. \<open>NewSocket\<close> does not panic with such options, it succeeds when no
  system call fails, and the default options are of this kind.
\<close>

theorem NewSocket_establishes:
  assumes "opts_ok opts" and "ring_opts opts" and "FillRingNumDescs opts \<le> NumFrames opts"
  shows "(NewSocket s Ifindex QueueID (Some opts) res = (Inr (Inr x), res') \<longrightarrow>
      conserved \<lparr>sock = x, rx_held = [], tx_held = []\<rparr> \<and> delivered x \<and> sys_socket s = Inr (FD x)) \<and>
    (\<forall>e. fst (NewSocket s Ifindex QueueID (Some opts) res) \<noteq> Inl e) \<and>
    (sys_socket s = Inr f \<and>
       list_all (\<lambda>r. r = None) [sys_mmap_umem s, sys_umem_reg s, sys_fill_ring s, sys_completion_ring s, sys_rx_ring s,
         sys_tx_ring s, sys_mmap_offsets s, sys_map_fill s, sys_map_completion s, sys_map_rx s, sys_map_tx s,
         sys_bind s (to_u32 Ifindex) (to_u32 QueueID)] \<longrightarrow>
      (\<exists>x res'. NewSocket s Ifindex QueueID (Some opts) res = (Inr (Inr x), res'))) \<and>
    opts_ok DefaultSocketOptions \<and> ring_opts DefaultSocketOptions \<and>
    FillRingNumDescs DefaultSocketOptions \<le> NumFrames DefaultSocketOptions"
proof (intro conjI allI impI; (elim conjE)?)
  have p: "0 < RxRingNumDescs opts" "0 < TxRingNumDescs opts" "0 < FillRingNumDescs opts" "0 < CompletionRingNumDescs opts"
    using assms(2) by (simp_all add: ring_opts_def)
  then have n: "0 < NumFrames opts" using assms(3) by simp
  then have size: "to_int (NumFrames opts * FrameSize opts) = NumFrames opts * FrameSize opts"
    "0 < NumFrames opts * FrameSize opts" using assms(1) by (simp_all add: umem_size) (simp add: opts_ok_def)
  have make: "go_make [NumFrames opts, NumFrames opts, CompletionRingNumDescs opts, FillRingNumDescs opts] = Inr ()"
    using p n by (simp add: go_make_def)
  { assume "NewSocket s Ifindex QueueID (Some opts) res = (Inr (Inr x), res')"
    from NewSocket_Inr [OF this p(1,2)] new_socket_conserved [OF assms]
    show "conserved \<lparr>sock = x, rx_held = [], tx_held = []\<rparr>" "delivered x" "sys_socket s = Inr (FD x)"
      by (auto simp: FD_def new_socket_def) }
  show "fst (NewSocket s Ifindex QueueID (Some opts) res) \<noteq> Inl e" for e
  proof
    assume "fst (NewSocket s Ifindex QueueID (Some opts) res) = Inl e"
    then obtain res' where "NewSocket s Ifindex QueueID (Some opts) res = (Inl e, res')"
      by (cases "NewSocket s Ifindex QueueID (Some opts) res") auto
    then show False
      by (auto simp: NewSocket_def new_maps_def new_bind_def check_panic make Let_def split: sum.splits if_splits)
  qed
  assume "sys_socket s = Inr f" and
    "list_all (\<lambda>r. r = None) [sys_mmap_umem s, sys_umem_reg s, sys_fill_ring s, sys_completion_ring s, sys_rx_ring s,
         sys_tx_ring s, sys_mmap_offsets s, sys_map_fill s, sys_map_completion s, sys_map_rx s, sys_map_tx s,
         sys_bind s (to_u32 Ifindex) (to_u32 QueueID)]"
  moreover have "go_mmap (NumFrames opts * FrameSize opts) None = None" using size(2) by (simp add: go_mmap_def)
  ultimately show "\<exists>x res'. NewSocket s Ifindex QueueID (Some opts) res = (Inr (Inr x), res')"
    using p by (simp add: NewSocket_def new_maps_def new_bind_def make size(1) Let_def)
qed (use ring_size_64 in \<open>simp_all add: opts_ok_def ring_opts_def DefaultSocketOptions_def\<close>)

text \<open>System calls that all succeed, and one that fails, for the witnesses.\<close>

definition demo_sys :: sys where
  "demo_sys = \<lparr>sys_socket = Inr 7, sys_mmap_umem = None, sys_umem_reg = None, sys_fill_ring = None,
     sys_completion_ring = None, sys_rx_ring = None, sys_tx_ring = None, sys_mmap_offsets = None,
     sys_map_fill = None, sys_map_completion = None, sys_map_rx = None, sys_map_tx = None,
     sys_bind = (\<lambda>i q. if q < 64 then None else Some (Errno 22)), sys_close = None, sys_munmap = None\<rparr>"

definition no_resources :: resources where
  "no_resources = \<lparr>open_fds = [], mappings = []\<rparr>"

theorem NewSocket_establishes_witness:
  "\<exists>x res'. NewSocket demo_sys 2 0 (Some demo_opts) no_resources = (Inr (Inr x), res')"
proof -
  have "ring_opts demo_opts" by (simp add: ring_opts_def demo_opts_def)
  moreover have "FillRingNumDescs demo_opts \<le> NumFrames demo_opts" by (simp add: demo_opts_def)
  ultimately show ?thesis
    using NewSocket_establishes [OF demo_opts_ok, where s = demo_sys and Ifindex = 2 and QueueID = 0 and f = 7]
    by (simp add: demo_sys_def to_u32_def)
qed

text \<open>
  What a call of \<open>NewSocket\<close> leaves behind in the process when it fails with an error, and the mappings
  of the rings of a socket.
\<close>

definition ring_maps :: "socket_options \<Rightarrow> mapping list" where
  "ring_maps opts = [Fill_Map, Completion_Map] @ (if 0 < RxRingNumDescs opts then [Rx_Map] else []) @
     (if 0 < TxRingNumDescs opts then [Tx_Map] else [])"

fun left_maps :: "socket_options \<Rightarrow> new_error \<Rightarrow> mapping list" where
  "left_maps opts No_Rings = [Umem_Map]"
| "left_maps opts (Map_Completion_Failed e) = [Fill_Map]"
| "left_maps opts (Map_Rx_Failed e) = [Fill_Map, Completion_Map]"
| "left_maps opts (Map_Tx_Failed e) = [Fill_Map, Completion_Map] @ (if 0 < RxRingNumDescs opts then [Rx_Map] else [])"
| "left_maps opts (Bind_Failed e) = ring_maps opts"
| "left_maps opts _ = []"

text \<open>
  C29: what \<open>NewSocket\<close> and \<open>Close\<close> do not give back, when \<open>close\<close> and \<open>munmap\<close> report no error. A
  failing \<open>NewSocket\<close> closes the file descriptor and unmaps the packet memory, except when both ring
  sizes are zero, where both are lost; the rings mapped before a later failure stay mapped in every
  case. A succeeding one holds the file descriptor, the packet memory and its rings, and a \<open>Close\<close> of its
  socket gives the first two back and leaves all rings mapped.
\<close>

theorem NewSocket_error_leaks:
  assumes "sys_socket s = Inr f" and "0 \<le> f" and "sys_close s = None" and "sys_munmap s = None"
  shows "(NewSocket s Ifindex QueueID (Some opts) res = (Inr (Inl e), res') \<longrightarrow>
      mset (open_fds res') = mset (open_fds res) + (if e = No_Rings then {#f#} else {#}) \<and>
      mset (mappings res') = mset (mappings res) + mset (left_maps opts e)) \<and>
    (NewSocket s Ifindex QueueID (Some opts) res = (Inr (Inr x), res') \<longrightarrow>
      mset (open_fds res') = mset (open_fds res) + {#f#} \<and>
      mset (mappings res') = mset (mappings res) + {#Umem_Map#} + mset (ring_maps opts) \<and>
      (\<exists>y res''. Close (sys_close s) (sys_munmap s) x res' = (None, y, res'') \<and>
        mset (open_fds res'') = mset (open_fds res) \<and>
        mset (mappings res'') = mset (mappings res) + mset (ring_maps opts)))"
proof (intro conjI impI)
  have f: "f \<noteq> -1" using assms(2) by simp
  { assume "NewSocket s Ifindex QueueID (Some opts) res = (Inr (Inl e), res')"
    then show "mset (open_fds res') = mset (open_fds res) + (if e = No_Rings then {#f#} else {#})"
      "mset (mappings res') = mset (mappings res) + mset (left_maps opts e)"
      using assms f
      by (auto simp: NewSocket_def new_maps_def new_bind_def check_error Close_releases zero_socket_def mapped_def
          ring_maps_def Let_def split: sum.splits if_splits) }
  { assume "NewSocket s Ifindex QueueID (Some opts) res = (Inr (Inr x), res')"
    then have x: "fd x = f" "umem x \<noteq> None"
      and r: "open_fds res' = open_fds res @ [f]" "mappings res' = mappings res @ Umem_Map # ring_maps opts"
      using assms(1)
      by (auto simp: NewSocket_def new_maps_def new_bind_def check_socket zero_socket_def mapped_def
          ring_maps_def Let_def split: sum.splits if_splits)
    show "mset (open_fds res') = mset (open_fds res) + {#f#}"
      "mset (mappings res') = mset (mappings res) + {#Umem_Map#} + mset (ring_maps opts)" by (simp_all add: r)
    obtain e y res'' where c: "Close None None x res' = (e, y, res'')" by (cases "Close None None x res'") auto
    then have "e = None" by (auto simp: Close_def Let_def split: if_splits)
    moreover have "mset (open_fds res'') = mset (open_fds res)" "mset (mappings res'') = mset (mappings res) + mset (ring_maps opts)"
      using Close_releases [of x res'] x f r c by simp_all
    ultimately show "\<exists>y res''. Close (sys_close s) (sys_munmap s) x res' = (None, y, res'') \<and>
        mset (open_fds res'') = mset (open_fds res) \<and> mset (mappings res'') = mset (mappings res) + mset (ring_maps opts)"
      using c assms(3,4) by auto }
qed

theorem NewSocket_error_leaks_witness:
  "\<exists>res'. NewSocket demo_sys 2 0 (Some (demo_opts\<lparr>RxRingNumDescs := 0, TxRingNumDescs := 0\<rparr>)) no_resources =
      (Inr (Inl No_Rings), res') \<and> mset (open_fds res') = {#7#} \<and> mset (mappings res') = {#Umem_Map#}"
proof -
  let ?opts = "demo_opts\<lparr>RxRingNumDescs := 0, TxRingNumDescs := 0\<rparr>"
  have "\<exists>res'. NewSocket demo_sys 2 0 (Some ?opts) no_resources = (Inr (Inl No_Rings), res')"
    by (simp add: NewSocket_def demo_sys_def demo_opts_def go_mmap_def to_int_small)
  then obtain res' where n: "NewSocket demo_sys 2 0 (Some ?opts) no_resources = (Inr (Inl No_Rings), res')" by blast
  have "sys_socket demo_sys = Inr 7" "sys_close demo_sys = None" "sys_munmap demo_sys = None"
    by (simp_all add: demo_sys_def)
  from NewSocket_error_leaks [OF this(1) _ this(2,3), of 2 0 ?opts no_resources No_Rings res'] n show ?thesis
    by (simp add: no_resources_def)
qed

text \<open>
  C30: a socket for sending only, which \<open>NewSocket\<close> allows, cannot be polled: its Rx ring is nil, so
  \<open>Poll\<close> panics on a nil pointer as soon as something has been transmitted, and so does
  \<open>Stats\<close>, which guards the Tx and Completion rings against nil but not the Rx ring.
\<close>

theorem tx_only_socket_panics:
  assumes "NewSocket s Ifindex QueueID (Some opts) res = (Inr (Inr x), res')" and "RxRingNumDescs opts \<le> 0"
    and "Transmit x ds rs = Some (Inr (k, y))" and "0 < numTransmitted y" and "rxRing (kern y) = rxRing y"
  shows "Poll y [(None, kern)] = Some (Inl Nil_Dereference) \<and> Stats zero getsockopt y = Inl Nil_Dereference"
proof -
  have "rxRing x = nil_ring" and f: "Consumer (fillRing x) = Some 0"
    using assms(1,2)
    by (auto simp: NewSocket_def new_maps_def new_bind_def check_socket zero_socket_def mapped_ring_def mapped_def Let_def
        split: sum.splits if_splits)
  then have nil: "rxRing y = nil_ring" "rxRing (kern y) = nil_ring"
    using Transmit_keeps [OF assms(3)] assms(5) by simp_all
  have "fillRing y = fillRing x"
    using assms(3) by (auto simp: Transmit_def tx_submit_def rbind_eq_Inr Let_def split: prod.splits sum.splits)
  with f nil assms(4) show ?thesis
    by (simp add: Poll_def poll_events_def NumReceived_def ring_used_def nil_ring_def Stats_def)
qed

definition demo_tx_only :: socket where
  "demo_tx_only = (case fst (NewSocket demo_sys 2 0 (Some (demo_opts\<lparr>RxRingNumDescs := 0\<rparr>)) no_resources) of
     Inr (Inr x) \<Rightarrow> x | _ \<Rightarrow> zero_socket 0 demo_opts)"

theorem tx_only_socket_panics_witness:
  "\<exists>k y. Transmit demo_tx_only [demo_desc 5] [None] = Some (Inr (k, y)) \<and>
    Poll y [(None, id)] = Some (Inl Nil_Dereference) \<and> Stats () (Pair None) y = Inl Nil_Dereference"
proof -
  have "\<exists>res'. NewSocket demo_sys 2 0 (Some (demo_opts\<lparr>RxRingNumDescs := 0\<rparr>)) no_resources = (Inr (Inr demo_tx_only), res')"
    by (simp add: demo_tx_only_def NewSocket_def demo_sys_def demo_opts_def go_mmap_def new_maps_def new_bind_def to_u32_def
        to_int_small go_make_def Let_def)
  then obtain res' where
    n: "NewSocket demo_sys 2 0 (Some (demo_opts\<lparr>RxRingNumDescs := 0\<rparr>)) no_resources = (Inr (Inr demo_tx_only), res')" by blast
  have t: "\<exists>y. Transmit demo_tx_only [demo_desc 5] [None] = Some (Inr (1, y)) \<and> numTransmitted y = 1"
    by (simp add: demo_tx_only_def NewSocket_def demo_sys_def demo_opts_def go_mmap_def new_maps_def new_bind_def
        to_int_small go_make_def
        Let_def mapped_ring_def Transmit_def tx_submit_def NumFreeTxSlots_def ring_free_def to_u32_def ring_slot_def
        zero_socket_def mark_frame_def demo_desc_def to_u64_def go_store_def)
  then obtain y where y: "Transmit demo_tx_only [demo_desc 5] [None] = Some (Inr (1, y))" "numTransmitted y = 1" by blast
  from tx_only_socket_panics [OF n _ y(1), of id "()" "Pair None"] y show ?thesis by (auto simp: demo_opts_def)
qed

end
