(* ===== verification/Dump_Loop.thy ===== *)
theory Dump_Loop
  imports Xsk_New
begin

text \<open>
  The receive loop of \<^verbatim>\<open>dumpframes/src/dumpframes.go\<close> over many iterations. The kernel now also
  writes the packets it receives into the packet memory, and the loop is shown to hand out every one
  of them exactly once, in the order of arrival and with the bytes that arrived.
\<close>

section \<open>The loop\<close>

text \<open>
  The answers of \<open>poll\<close> are given for each iteration; when they are used up, or the wait of an
  iteration does not end, the loop is still running.
\<close>

datatype loop_end = Still_Running | Loop_Error errno | Loop_Panic go_panic

type_synonym poll_answers = "(errno option \<times> (socket \<Rightarrow> socket)) list"

fun dump_loop :: "socket \<Rightarrow> poll_answers list \<Rightarrow> u8 list list \<times> loop_end \<times> socket" where
  "dump_loop xsk [] = ([], Still_Running, xsk)"
| "dump_loop xsk (poll # polls) =
     (case dump_iter xsk poll of
        None \<Rightarrow> ([], Still_Running, xsk)
      | Some (Inl e) \<Rightarrow> ([], Loop_Panic e, xsk)
      | Some (Inr (Inl err)) \<Rightarrow> ([], Loop_Error err, xsk)
      | Some (Inr (Inr (frames, xsk))) \<Rightarrow>
          (let (fs, r, xsk) = dump_loop xsk polls in (frames @ fs, r, xsk)))"

section \<open>The kernel with packets\<close>

text \<open>Writing the bytes of a packet into the packet memory.\<close>

definition write_at :: "nat \<Rightarrow> 'a list \<Rightarrow> 'a list \<Rightarrow> 'a list" where
  "write_at off bs u = take off u @ bs @ drop (off + length bs) u"

lemma length_write_at: "off + length bs \<le> length u \<Longrightarrow> length (write_at off bs u) = length u"
  by (simp add: write_at_def)

lemma write_at_read: "off + length bs \<le> length u \<Longrightarrow> take (length bs) (drop off (write_at off bs u)) = bs"
  by (simp add: write_at_def)

lemma write_at_before:
  assumes "lo + n \<le> off" and "off + length bs \<le> length u"
  shows "take n (drop lo (write_at off bs u)) = take n (drop lo u)"
  using assms by (simp add: write_at_def take_drop)

lemma write_at_after:
  assumes "off + length bs \<le> lo" and "off + length bs \<le> length u"
  shows "take n (drop lo (write_at off bs u)) = take n (drop lo u)"
  using assms by (simp add: write_at_def)

text \<open>
  What the kernel does while the program waits, with the list of packets it receives: it takes
  addresses from the Fill ring, writes a packet into a frame it has taken and puts its descriptor into
  the Rx ring, and sends and completes frames of the Tx ring.
\<close>

inductive kern_run :: "machine \<Rightarrow> u8 list list \<Rightarrow> machine \<Rightarrow> bool" where
  run_idle: "kern_run m [] m"
| run_take_fill: "kern_run m ps m' \<Longrightarrow> fill_queue (sock m') = a # q \<Longrightarrow>
    kern_run m ps (m'\<lparr>sock := (sock m')\<lparr>fillRing := kern_get (fillRing (sock m'))\<rparr>,
                      rx_held := rx_held m' @ [a]\<rparr>)"
| run_receive: "kern_run m ps m' \<Longrightarrow> a \<in> set (rx_held m') \<Longrightarrow>
    length (rx_queue (sock m')) < rx_size (sock m') \<Longrightarrow>
    frame_of (options (sock m')) (Addr d) = frame_of (options (sock m')) a \<Longrightarrow>
    unat (Addr d) + unat (Len d) \<le> (frame_of (options (sock m')) a + 1) * nat (FrameSize (options (sock m'))) \<Longrightarrow>
    length bs = unat (Len d) \<Longrightarrow> umem (sock m') = Some u \<Longrightarrow>
    kern_run m (ps @ [bs])
      (m'\<lparr>sock := (sock m')\<lparr>umem := Some (write_at (unat (Addr d)) bs u),
             rxRing := kern_put (RxRingNumDescs (options (sock m'))) d (rxRing (sock m'))\<rparr>,
          rx_held := remove1 a (rx_held m')\<rparr>)"
| run_take_tx: "kern_run m ps m' \<Longrightarrow> tx_queue (sock m') = d # q \<Longrightarrow>
    kern_run m ps (m'\<lparr>sock := (sock m')\<lparr>txRing := kern_get (txRing (sock m'))\<rparr>,
                      tx_held := tx_held m' @ [Addr d]\<rparr>)"
| run_complete: "kern_run m ps m' \<Longrightarrow> a \<in> set (tx_held m') \<Longrightarrow>
    length (comp_queue (sock m')) < comp_size (sock m') \<Longrightarrow>
    kern_run m ps (m'\<lparr>sock := (sock m')\<lparr>completionRing :=
        kern_put (CompletionRingNumDescs (options (sock m'))) a (completionRing (sock m'))\<rparr>,
      tx_held := remove1 a (tx_held m')\<rparr>)"

text \<open>The content of the packet memory does not matter to the invariants, only its size.\<close>

lemma conserved_umem: "conserved (m\<lparr>sock := (sock m)\<lparr>umem := u\<rparr>\<rparr>) \<longleftrightarrow> conserved m"
proof -
  have "addr_ok ((sock m)\<lparr>umem := u\<rparr>) = addr_ok (sock m)" by (simp add: addr_ok_def fun_eq_iff)
  then have "sock_ok ((sock m)\<lparr>umem := u\<rparr>) \<longleftrightarrow> sock_ok (sock m)" by (simp add: sock_ok_def)
  then show ?thesis
    by (simp add: conserved_def rx_owned_def tx_owned_def rx_region_def tx_region_def)
qed

lemma delivered_umem:
  "umem x = Some u \<Longrightarrow> length u' = length u \<Longrightarrow> delivered (x\<lparr>umem := Some u'\<rparr>) \<longleftrightarrow> delivered x"
  by (simp add: delivered_def)

text \<open>A frame that a delivered descriptor, or the kernel, points into lies in the packet memory.\<close>

lemma frame_in_umem:
  assumes "delivered x" and "umem x = Some u" and "opts_ok (options x)" and "f < nat (NumFrames (options x))"
  shows "(f + 1) * nat (FrameSize (options x)) \<le> length u"
proof -
  have "length u = nat (NumFrames (options x)) * nat (FrameSize (options x))"
    using assms(1-3) by (auto simp: delivered_def opts_ok_def simp flip: nat_mult_distrib)
  moreover have "(f + 1) * nat (FrameSize (options x)) \<le> nat (NumFrames (options x)) * nat (FrameSize (options x))"
    using assms(4) by (intro mult_le_mono1) simp
  ultimately show ?thesis by simp
qed

lemma frame_of_start: "frame_of opts a * nat (FrameSize opts) \<le> unat a"
  by (simp add: frame_of_def)

text \<open>Writing into one frame leaves the bytes of a descriptor in another frame alone.\<close>

lemma frame_bytes_other:
  assumes "in_frame (options x) d'" and "in_frame (options x) d"
    and "frame_of (options x) (Addr d') \<noteq> frame_of (options x) (Addr d)"
    and "length bs = unat (Len d)" and "umem x = Some u" and "unat (Addr d) + unat (Len d) \<le> length u"
  shows "frame_bytes (x\<lparr>umem := Some (write_at (unat (Addr d)) bs u), rxRing := r\<rparr>) d' = frame_bytes x d'"
proof -
  let ?F = "nat (FrameSize (options x))" and ?f = "frame_of (options x) (Addr d)"
  let ?g = "frame_of (options x) (Addr d')"
  note lo = frame_of_start [of "options x" "Addr d"] frame_of_start [of "options x" "Addr d'"]
  note hi = assms(1,2) [unfolded in_frame_def]
  show ?thesis
  proof (cases "?g < ?f")
    case True
    then have "(?g + 1) * ?F \<le> ?f * ?F" by (intro mult_le_mono1) simp
    with lo hi have "unat (Addr d') + unat (Len d') \<le> unat (Addr d)" by linarith
    then show ?thesis using assms(4-6) by (simp add: frame_bytes_def write_at_before)
  next
    case False
    then have "(?f + 1) * ?F \<le> ?g * ?F" using assms(3) by (intro mult_le_mono1) simp
    with lo hi have "unat (Addr d) + unat (Len d) \<le> unat (Addr d')" by linarith
    then show ?thesis using assms(4-6) by (simp add: frame_bytes_def write_at_after)
  qed
qed

lemma frame_bytes_written:
  assumes "length bs = unat (Len d)" and "unat (Addr d) + unat (Len d) \<le> length u"
  shows "frame_bytes (x\<lparr>umem := Some (write_at (unat (Addr d)) bs u), rxRing := r\<rparr>) d = bs"
  using assms write_at_read [of "unat (Addr d)" bs u] by (simp add: frame_bytes_def)

lemma held_not_received:
  assumes "conserved m" and "a \<in> set (rx_held m)" and "d \<in> set (rx_queue (sock m))"
  shows "frame_of (options (sock m)) (Addr d) \<noteq> frame_of (options (sock m)) a"
proof -
  let ?f = "frame_of (options (sock m))"
  have "distinct (map ?f (rx_held m) @ map (\<lambda>d. ?f (Addr d)) (rx_queue (sock m)))"
    using conserved_distinct(1) [OF assms(1)] unfolding rx_owned_def Let_def distinct_append by blast
  then have "set (map ?f (rx_held m)) \<inter> set (map (\<lambda>d. ?f (Addr d)) (rx_queue (sock m))) = {}"
    by (simp only: distinct_append)
  moreover have "?f a \<in> set (map ?f (rx_held m))" using assms(2) by simp
  moreover have "?f (Addr d) \<in> set (map (\<lambda>d. ?f (Addr d)) (rx_queue (sock m)))" using assms(3) by simp
  ultimately show ?thesis by (metis IntI empty_iff)
qed

text \<open>One packet: the invariants, and what the Rx ring then holds.\<close>

lemma receive_packet:
  assumes m: "conserved m" "delivered (sock m)"
    and a: "a \<in> set (rx_held m)" and room: "length (rx_queue (sock m)) < rx_size (sock m)"
    and fr: "frame_of (options (sock m)) (Addr d) = frame_of (options (sock m)) a"
    and le: "unat (Addr d) + unat (Len d) \<le> (frame_of (options (sock m)) a + 1) * nat (FrameSize (options (sock m)))"
    and bs: "length bs = unat (Len d)" and u: "umem (sock m) = Some u"
    and m': "m' = m\<lparr>sock := (sock m)\<lparr>umem := Some (write_at (unat (Addr d)) bs u),
             rxRing := kern_put (RxRingNumDescs (options (sock m))) d (rxRing (sock m))\<rparr>,
          rx_held := remove1 a (rx_held m)\<rparr>"
  shows "conserved m' \<and> delivered (sock m') \<and>
    map (frame_bytes (sock m')) (rx_queue (sock m')) = map (frame_bytes (sock m)) (rx_queue (sock m)) @ [bs]"
proof -
  let ?x = "sock m"
  let ?r = "kern_put (RxRingNumDescs (options ?x)) d (rxRing ?x)"
  let ?m1 = "m\<lparr>sock := ?x\<lparr>rxRing := ?r\<rparr>, rx_held := remove1 a (rx_held m)\<rparr>"
  have ok: "sock_ok ?x" "opts_ok (options ?x)" "ring_ok (rx_size ?x) (rxRing ?x)"
    using m(1) by (simp_all add: conserved_def sock_ok_def)
  have "frame_of (options ?x) a \<in> set (rx_owned m)" using a by (simp add: rx_owned_def Let_def)
  then have "frame_of (options ?x) a < fill_size ?x" unfolding conserved_distinct(3) [OF m(1)] by blast
  moreover have "FillRingNumDescs (options ?x) \<le> NumFrames (options ?x)" using m(1) by (simp only: conserved_def)
  ultimately have "frame_of (options ?x) a < nat (NumFrames (options ?x))" by linarith
  from frame_in_umem [OF m(2) u ok(2) this] le have in_u: "unat (Addr d) + unat (Len d) \<le> length u" by simp
  have st: "step m ?m1" by (rule kern_deliver [OF a room fr le])
  have m1: "conserved ?m1" "delivered (sock ?m1)"
    using step_conserved [OF st m(1)] step_delivered [OF st m] .
  have eq: "m' = ?m1\<lparr>sock := (sock ?m1)\<lparr>umem := Some (write_at (unat (Addr d)) bs u)\<rparr>\<rparr>" by (simp add: m')
  have in_d: "in_frame (options ?x) d" using le fr by (simp add: in_frame_def)
  have q: "rx_queue (sock m') = rx_queue ?x @ [d]"
    using kern_put_view(2) [OF ok(3) room, of d] ring_ok_size [OF ok(3)] by (simp add: m')
  have "conserved m'" using m1(1) unfolding eq conserved_umem .
  moreover have "delivered (sock m')"
    using m1(2) delivered_umem [of "sock ?m1" u "write_at (unat (Addr d)) bs u"] u bs in_u
    by (simp add: eq length_write_at)
  moreover have "frame_bytes (sock m') d' = frame_bytes ?x d'" if "d' \<in> set (rx_queue ?x)" for d'
  proof -
    have "frame_of (options ?x) (Addr d') \<noteq> frame_of (options ?x) (Addr d)"
      using held_not_received [OF m(1) a that] fr by simp
    moreover have "in_frame (options ?x) d'" using m(2) that by (simp add: delivered_def list_all_iff)
    ultimately show ?thesis using frame_bytes_other [OF _ in_d _ bs u in_u] by (simp add: m')
  qed
  moreover have "frame_bytes (sock m') d = bs" using frame_bytes_written [OF bs in_u] by (simp add: m')
  ultimately show ?thesis unfolding q by simp
qed

text \<open>The other moves of the kernel are steps that leave the Rx ring and the packet memory alone.\<close>

lemma quiet_step:
  assumes "step m m'" and "conserved m" and "delivered (sock m)"
    and "rxRing (sock m') = rxRing (sock m)" and "umem (sock m') = umem (sock m)"
    and "options (sock m') = options (sock m)"
  shows "conserved m' \<and> delivered (sock m') \<and>
    map (frame_bytes (sock m')) (rx_queue (sock m')) = map (frame_bytes (sock m)) (rx_queue (sock m))"
  using step_conserved [OF assms(1,2)] step_delivered [OF assms(1-3)] assms(4-6)
  by (simp add: frame_bytes_def)

lemma kern_run_packets:
  assumes "kern_run m ps m'" and "conserved m" and "delivered (sock m)"
  shows "conserved m' \<and> delivered (sock m') \<and>
    map (frame_bytes (sock m')) (rx_queue (sock m')) = map (frame_bytes (sock m)) (rx_queue (sock m)) @ ps"
  using assms
proof (induction rule: kern_run.induct)
  case (run_take_fill m ps m' a q)
  then show ?case using quiet_step [OF kern_take_fill [OF run_take_fill.hyps(2)]] by simp
next
  case (run_receive m ps m' a d bs u)
  then show ?case using receive_packet [OF _ _ run_receive.hyps(2-7) refl] by simp
next
  case (run_take_tx m ps m' d q)
  then show ?case using quiet_step [OF kern_take_tx [OF run_take_tx.hyps(2)]] by simp
next
  case (run_complete m ps m' a)
  then show ?case using quiet_step [OF kern_complete [OF run_complete.hyps(2,3)]] by simp
qed simp

section \<open>Schedules\<close>

text \<open>
  What the kernel does during a wait in which \<open>poll\<close> is interrupted any number of times before it
  returns: it may work before every answer.
\<close>

inductive waiting :: "machine \<Rightarrow> poll_answers \<Rightarrow> u8 list list \<Rightarrow> machine \<Rightarrow> bool" where
  wait_return: "kern_run m ps m' \<Longrightarrow> kern (sock m) = sock m' \<Longrightarrow> waiting m [(None, kern)] ps m'"
| wait_again: "kern_run m ps m1 \<Longrightarrow> kern (sock m) = sock m1 \<Longrightarrow> waiting m1 poll qs m2 \<Longrightarrow>
    waiting m ((Some EINTR, kern) # poll) (ps @ qs) m2"

lemma waiting_packets:
  assumes "waiting m poll ps m'" and "conserved m" and "delivered (sock m)"
  shows "poll_loop poll (sock m) = Some (None, sock m') \<and> conserved m' \<and> delivered (sock m') \<and>
    map (frame_bytes (sock m')) (rx_queue (sock m')) = map (frame_bytes (sock m)) (rx_queue (sock m)) @ ps"
  using assms
proof (induction rule: waiting.induct)
  case (wait_return m ps m' kern)
  then show ?case using kern_run_packets [OF wait_return.hyps(1)] by simp
next
  case (wait_again m ps m1 kern poll qs m2)
  from kern_run_packets [OF wait_again.hyps(1) wait_again.prems] wait_again.IH wait_again.hyps(2)
  show ?case by simp
qed

text \<open>
  A run of the loop with the kernel: each iteration refills, then the kernel works while the program
  waits, then the program takes what there is. The list collects the packets received by the kernel.
\<close>

definition next_sock :: "socket \<Rightarrow> poll_answers \<Rightarrow> socket" where
  "next_sock xsk poll = (case dump_iter xsk poll of Some (Inr (Inr (frames, xsk))) \<Rightarrow> xsk | _ \<Rightarrow> xsk)"

inductive schedule :: "machine \<Rightarrow> poll_answers list \<Rightarrow> u8 list list \<Rightarrow> machine \<Rightarrow> bool" where
  sched_end: "schedule m [] [] m"
| sched_wait: "refill (sock m) = Inr x \<Longrightarrow> waiting (m\<lparr>sock := x\<rparr>) poll ps m1 \<Longrightarrow>
    schedule (m1\<lparr>sock := next_sock (sock m) poll\<rparr>) polls qs m2 \<Longrightarrow>
    schedule m (poll # polls) (ps @ qs) m2"

lemma refill_stage:
  assumes "conserved m" and "delivered (sock m)" and "refill (sock m) = Inr x"
  shows "conserved (m\<lparr>sock := x\<rparr>) \<and> delivered x \<and> rx_queue x = rx_queue (sock m) \<and> 0 < numFilled x"
proof -
  from refill_ok [OF assms(1)] assms(3) have st: "step\<^sup>*\<^sup>* m (m\<lparr>sock := x\<rparr>)" and "0 < numFilled x" by auto
  moreover have "rxRing x = rxRing (sock m) \<and> options x = options (sock m)"
    using assms(3) by (auto simp: refill_def rbind_eq_Inr split: if_splits dest: Fill_keeps)
  ultimately show ?thesis using steps_delivered [OF st assms(1,2)] by simp
qed

lemma iteration:
  assumes "conserved m" and "delivered (sock m)" and "rx_queue (sock m) = []"
    and "refill (sock m) = Inr x" and "waiting (m\<lparr>sock := x\<rparr>) poll ps m1"
  shows "\<exists>w. dump_iter (sock m) poll = Some (Inr (Inr (ps, w))) \<and> rx_queue w = [] \<and>
    conserved (m1\<lparr>sock := w\<rparr>) \<and> delivered w"
proof -
  note r = refill_stage [OF assms(1,2,4)]
  from waiting_packets [OF assms(5)] r assms(3) have
    k: "poll_loop poll x = Some (None, sock m1)" "conserved m1" "delivered (sock m1)"
      "map (frame_bytes (sock m1)) (rx_queue (sock m1)) = ps" by simp_all
  from dump_iter_ok [OF assms(4) _ k(1-3)] r show ?thesis by (simp add: k(4))
qed

lemma schedule_delivers:
  assumes "schedule m polls ps m'"
    and "conserved m" and "delivered (sock m)" and "rx_queue (sock m) = []"
  shows "dump_loop (sock m) (polls @ rest) = (let (fs, r, x) = dump_loop (sock m') rest in (ps @ fs, r, x)) \<and>
    conserved m' \<and> delivered (sock m') \<and> rx_queue (sock m') = []"
  using assms
proof (induction rule: schedule.induct)
  case (sched_wait m x poll ps m1 polls qs m2)
  from iteration [OF sched_wait.prems sched_wait.hyps(1,2)] obtain w where
    w: "dump_iter (sock m) poll = Some (Inr (Inr (ps, w)))"
      "rx_queue w = []" "conserved (m1\<lparr>sock := w\<rparr>)" "delivered w" by blast
  then have "next_sock (sock m) poll = w" by (simp add: next_sock_def)
  with w sched_wait.IH show ?case by (simp split: prod.splits)
qed simp

lemma schedule_runs:
  assumes "schedule m polls ps m'"
    and "conserved m" and "delivered (sock m)" and "rx_queue (sock m) = []"
  shows "dump_loop (sock m) polls = (ps, Still_Running, sock m')"
  using schedule_delivers [OF assms, of "[]"] by simp

text \<open>A wait that fails, after any number of interruptions, ends the loop.\<close>

lemma failing_wait:
  assumes "refill xsk = Inr x" and "0 < numFilled x" and "e \<noteq> EINTR"
  shows "dump_iter xsk (map (Pair (Some EINTR)) ks @ [(Some e, kern)]) = Some (Inr (Inl e))"
proof -
  have "\<exists>y. poll_loop (map (Pair (Some EINTR)) ks @ [(Some e, kern)]) x = Some (Some e, y)" for x
    using assms(3) by (induction ks arbitrary: x) auto
  then obtain y where "poll_loop (map (Pair (Some EINTR)) ks @ [(Some e, kern)]) x = Some (Some e, y)" by blast
  then show ?thesis using assms(1,2) by (simp add: dump_iter_def Poll_def poll_events_def)
qed

section \<open>Properties\<close>

text \<open>
  C3: the receive loop end to end. Start from a state in which the frames are conserved and the Rx
  ring is empty, as \<open>NewSocket\<close> leaves it, and let the loop run for any number of iterations while the
  kernel receives any packets into frames that it has taken from the Fill ring, and the waits are
  interrupted any number of times: the loop does not panic, it hands out all packets received, each
  exactly once, in the order of their arrival and with the bytes that were received, and it can always
  go on: the next refill succeeds and leaves the kernel with at least one frame to receive into. When
  the next wait fails, the loop ends with that error after handing out all these packets.
\<close>

theorem dump_loop_delivers:
  assumes "schedule m polls ps m'"
    and "conserved m" and "delivered (sock m)" and "rx_queue (sock m) = []"
  shows "dump_loop (sock m) polls = (ps, Still_Running, sock m') \<and>
    (\<exists>x. refill (sock m') = Inr x \<and> 0 < length (fill_queue x @ rx_held m')) \<and>
    (\<forall>e ks kern. e \<noteq> EINTR \<longrightarrow>
      dump_loop (sock m) (polls @ [map (Pair (Some EINTR)) ks @ [(Some e, kern)]]) = (ps, Loop_Error e, sock m'))"
proof -
  note s = schedule_delivers [OF assms]
  from refill_ok [of m'] s obtain x where x: "refill (sock m') = Inr x" by blast
  from refill_stage [OF _ _ this] s have c: "conserved (m'\<lparr>sock := x\<rparr>)" "rx_queue x = []" "0 < numFilled x"
    by simp_all
  then have "numFilled x = int (length (fill_queue x @ rx_held m'))"
    by (simp add: conserved_def rx_owned_def Let_def)
  with c(3) have "0 < length (fill_queue x @ rx_held m')" by (simp only: of_nat_0_less_iff)
  moreover have "dump_loop (sock m) (polls @ [map (Pair (Some EINTR)) ks @ [(Some e, kern)]]) =
      (ps, Loop_Error e, sock m')" if "e \<noteq> EINTR" for e ks kern
    using s failing_wait [OF x c(3) that] by simp
  ultimately show ?thesis using schedule_runs [OF assms] x by blast
qed

text \<open>A new socket that receives one packet of one byte.\<close>

definition fresh :: machine where
  "fresh = \<lparr>sock = new_socket 7 2 demo_opts, rx_held = [], tx_held = []\<rparr>"

lemma fresh_ok: "conserved fresh" "delivered (sock fresh)" "rx_queue (sock fresh) = []"
proof -
  have o: "ring_opts demo_opts" "FillRingNumDescs demo_opts \<le> NumFrames demo_opts"
    by (simp_all add: ring_opts_def demo_opts_def)
  from new_socket_conserved [OF demo_opts_ok o] show "conserved fresh" "delivered (sock fresh)"
    by (simp_all add: fresh_def)
  show "rx_queue (sock fresh) = []"
    using o(1) by (simp add: fresh_def new_socket_def ring_opts_def mapped_ring_view)
qed

lemma one_packet_schedule:
  assumes "conserved m" and "delivered (sock m)" and "rx_queue (sock m) = []" and "rx_held m = []"
  shows "\<exists>kern m'. schedule m [[(None, kern)]] [[42]] m'"
proof -
  from refill_ok [OF assms(1)] obtain x where x: "refill (sock m) = Inr x" by blast
  note r = refill_stage [OF assms(1,2) x]
  then have "numFilled x = int (length (fill_queue x))"
    using assms(3,4) by (simp add: conserved_def rx_owned_def Let_def)
  with r obtain a q where a: "fill_queue x = a # q" by (cases "fill_queue x") auto
  let ?m1 = "m\<lparr>sock := x\<lparr>fillRing := kern_get (fillRing x)\<rparr>, rx_held := [a]\<rparr>"
  from run_take_fill [OF run_idle, of "m\<lparr>sock := x\<rparr>" a q] a assms(4)
  have k: "kern_run (m\<lparr>sock := x\<rparr>) [] ?m1" by simp
  obtain u where u: "umem x = Some u" using r by (auto simp: delivered_def)
  have ok: "opts_ok (options x)" "0 < rx_size x"
    using r ring_size_bounds [of "rx_size x"] by (auto simp: conserved_def sock_ok_def ring_ok_def)
  then have "unat a < (frame_of (options x) a + 1) * nat (FrameSize (options x))"
    by (simp add: frame_of_def opts_ok_def dividend_less_times_div mult.commute)
  then have le: "unat a + 1 \<le> (frame_of (options x) a + 1) * nat (FrameSize (options x))" by simp
  have "kern_run (m\<lparr>sock := x\<rparr>) ([] @ [[42]])
      (?m1\<lparr>sock := (sock ?m1)\<lparr>umem := Some (write_at (unat a) [42] u),
             rxRing := kern_put (RxRingNumDescs (options (sock ?m1))) \<lparr>Addr = a, Len = 1, Opts = 0\<rparr> (rxRing (sock ?m1))\<rparr>,
          rx_held := remove1 a (rx_held ?m1)\<rparr>)" (is "kern_run _ _ ?m2")
    using run_receive [OF k, of a "\<lparr>Addr = a, Len = 1, Opts = 0\<rparr>" "[42]" u] le u ok(2) r assms(3) by simp
  then have "kern_run (m\<lparr>sock := x\<rparr>) [[42]] ?m2" by simp
  then have "waiting (m\<lparr>sock := x\<rparr>) [(None, \<lambda>_. sock ?m2)] [[42]] ?m2" by (rule wait_return) simp
  from sched_wait [OF x this sched_end] show ?thesis by auto
qed

theorem dump_loop_delivers_witness:
  "\<exists>polls x. dump_loop (sock fresh) polls = ([[42]], Still_Running, x)"
proof -
  have "rx_held fresh = []" by (simp add: fresh_def)
  from one_packet_schedule [OF fresh_ok this] obtain kern m' where "schedule fresh [[(None, kern)]] [[42]] m'" by blast
  from dump_loop_delivers [OF this fresh_ok] show ?thesis by blast
qed

end
