(* ===== verification/Xsk_Slices.thy ===== *)
theory Xsk_Slices
  imports Dump_Loop
begin

text \<open>
  The slices that \<open>GetDescs\<close> and \<open>Receive\<close> of \<^verbatim>\<open>dumpframes/xdp.go\<close> return are not fresh: they are
  built by \<open>append\<close> in the three buffers \<open>rxDescs\<close>, \<open>getTXDescs\<close> and \<open>getRXDescs\<close> of the
  socket. Here the two operations run on a store of arrays. They are shown to return the same
  descriptors as the operations of \<open>Xsk_Socket\<close>, which return values, and a slice that is kept over
  a further call is shown to change under its holder. The receive loop does not keep any.
\<close>

section \<open>Slices and their arrays\<close>

text \<open>All slices here start at the beginning of their array, whose length is their capacity.\<close>

record slice =
  arr :: nat
  slen :: nat

record desc_store =
  arrays :: "nat \<Rightarrow> Desc list"
  brk :: nat

definition read_slice :: "desc_store \<Rightarrow> slice \<Rightarrow> Desc list" where
  "read_slice h s = take (slen s) (arrays h (arr s))"

text \<open>
  \<open>append(s, d)\<close>: in place while there is room, otherwise into a new array, whose additional room
  for a given capacity, \<open>grow\<close>, is up to the run-time system.
\<close>

definition go_append :: "(nat \<Rightarrow> nat) \<Rightarrow> desc_store \<Rightarrow> slice \<Rightarrow> Desc \<Rightarrow> slice \<times> desc_store" where
  "go_append grow h s d =
     (let xs = arrays h (arr s) in
      if slen s < length xs then
        (s\<lparr>slen := slen s + 1\<rparr>, h\<lparr>arrays := (arrays h)(arr s := xs[slen s := d])\<rparr>)
      else
        (\<lparr>arr = brk h, slen = slen s + 1\<rparr>,
         h\<lparr>arrays := (arrays h)(brk h := xs @ d # replicate (grow (length xs)) zero_desc), brk := brk h + 1\<rparr>))"

text \<open>The arrays behind the three buffers of a socket.\<close>

record buffers =
  buf_rx :: nat
  buf_getTX :: nat
  buf_getRX :: nat

definition empty_slice :: "nat \<Rightarrow> slice" where
  "empty_slice a = \<lparr>arr = a, slen = 0\<rparr>"

section \<open>The operations on the store\<close>

text \<open>The loop of \<open>Receive\<close> reads back \<open>descs[i]\<close> after it has appended it.\<close>

fun recv_loop_store ::
  "(nat \<Rightarrow> nat) \<Rightarrow> socket_options \<Rightarrow> Desc list \<Rightarrow> nat \<Rightarrow> nat \<Rightarrow> u32 \<Rightarrow> slice \<Rightarrow> desc_store \<Rightarrow> bool list \<Rightarrow>
   go_panic + (u32 \<times> slice \<times> desc_store \<times> bool list)" where
  "recv_loop_store grow opts ring 0 i cons descs h free = Inr (cons, descs, h, free)"
| "recv_loop_store grow opts ring (Suc n) i cons descs h free =
     rbind (go_index ring (ring_slot (RxRingNumDescs opts) cons)) (\<lambda>d.
       let (descs, h) = go_append grow h descs d in
       rbind (go_index (read_slice h descs) i) (\<lambda>di.
       rbind (mark_frame opts (Addr di) True free) (\<lambda>free.
         recv_loop_store grow opts ring n (i + 1) (cons + 1) descs h free)))"

definition Receive_store ::
  "(nat \<Rightarrow> nat) \<Rightarrow> buffers \<Rightarrow> socket \<Rightarrow> desc_store \<Rightarrow> int \<Rightarrow> go_panic + (slice \<times> desc_store \<times> socket)" where
  "Receive_store grow b xsk h num =
     rbind (NumReceived xsk) (\<lambda>numAvailable.
       let num = (if numAvailable < num then numAvailable else num) in
       rbind (deref (Consumer (rxRing xsk))) (\<lambda>cons.
       rbind (recv_loop_store grow (options xsk) (Descs (rxRing xsk)) (nat num) 0 cons
               (empty_slice (buf_rx b)) h (freeRXDescs xsk))
         (\<lambda>(cons, descs, h, free).
           Inr (descs, h,
             xsk\<lparr>rxRing := (rxRing xsk)\<lparr>Consumer := Some cons\<rparr>, freeRXDescs := free,
                 numFilled := numFilled xsk - int (slen descs)\<rparr>))))"

function get_loop_store ::
  "(nat \<Rightarrow> nat) \<Rightarrow> socket_options \<Rightarrow> bool list \<Rightarrow> nat \<Rightarrow> nat \<Rightarrow> int \<Rightarrow> int \<Rightarrow> slice \<Rightarrow> desc_store \<Rightarrow>
   go_panic + (slice \<times> desc_store)" where
  "get_loop_store grow opts freeList i end j n descs h =
     (if i < end \<and> j < n then
        rbind (go_index freeList i) (\<lambda>f.
          if f then
            (let (descs, h) = go_append grow h descs
                \<lparr>Addr = of_nat i * to_u64 (FrameSize opts), Len = to_u32 (FrameSize opts), Opts = 0\<rparr> in
             get_loop_store grow opts freeList (Suc i) end (j + 1) n descs h)
          else get_loop_store grow opts freeList (Suc i) end j n descs h)
      else Inr (descs, h))"
  by pat_completeness auto
termination
  by (relation "measure (\<lambda>(grow, opts, fl, i, end, j, n, ds, h). end - i)") auto

declare get_loop_store.simps [simp del]

definition GetDescs_store ::
  "(nat \<Rightarrow> nat) \<Rightarrow> buffers \<Rightarrow> socket \<Rightarrow> desc_store \<Rightarrow> int \<Rightarrow> bool \<Rightarrow> go_panic + (slice \<times> desc_store)" where
  "GetDescs_store grow b xsk h n rx =
     (let n = (if int (cap_getRXDescs xsk) < n then int (cap_getRXDescs xsk) else n);
          n = (if \<not> rx then (if int (cap_getTXDescs xsk) < n then int (cap_getTXDescs xsk) else n) else n) in
      if rx then get_loop_store grow (options xsk) (freeRXDescs xsk) 0 (cap_getRXDescs xsk) 0 n
                   (empty_slice (buf_getRX b)) h
      else get_loop_store grow (options xsk) (freeTXDescs xsk) (cap_getRXDescs xsk) (length (freeTXDescs xsk)) 0 n
             (empty_slice (buf_getTX b)) h)"

section \<open>Buffers that are large enough\<close>

text \<open>The effect of appending \<open>ds\<close> to an empty slice of the array \<open>a\<close>.\<close>

definition write_buf :: "nat \<Rightarrow> Desc list \<Rightarrow> desc_store \<Rightarrow> desc_store" where
  "write_buf a ds h = h\<lparr>arrays := (arrays h)(a := ds @ drop (length ds) (arrays h a))\<rparr>"

lemma write_buf_Nil [simp]: "write_buf a [] h = h"
  by (simp add: write_buf_def)

lemma read_write_buf: "read_slice (write_buf a ds h) \<lparr>arr = a, slen = length ds\<rparr> = ds"
  by (simp add: read_slice_def write_buf_def)

lemma length_write_buf:
  "length ds \<le> length (arrays h a) \<Longrightarrow> length (arrays (write_buf a ds h) c) = length (arrays h c)"
  by (simp add: write_buf_def)

lemma go_append_room:
  assumes "length ds < length (arrays h a)"
  shows "go_append grow (write_buf a ds h) \<lparr>arr = a, slen = length ds\<rparr> d =
    (\<lparr>arr = a, slen = length (ds @ [d])\<rparr>, write_buf a (ds @ [d]) h)"
proof -
  have "(ds @ drop (length ds) (arrays h a))[length ds := d] = ds @ d # drop (Suc (length ds)) (arrays h a)"
    using assms by (simp add: list_update_append flip: Cons_nth_drop_Suc)
  with assms show ?thesis by (simp add: go_append_def write_buf_def Let_def)
qed

lemma recv_loop_store_eq:
  assumes "length got + n \<le> length (arrays h a)"
  shows "recv_loop_store grow opts ring n (length got) cons \<lparr>arr = a, slen = length got\<rparr> (write_buf a got h) free =
    rbind (recv_loop opts ring n cons got free)
      (\<lambda>(cons, ds, free). Inr (cons, \<lparr>arr = a, slen = length ds\<rparr>, write_buf a ds h, free))"
  using assms
proof (induction n arbitrary: got cons free)
  case (Suc n)
  have room: "length got < length (arrays h a)" using Suc.prems by simp
  have "go_index (read_slice (write_buf a (got @ [d]) h) \<lparr>arr = a, slen = length (got @ [d])\<rparr>) (length got) = Inr d" for d
    unfolding read_write_buf by (simp add: go_index_def)
  with Suc.IH [of "got @ [d]" for d] Suc.prems show ?case
    by (simp add: go_append_room [OF room] rbind_assoc cong: rbind_cong)
qed simp

lemma get_loop_store_eq:
  "int (length ds) = j \<Longrightarrow> n \<le> int (length (arrays h a)) \<Longrightarrow>
   get_loop_store grow opts free i end j n \<lparr>arr = a, slen = length ds\<rparr> (write_buf a ds h) =
    rbind (get_loop opts free i end j n ds) (\<lambda>ds. Inr (\<lparr>arr = a, slen = length ds\<rparr>, write_buf a ds h))"
proof (induction opts free i "end" j n ds rule: get_loop.induct)
  case (1 opts free i "end" j n ds)
  show ?case
  proof (cases "i < end \<and> j < n")
    case True
    then have "length ds < length (arrays h a)" using "1.prems" by simp
    note step = go_append_room [OF this]
    show ?thesis
    proof (cases "go_index free i")
      case (Inr f)
      with True "1.IH"(1) [OF True Inr] "1.IH"(2) [OF True Inr] "1.prems" show ?thesis
        by (subst get_loop.simps, subst get_loop_store.simps) (cases f; simp add: step [simplified])
    qed (use True in \<open>subst get_loop.simps, subst get_loop_store.simps, simp\<close>)
  next
    case False
    then show ?thesis by (subst get_loop.simps, subst get_loop_store.simps) auto
  qed
qed

text \<open>The arrays are as large as \<open>NewSocket\<close> makes them, and they are different.\<close>

definition buffers_ok :: "buffers \<Rightarrow> desc_store \<Rightarrow> socket \<Rightarrow> bool" where
  "buffers_ok b h x \<longleftrightarrow> distinct [buf_rx b, buf_getTX b, buf_getRX b] \<and>
     length (arrays h (buf_rx b)) = cap_rxDescs x \<and> length (arrays h (buf_getTX b)) = cap_getTXDescs x \<and>
     length (arrays h (buf_getRX b)) = cap_getRXDescs x \<and>
     0 \<le> RxRingNumDescs (options x) \<and> RxRingNumDescs (options x) < 2 ^ 32 \<and>
     cap_rxDescs x = nat (RxRingNumDescs (options x))"

lemma new_socket_buffers:
  assumes "ring_opts opts" and "distinct [buf_rx b, buf_getTX b, buf_getRX b]"
    and "length (arrays h (buf_rx b)) = nat (RxRingNumDescs opts)"
    and "length (arrays h (buf_getTX b)) = nat (CompletionRingNumDescs opts)"
    and "length (arrays h (buf_getRX b)) = nat (FillRingNumDescs opts)"
  shows "buffers_ok b h (new_socket f ifx opts)"
  using assms ring_size_bounds [of "nat (RxRingNumDescs opts)"]
  by (simp add: buffers_ok_def new_socket_def ring_opts_def)

lemma NumReceived_le:
  assumes "NumReceived x = Inr n" and "buffers_ok b h x"
  shows "nat n \<le> length (arrays h (buf_rx b))"
proof -
  have "uint (to_u32 (RxRingNumDescs (options x))) = RxRingNumDescs (options x)"
    using assms(2) by (intro uint_to_u32) (simp_all add: buffers_ok_def)
  moreover have "n \<le> uint (to_u32 (RxRingNumDescs (options x)))"
    using assms(1) by (auto simp: NumReceived_def ring_used_def rbind_eq_Inr Let_def word_less_def split: if_splits)
  ultimately show ?thesis using assms(2) by (simp add: buffers_ok_def)
qed

lemma Receive_store_eq:
  assumes "buffers_ok b h x"
  shows "Receive_store grow b x h num =
    rbind (Receive x num) (\<lambda>(ds, x'). Inr (\<lparr>arr = buf_rx b, slen = length ds\<rparr>, write_buf (buf_rx b) ds h, x'))"
proof (cases "NumReceived x")
  case (Inr n)
  have "nat (if n < num then n else num) \<le> length (arrays h (buf_rx b))"
    using NumReceived_le [OF Inr assms] by (cases "n < num") auto
  with recv_loop_store_eq [of "[]" _ h "buf_rx b"] Inr show ?thesis
    by (cases "Consumer (rxRing x)")
      (simp_all add: Receive_store_def Receive_def empty_slice_def rbind_assoc case_prod_unfold Let_def)
qed (simp add: Receive_store_def Receive_def)

lemma GetDescs_store_eq:
  assumes "buffers_ok b h x"
  shows "GetDescs_store grow b x h n rx = rbind (GetDescs x n rx) (\<lambda>ds.
    let a = (if rx then buf_getRX b else buf_getTX b) in
    Inr (\<lparr>arr = a, slen = length ds\<rparr>, write_buf a ds h))"
  using assms get_loop_store_eq [where ds = "[]" and a = "buf_getRX b"]
    get_loop_store_eq [where ds = "[]" and a = "buf_getTX b"]
  by (simp add: GetDescs_store_def GetDescs_def empty_slice_def buffers_ok_def Let_def)

section \<open>Operations that return a slice of a buffer\<close>

text \<open>
  The contract of such an operation: when the array is large enough, the operation has the result of
  one that returns a value, and that value is left at the front of the array, the rest untouched.
\<close>

locale slice_writer =
  fixes run :: "'a \<Rightarrow> desc_store \<Rightarrow> 's \<Rightarrow> go_panic + (slice \<times> desc_store \<times> 's)"
    and result :: "'a \<Rightarrow> 's \<Rightarrow> go_panic + (Desc list \<times> 's)"
    and ok :: "desc_store \<Rightarrow> 's \<Rightarrow> bool" and buf :: nat
  assumes run_law: "ok h x \<Longrightarrow> run a h x =
      rbind (result a x) (\<lambda>(ds, x'). Inr (\<lparr>arr = buf, slen = length ds\<rparr>, write_buf buf ds h, x'))"
    and ok_law: "ok h x \<Longrightarrow> result a x = Inr (ds, x') \<Longrightarrow>
      length ds \<le> length (arrays h buf) \<and> ok (write_buf buf ds h) x'"
begin

lemma run_result:
  assumes "ok h x" and "result a x = Inr (ds, x')"
  shows "\<exists>s h'. run a h x = Inr (s, h', x') \<and> read_slice h' s = ds \<and> ok h' x' \<and> arr s = buf \<and>
    (\<forall>t. arr t \<noteq> buf \<longrightarrow> read_slice h' t = read_slice h t)"
  using run_law [OF assms(1)] ok_law [OF assms] assms(2) read_write_buf [of buf ds h]
  by (auto simp: write_buf_def read_slice_def)

text \<open>What a slice reads after the next call of the same operation.\<close>

lemma kept_slice:
  assumes "ok h x" and "result a x = Inr (ds, x1)" and "result a' x1 = Inr (ds', x2)"
  shows "\<exists>s h1 s' h2. run a h x = Inr (s, h1, x1) \<and> run a' h1 x1 = Inr (s', h2, x2) \<and>
    read_slice h1 s = ds \<and> read_slice h2 s' = ds' \<and>
    read_slice h2 s = take (length ds) (ds' @ drop (length ds') ds) \<and>
    (\<forall>t. arr t \<noteq> buf \<longrightarrow> read_slice h1 t = read_slice h t \<and> read_slice h2 t = read_slice h t)"
proof -
  let ?h1 = "write_buf buf ds h" and ?h2 = "write_buf buf ds' (write_buf buf ds h)"
  let ?s = "\<lparr>arr = buf, slen = length ds\<rparr>" and ?s' = "\<lparr>arr = buf, slen = length ds'\<rparr>"
  have k: "length ds \<le> length (arrays h buf)" "ok ?h1 x1" using ok_law [OF assms(1,2)] by simp_all
  have "read_slice ?h2 ?s = take (length ds) (ds' @ drop (length ds') ds)"
    by (simp add: read_slice_def write_buf_def)
  moreover have "run a h x = Inr (?s, ?h1, x1)" "run a' ?h1 x1 = Inr (?s', ?h2, x2)"
    using run_law [OF assms(1), of a] run_law [OF k(2), of a'] assms(2,3) by simp_all
  moreover have "read_slice ?h1 t = read_slice h t \<and> read_slice ?h2 t = read_slice h t" if "arr t \<noteq> buf" for t
    using that by (simp add: read_slice_def write_buf_def)
  ultimately show ?thesis using read_write_buf by blast
qed

end

lemma buffers_ok_write:
  assumes "buffers_ok b h x" and "length ds \<le> length (arrays h a)"
    and "cap_rxDescs x' = cap_rxDescs x" "cap_getTXDescs x' = cap_getTXDescs x"
      "cap_getRXDescs x' = cap_getRXDescs x" "options x' = options x"
  shows "buffers_ok b (write_buf a ds h) x'"
  using assms by (simp add: buffers_ok_def length_write_buf)

lemma recv_loop_length:
  "recv_loop opts ring n cons got free = Inr (cons', ds, free') \<Longrightarrow> length ds = length got + n"
  by (induction n arbitrary: cons got free) (fastforce simp: rbind_eq_Inr)+

lemma get_loop_length:
  "get_loop opts free i end j n ds = Inr ds' \<Longrightarrow> int (length ds) \<le> j \<Longrightarrow> j \<le> n \<Longrightarrow> int (length ds') \<le> n"
proof (induction opts free i "end" j n ds rule: get_loop.induct)
  case (1 opts free i "end" j n ds)
  show ?case
  proof (cases "i < end \<and> j < n")
    case True
    with "1.prems"(1) obtain f where f: "go_index free i = Inr f"
      by (subst (asm) get_loop.simps) (auto simp: rbind_eq_Inr)
    from True f "1.IH"(1) [OF True f] "1.IH"(2) [OF True f] "1.prems"(2,3)
      "1.prems"(1) [unfolded get_loop.simps [of opts free i "end" j n ds]]
    show ?thesis by (simp split: if_splits)
  next
    case False
    with "1.prems" show ?thesis by (subst (asm) get_loop.simps) auto
  qed
qed

interpretation receive_slice: slice_writer "\<lambda>num h x. Receive_store grow b x h num" "\<lambda>num x. Receive x num"
  "buffers_ok b" "buf_rx b"
proof
  fix h x num
  assume ok: "buffers_ok b h x"
  then show "Receive_store grow b x h num = rbind (Receive x num)
      (\<lambda>(ds, x'). Inr (\<lparr>arr = buf_rx b, slen = length ds\<rparr>, write_buf (buf_rx b) ds h, x'))"
    by (rule Receive_store_eq)
  fix ds x'
  assume r: "Receive x num = Inr (ds, x')"
  then obtain n where n: "NumReceived x = Inr n" and len: "length ds = nat (if n < num then n else num)"
    by (auto simp: Receive_def rbind_eq_Inr Let_def dest!: recv_loop_length)
  with NumReceived_le [OF n ok] have le: "length ds \<le> length (arrays h (buf_rx b))" by (cases "n < num") auto
  moreover have "buffers_ok b (write_buf (buf_rx b) ds h) x'"
    using r by (intro buffers_ok_write [OF ok le]) (auto simp: Receive_def rbind_eq_Inr Let_def)
  ultimately show "length ds \<le> length (arrays h (buf_rx b)) \<and> buffers_ok b (write_buf (buf_rx b) ds h) x'" ..
qed


lemma GetDescs_length:
  assumes "GetDescs x n rx = Inr ds"
  shows "length ds \<le> cap_getRXDescs x" and "\<not> rx \<Longrightarrow> length ds \<le> cap_getTXDescs x"
proof -
  define n1 where "n1 = (if int (cap_getRXDescs x) < n then int (cap_getRXDescs x) else n)"
  define n2 where "n2 = (if \<not> rx then (if int (cap_getTXDescs x) < n1 then int (cap_getTXDescs x) else n1) else n1)"
  from assms obtain free i e where g: "get_loop (options x) free i e 0 n2 [] = Inr ds"
    by (auto simp: GetDescs_def n1_def n2_def Let_def split: if_splits)
  have "int (length ds) \<le> max 0 n2"
  proof (cases "0 \<le> n2")
    case True
    with get_loop_length [OF g] show ?thesis by simp
  next
    case False
    with g show ?thesis by (subst (asm) get_loop.simps) simp
  qed
  then show "length ds \<le> cap_getRXDescs x" and "\<not> rx \<Longrightarrow> length ds \<le> cap_getTXDescs x"
    by (auto simp: n1_def n2_def split: if_splits)
qed


section \<open>The receive loop on the store\<close>

text \<open>
  The loop of \<open>main\<close> with its slices: \<open>Fill\<close> reads the slice of \<open>GetDescs\<close> at once, and the loop over
  the received frames reads \<open>rxDescs\<close> before anything else is appended.
\<close>

definition refill_store ::
  "(nat \<Rightarrow> nat) \<Rightarrow> buffers \<Rightarrow> socket \<Rightarrow> desc_store \<Rightarrow> go_panic + (desc_store \<times> socket)" where
  "refill_store grow b xsk h =
     rbind (NumFreeFillSlots xsk) (\<lambda>n.
       if 0 < n then
         rbind (GetDescs_store grow b xsk h n True) (\<lambda>(descs, h).
         rbind (Fill xsk (read_slice h descs)) (\<lambda>(_, xsk). Inr (h, xsk)))
       else Inr (h, xsk))"

fun frames_store :: "socket \<Rightarrow> desc_store \<Rightarrow> slice \<Rightarrow> nat list \<Rightarrow> go_panic + u8 list list" where
  "frames_store xsk h s [] = Inr []"
| "frames_store xsk h s (i # is') =
     rbind (go_index (read_slice h s) i) (\<lambda>d.
     rbind (GetFrame xsk d) (\<lambda>f. rbind (frames_store xsk h s is') (\<lambda>fs. Inr (f # fs))))"

definition dump_iter_store ::
  "(nat \<Rightarrow> nat) \<Rightarrow> buffers \<Rightarrow> socket \<Rightarrow> desc_store \<Rightarrow> poll_answers \<Rightarrow>
   (go_panic + (errno + (u8 list list \<times> desc_store \<times> socket))) option" where
  "dump_iter_store grow b xsk h poll =
     (case refill_store grow b xsk h of
        Inl e \<Rightarrow> Some (Inl e)
      | Inr (h, xsk) \<Rightarrow>
          (case Poll xsk poll of
             None \<Rightarrow> None
           | Some (Inl e) \<Rightarrow> Some (Inl e)
           | Some (Inr (numRx, numCompleted, Some err, xsk)) \<Rightarrow> Some (Inr (Inl err))
           | Some (Inr (numRx, numCompleted, None, xsk)) \<Rightarrow> Some (
               if 0 < numRx then
                 rbind (Receive_store grow b xsk h numRx) (\<lambda>(rxDescs, h, xsk).
                 rbind (frames_store xsk h rxDescs [0..<slen rxDescs]) (\<lambda>frames. Inr (Inr (frames, h, xsk))))
               else Inr (Inr ([], h, xsk)))))"

fun dump_loop_store ::
  "(nat \<Rightarrow> nat) \<Rightarrow> buffers \<Rightarrow> socket \<Rightarrow> desc_store \<Rightarrow> poll_answers list \<Rightarrow> u8 list list \<times> loop_end \<times> socket" where
  "dump_loop_store grow b xsk h [] = ([], Still_Running, xsk)"
| "dump_loop_store grow b xsk h (poll # polls) =
     (case dump_iter_store grow b xsk h poll of
        None \<Rightarrow> ([], Still_Running, xsk)
      | Some (Inl e) \<Rightarrow> ([], Loop_Panic e, xsk)
      | Some (Inr (Inl err)) \<Rightarrow> ([], Loop_Error err, xsk)
      | Some (Inr (Inr (frames, h, xsk))) \<Rightarrow>
          (let (fs, r, xsk) = dump_loop_store grow b xsk h polls in (frames @ fs, r, xsk)))"

lemma frames_store_eq:
  "frames_store x h s [k..<length (read_slice h s)] = get_frames x (drop k (read_slice h s))"
proof (induction "length (read_slice h s) - k" arbitrary: k)
  case (Suc n)
  then have k: "k < length (read_slice h s)" by simp
  have "frames_store x h s [Suc k..<length (read_slice h s)] = get_frames x (drop (Suc k) (read_slice h s))"
    using Suc.hyps(2) by (intro Suc.hyps(1)) simp
  with k show ?case by (simp add: upt_conv_Cons flip: Cons_nth_drop_Suc)
qed simp

text \<open>What the kernel cannot change: the size of the rings and of the buffers.\<close>

definition keeps_sizes :: "(socket \<Rightarrow> socket) \<Rightarrow> bool" where
  "keeps_sizes kern \<longleftrightarrow> (\<forall>x. options (kern x) = options x \<and> cap_rxDescs (kern x) = cap_rxDescs x \<and>
     cap_getTXDescs (kern x) = cap_getTXDescs x \<and> cap_getRXDescs (kern x) = cap_getRXDescs x)"

lemma buffers_ok_cong:
  "options x' = options x \<Longrightarrow> cap_rxDescs x' = cap_rxDescs x \<Longrightarrow> cap_getTXDescs x' = cap_getTXDescs x \<Longrightarrow>
   cap_getRXDescs x' = cap_getRXDescs x \<Longrightarrow> buffers_ok b h x' \<longleftrightarrow> buffers_ok b h x"
  by (simp add: buffers_ok_def)

lemma poll_loop_buffers:
  "poll_loop poll x = Some (e, y) \<Longrightarrow> list_all (\<lambda>a. keeps_sizes (snd a)) poll \<Longrightarrow>
   buffers_ok b h y \<longleftrightarrow> buffers_ok b h x"
proof (induction poll x rule: poll_loop.induct)
  case (2 err kern rs x)
  have "buffers_ok b h (kern x) \<longleftrightarrow> buffers_ok b h x"
    using "2.prems"(2) by (intro buffers_ok_cong) (simp_all add: keeps_sizes_def)
  with 2 show ?case by (auto split: if_splits)
qed simp

lemma Complete_buffers: "Complete x k = Inr y \<Longrightarrow> buffers_ok b h y \<longleftrightarrow> buffers_ok b h x"
  by (rule buffers_ok_cong) (auto simp: Complete_def rbind_eq_Inr)

lemma Poll_buffers:
  assumes "Poll x poll = Some (Inr (m, n, e, y))" and "list_all (\<lambda>a. keeps_sizes (snd a)) poll"
  shows "buffers_ok b h y \<longleftrightarrow> buffers_ok b h x"
proof (cases "poll_events x = 0")
  case False
  with assms(1) obtain e' z where z: "poll_loop poll x = Some (e', z)" by (auto simp: Poll_def split: option.splits)
  have "buffers_ok b h y \<longleftrightarrow> buffers_ok b h z"
  proof (cases e')
    case None
    with False assms(1) z obtain k where "(if 0 < k then Complete z k else Inr z) = Inr y"
      by (auto simp: Poll_def rbind_eq_Inr)
    then show ?thesis by (cases "0 < k") (simp_all add: Complete_buffers)
  qed (use False assms(1) z in \<open>simp add: Poll_def\<close>)
  with poll_loop_buffers [OF z assms(2)] show ?thesis by simp
qed (use assms in \<open>simp add: Poll_def\<close>)

lemma refill_store_eq:
  assumes "buffers_ok b h x"
  shows "\<exists>h'. refill_store grow b x h = rbind (refill x) (\<lambda>x'. Inr (h', x')) \<and>
    (\<forall>x'. refill x = Inr x' \<longrightarrow> buffers_ok b h' x')"
proof (cases "\<exists>n ds. NumFreeFillSlots x = Inr n \<and> 0 < n \<and> GetDescs x n True = Inr ds")
  case True
  then obtain n ds where n: "NumFreeFillSlots x = Inr n" "0 < n" "GetDescs x n True = Inr ds" by blast
  let ?h = "write_buf (buf_getRX b) ds h"
  have "length ds \<le> length (arrays h (buf_getRX b))"
    using GetDescs_length(1) [OF n(3)] assms by (simp add: buffers_ok_def)
  from buffers_ok_write [OF assms this] have ok: "buffers_ok b ?h x'" if "Fill x ds = Inr (k, x')" for k x'
    using that by (auto simp: Fill_def rbind_eq_Inr Let_def)
  have "refill_store grow b x h = rbind (refill x) (\<lambda>x'. Inr (?h, x'))"
    using n read_write_buf [of "buf_getRX b" ds h]
    by (simp add: refill_store_def refill_def GetDescs_store_eq [OF assms] rbind_assoc case_prod_unfold Let_def)
  moreover have "buffers_ok b ?h x'" if "refill x = Inr x'" for x'
    using that n ok by (auto simp: refill_def rbind_eq_Inr)
  ultimately show ?thesis by blast
next
  case False
  have "refill_store grow b x h = rbind (refill x) (\<lambda>x'. Inr (h, x')) \<and> (\<forall>x'. refill x = Inr x' \<longrightarrow> x' = x)"
  proof (cases "\<exists>n. NumFreeFillSlots x = Inr n \<and> 0 < n")
    case True
    then obtain n where n: "NumFreeFillSlots x = Inr n" "0 < n" by blast
    with False obtain e where "GetDescs x n True = Inl e" by (cases "GetDescs x n True") auto
    with n show ?thesis by (simp add: refill_store_def refill_def GetDescs_store_eq [OF assms])
  qed (cases "NumFreeFillSlots x"; auto simp: refill_store_def refill_def)
  with assms show ?thesis by blast
qed

lemma dump_iter_store_eq:
  assumes "buffers_ok b h x" and "list_all (\<lambda>a. keeps_sizes (snd a)) poll"
  shows "\<exists>h'. dump_iter_store grow b x h poll =
      map_option (\<lambda>r. rbind r (\<lambda>v. Inr (map_sum id (\<lambda>(frames, x'). (frames, h', x')) v))) (dump_iter x poll) \<and>
    (\<forall>frames x'. dump_iter x poll = Some (Inr (Inr (frames, x'))) \<longrightarrow> buffers_ok b h' x')"
proof -
  obtain h1 where r: "refill_store grow b x h = rbind (refill x) (\<lambda>x'. Inr (h1, x'))"
    and h1: "\<And>x1. refill x = Inr x1 \<Longrightarrow> buffers_ok b h1 x1" using refill_store_eq [OF assms(1)] by blast
  show ?thesis
  proof (cases "\<exists>x1 numRx n y ds z. refill x = Inr x1 \<and> Poll x1 poll = Some (Inr (numRx, n, None, y)) \<and>
      0 < numRx \<and> Receive y numRx = Inr (ds, z)")
    case True
    then obtain x1 numRx n y ds z where o: "refill x = Inr x1" "Poll x1 poll = Some (Inr (numRx, n, None, y))"
      "0 < numRx" "Receive y numRx = Inr (ds, z)" by blast
    have "buffers_ok b h1 y" using Poll_buffers [OF o(2) assms(2)] h1 [OF o(1)] by simp
    from receive_slice.run_result [OF this, of numRx ds z grow] o(4) obtain s h2 where
      s: "Receive_store grow b y h1 numRx = Inr (s, h2, z)" "read_slice h2 s = ds" "buffers_ok b h2 z" by blast
    have "slen s = length ds"
      using s(1) o(4) Receive_store_eq [OF \<open>buffers_ok b h1 y\<close>, of grow numRx] by (cases s) simp
    then have "frames_store z h2 s [0..<slen s] = get_frames z ds"
      using frames_store_eq [of z h2 s 0] unfolding s(2) by simp
    with o s r show ?thesis
      by (intro exI [of _ h2])
        (cases "get_frames z ds"; simp add: dump_iter_store_def dump_iter_def)
  next
    case False
    note none = this
    show ?thesis
    proof (cases "\<exists>x1 numRx n y. refill x = Inr x1 \<and> Poll x1 poll = Some (Inr (numRx, n, None, y))")
      case True
      then obtain x1 numRx n y where o: "refill x = Inr x1" "Poll x1 poll = Some (Inr (numRx, n, None, y))" by blast
      have ok: "buffers_ok b h1 y" using Poll_buffers [OF o(2) assms(2)] h1 [OF o(1)] by simp
      with none o r show ?thesis
        by (intro exI [of _ h1]) (cases "Receive y numRx";
          auto simp: dump_iter_store_def dump_iter_def Receive_store_eq [OF ok])
    next
      case False
      then show ?thesis
        by (intro exI [of _ h1]) (auto simp: dump_iter_store_def dump_iter_def r split: sum.splits option.splits)
    qed
  qed
qed

section \<open>Properties\<close>

text \<open>
  C5: the receive loop run on the shared buffers is the receive loop. \<open>GetDescs\<close> and \<open>Receive\<close> overwrite
  the slices they returned before, but \<open>main\<close> uses each slice before the next call, so over any number
  of iterations, with any answers of the kernel, the frames handed out, the way the loop ends and the
  socket are those of the loop over values.
\<close>

theorem dump_loop_shared:
  assumes "buffers_ok b h x" and "\<forall>poll \<in> set polls. \<forall>a \<in> set poll. keeps_sizes (snd a)"
  shows "dump_loop_store grow b x h polls = dump_loop x polls"
  using assms
proof (induction polls arbitrary: x h)
  case (Cons poll polls)
  have k: "list_all (\<lambda>a. keeps_sizes (snd a)) poll" using Cons.prems(2) by (simp add: list_all_iff)
  obtain h' where it: "dump_iter_store grow b x h poll =
      map_option (\<lambda>r. rbind r (\<lambda>v. Inr (map_sum id (\<lambda>(frames, x'). (frames, h', x')) v))) (dump_iter x poll)"
    and ok: "\<And>frames x'. dump_iter x poll = Some (Inr (Inr (frames, x'))) \<Longrightarrow> buffers_ok b h' x'"
    using dump_iter_store_eq [OF Cons.prems(1) k, of grow] by blast
  have "dump_loop_store grow b x' h' polls = dump_loop x' polls"
    if "dump_iter x poll = Some (Inr (Inr (frames, x')))" for frames x'
    using Cons.IH [OF ok [OF that]] Cons.prems(2) by simp
  then show ?case by (auto simp: it split: option.splits sum.splits)
qed simp

text \<open>The buffers of the sample socket in the arrays 0, 1 and 2.\<close>

definition demo_buffers :: buffers where
  "demo_buffers = \<lparr>buf_rx = 0, buf_getTX = 1, buf_getRX = 2\<rparr>"

definition demo_store :: desc_store where
  "demo_store = \<lparr>arrays = (\<lambda>_. replicate 4 zero_desc), brk = 3\<rparr>"

lemma demo_buffers_ok: "buffers_ok demo_buffers demo_store demo_socket"
  by (simp add: buffers_ok_def demo_buffers_def demo_store_def demo_socket_def demo_opts_def)

theorem dump_loop_shared_witness:
  "dump_loop_store Suc demo_buffers demo_socket demo_store [[(None, id)]] = dump_loop demo_socket [[(None, id)]]"
  by (rule dump_loop_shared [OF demo_buffers_ok]) (simp add: keeps_sizes_def)



end
