(* ===== verification/Xdp_Program.thy ===== *)
theory Xdp_Program
  imports Default_Prog Xsk_Socket
begin

unbundle bit_operations_syntax

text \<open>
  The Go type \<open>Program\<close> of \<^verbatim>\<open>dumpframes/program.go\<close> and \<^verbatim>\<open>perf_event/program.go\<close>: it owns the
  loaded XDP program and its maps, registers sockets with receive queues, and attaches the program to
  a network link. The packages \<^verbatim>\<open>cilium/ebpf\<close> and \<^verbatim>\<open>netlink\<close> are parameters, as operations on a
  state of their own.
\<close>

section \<open>The eBPF library\<close>

text \<open>The arguments of \<open>ebpf.NewMap\<close>.\<close>

record map_spec =
  Name :: string
  Type :: nat
  KeySize :: u32
  ValueSize :: u32
  MaxEntries :: u32
  Flags :: u32

text \<open>
  What the source calls of \<^verbatim>\<open>cilium/ebpf\<close>, on handles of maps and programs: \<open>NewMap\<close>, \<open>NewProgram\<close>, and
  the methods \<open>Put\<close>, \<open>Delete\<close>, \<open>Close\<close> and \<open>FD\<close>.
\<close>

record ('s, 'm, 'p) ebpf_lib =
  map_put :: "'s \<Rightarrow> 'm \<Rightarrow> u32 \<Rightarrow> u32 \<Rightarrow> errno option \<times> 's"
  map_delete :: "'s \<Rightarrow> 'm \<Rightarrow> u32 \<Rightarrow> errno option \<times> 's"
  map_close :: "'s \<Rightarrow> 'm \<Rightarrow> errno option \<times> 's"
  map_fd :: "'m \<Rightarrow> int"
  new_map :: "'s \<Rightarrow> map_spec \<Rightarrow> (errno + 'm) \<times> 's"
  new_program :: "'s \<Rightarrow> instr list \<Rightarrow> (errno + 'p) \<times> 's"
  prog_close :: "'s \<Rightarrow> 'p \<Rightarrow> errno option \<times> 's"

section \<open>Registering sockets\<close>

text \<open>The calls that \<open>Register\<close> and \<open>Unregister\<close> make on \<open>p.Sockets\<close> and \<open>p.Queues\<close>.\<close>

record 's bpf_maps =
  put_sockets :: "'s \<Rightarrow> u32 \<Rightarrow> u32 \<Rightarrow> errno option \<times> 's"
  put_queues :: "'s \<Rightarrow> u32 \<Rightarrow> u32 \<Rightarrow> errno option \<times> 's"
  delete_sockets :: "'s \<Rightarrow> u32 \<Rightarrow> errno option \<times> 's"
  delete_queues :: "'s \<Rightarrow> u32 \<Rightarrow> errno option \<times> 's"

definition program_maps :: "('s, 'm, 'p) ebpf_lib \<Rightarrow> 'm \<Rightarrow> 'm \<Rightarrow> 's bpf_maps" where
  "program_maps lib sockets queues =
     \<lparr>put_sockets = (\<lambda>s. map_put lib s sockets), put_queues = (\<lambda>s. map_put lib s queues),
      delete_sockets = (\<lambda>s. map_delete lib s sockets), delete_queues = (\<lambda>s. map_delete lib s queues)\<rparr>"

datatype map_error = Xsks_Failed errno | Qidconf_Failed errno

definition Register :: "'s bpf_maps \<Rightarrow> 's \<Rightarrow> int \<Rightarrow> int \<Rightarrow> map_error option \<times> 's" where
  "Register p s queueID f =
     (case put_sockets p s (to_u32 queueID) (to_u32 f) of
        (Some e, s) \<Rightarrow> (Some (Xsks_Failed e), s)
      | (None, s) \<Rightarrow>
          (case put_queues p s (to_u32 queueID) 1 of
             (Some e, s) \<Rightarrow> (Some (Qidconf_Failed e), s)
           | (None, s) \<Rightarrow> (None, s)))"

definition Unregister :: "'s bpf_maps \<Rightarrow> 's \<Rightarrow> int \<Rightarrow> map_error option \<times> 's" where
  "Unregister p s queueID =
     (case delete_queues p s (to_u32 queueID) of
        (Some e, s) \<Rightarrow> (Some (Qidconf_Failed e), s)
      | (None, s) \<Rightarrow>
          (case delete_sockets p s (to_u32 queueID) of
             (Some e, s) \<Rightarrow> (Some (Xsks_Failed e), s)
           | (None, s) \<Rightarrow> (None, s)))"

section \<open>Creating, loading and closing\<close>

record ('p, 'm) program =
  Program :: "'p option"
  Queues :: "'m option"
  Sockets :: "'m option"

datatype prog_close_error = Close_Xsks errno | Close_Qidconf errno | Close_Program errno

text \<open>
  Closing one part, if it is there, with the errors so far: every part is tried, and the first error
  is returned.
\<close>

definition close_part ::
  "('s \<Rightarrow> 'h \<Rightarrow> errno option \<times> 's) \<Rightarrow> (errno \<Rightarrow> prog_close_error) \<Rightarrow> 'h option \<Rightarrow>
   prog_close_error list \<times> 's \<Rightarrow> prog_close_error list \<times> 's" where
  "close_part close err part =
     (\<lambda>(errs, s). case part of None \<Rightarrow> (errs, s)
      | Some h \<Rightarrow> (case close s h of (None, s) \<Rightarrow> (errs, s) | (Some e, s) \<Rightarrow> (errs @ [err e], s)))"

definition Program_Close ::
  "('s, 'm, 'p) ebpf_lib \<Rightarrow> 's \<Rightarrow> ('p, 'm) program \<Rightarrow> prog_close_error option \<times> ('p, 'm) program \<times> 's" where
  "Program_Close lib s p =
     (let (errs, s) = close_part (map_close lib) Close_Xsks (Sockets p) ([], s);
          p = p\<lparr>Sockets := None\<rparr>;
          (errs, s) = close_part (map_close lib) Close_Qidconf (Queues p) (errs, s);
          p = p\<lparr>Queues := None\<rparr>;
          (errs, s) = close_part (prog_close lib) Close_Program (Program p) (errs, s);
          p = p\<lparr>Program := None\<rparr>
      in (if errs \<noteq> [] then Some (hd errs) else None, p, s))"

text \<open>The \<open>Program\<close> of \<^verbatim>\<open>perf_event\<close> owns one map.\<close>

record ('p, 'm) event_program =
  EvProgram :: "'p option"
  Events :: "'m option"

definition Event_Program_Close ::
  "('s, 'm, 'p) ebpf_lib \<Rightarrow> 's \<Rightarrow> ('p, 'm) event_program \<Rightarrow>
   prog_close_error option \<times> ('p, 'm) event_program \<times> 's" where
  "Event_Program_Close lib s p =
     (let (errs, s) = close_part (map_close lib) Close_Xsks (Events p) ([], s);
          p = p\<lparr>Events := None\<rparr>;
          (errs, s) = close_part (prog_close lib) Close_Program (EvProgram p) (errs, s);
          p = p\<lparr>EvProgram := None\<rparr>
      in (if errs \<noteq> [] then Some (hd errs) else None, p, s))"

datatype load_error = New_Qidconf_Failed errno | New_Xsks_Failed errno | New_Program_Failed errno

definition NewProgram ::
  "('s, 'm, 'p) ebpf_lib \<Rightarrow> 's \<Rightarrow> int \<Rightarrow> (load_error + ('p, 'm) program) \<times> 's" where
  "NewProgram lib s maxQueueEntries =
     (case new_map lib s \<lparr>Name = ''qidconf_map'', Type = 2, KeySize = 4, ValueSize = 4,
                     MaxEntries = to_u32 maxQueueEntries, Flags = 0\<rparr> of
        (Inl e, s) \<Rightarrow> (Inl (New_Qidconf_Failed e), s)
      | (Inr qidconfMap, s) \<Rightarrow>
          (case new_map lib s \<lparr>Name = ''xsks_map'', Type = 17, KeySize = 4, ValueSize = 4,
                          MaxEntries = to_u32 maxQueueEntries, Flags = 0\<rparr> of
             (Inl e, s) \<Rightarrow> (Inl (New_Xsks_Failed e), s)
           | (Inr xsksMap, s) \<Rightarrow>
               (case new_program lib s (xsk_ebpf (map_fd lib qidconfMap) (map_fd lib xsksMap)) of
                  (Inl e, s) \<Rightarrow> (Inl (New_Program_Failed e), s)
                | (Inr g, s) \<Rightarrow>
                    (Inr \<lparr>Program = Some g, Queues = Some qidconfMap, Sockets = Some xsksMap\<rparr>, s))))"

record ('p, 'm) collection =
  Programs :: "string \<Rightarrow> 'p option"
  Maps :: "string \<Rightarrow> 'm option"

datatype find_error = Load_Failed errno | No_Function string string | No_Queue_Map string string | No_Socket_Map string string

definition LoadProgram ::
  "(string \<Rightarrow> errno + ('p, 'm) collection) \<Rightarrow> string \<Rightarrow> string \<Rightarrow> string \<Rightarrow> string \<Rightarrow> find_error + ('p, 'm) program" where
  "LoadProgram load_collection fname funcname qidmapname xskmapname =
     (case load_collection fname of
        Inl e \<Rightarrow> Inl (Load_Failed e)
      | Inr col \<Rightarrow>
          (case Programs col funcname of
             None \<Rightarrow> Inl (No_Function fname funcname)
           | Some g \<Rightarrow>
               (case Maps col qidmapname of
                  None \<Rightarrow> Inl (No_Queue_Map fname qidmapname)
                | Some q \<Rightarrow>
                    (case Maps col xskmapname of
                       None \<Rightarrow> Inl (No_Socket_Map fname xskmapname)
                     | Some x \<Rightarrow> Inr \<lparr>Program = Some g, Queues = Some q, Sockets = Some x\<rparr>))))"

section \<open>Attaching and detaching\<close>

text \<open>The part of a \<open>netlink.Link\<close> that the source reads; \<open>None\<close> is nil.\<close>

record link_xdp =
  Attached :: bool

record link_attrs =
  Index :: int
  Xdp :: "link_xdp option"

record link =
  Attrs :: "link_attrs option"

definition isXdpAttached :: "link \<Rightarrow> bool" where
  "isXdpAttached link =
     (case Attrs link of None \<Rightarrow> False
      | Some a \<Rightarrow> (case Xdp a of None \<Rightarrow> False | Some x \<Rightarrow> Attached x))"

record 's netlink =
  LinkByIndex :: "'s \<Rightarrow> int \<Rightarrow> (errno + link) \<times> 's"
  LinkSetXdpFd :: "'s \<Rightarrow> link \<Rightarrow> int \<Rightarrow> errno option \<times> 's"
  LinkSetXdpFdWithFlags :: "'s \<Rightarrow> link \<Rightarrow> int \<Rightarrow> int \<Rightarrow> errno option \<times> 's"
  Sleep :: "'s \<Rightarrow> 's"

datatype link_error = Lookup_Failed errno | Set_Failed errno

text \<open>The loop of \<open>removeProgram\<close>, which looks at the link every second; it may run forever.\<close>

partial_function (option) wait_detached ::
  "'s netlink \<Rightarrow> int \<Rightarrow> 's \<Rightarrow> (link_error option \<times> 's) option" where
  "wait_detached n Ifindex s =
     (case LinkByIndex n s Ifindex of
        (Inl e, s) \<Rightarrow> Some (Some (Lookup_Failed e), s)
      | (Inr link, s) \<Rightarrow>
          if \<not> isXdpAttached link then Some (None, s) else wait_detached n Ifindex (Sleep n s))"

definition removeProgram :: "'s netlink \<Rightarrow> 's \<Rightarrow> int \<Rightarrow> (link_error option \<times> 's) option" where
  "removeProgram n s Ifindex =
     (case LinkByIndex n s Ifindex of
        (Inl e, s) \<Rightarrow> Some (Some (Lookup_Failed e), s)
      | (Inr link, s) \<Rightarrow>
          if \<not> isXdpAttached link then Some (None, s)
          else
            (case LinkSetXdpFd n s link (-1) of
               (Some e, s) \<Rightarrow> Some (Some (Set_Failed e), s)
             | (None, s) \<Rightarrow> wait_detached n Ifindex s))"

definition DefaultXdpFlags :: u32 where
  "DefaultXdpFlags = 0"

definition attachProgram :: "'s netlink \<Rightarrow> 's \<Rightarrow> int \<Rightarrow> int \<Rightarrow> link_error option \<times> 's" where
  "attachProgram n s Ifindex prog_fd =
     (case LinkByIndex n s Ifindex of
        (Inl e, s) \<Rightarrow> (Some (Lookup_Failed e), s)
      | (Inr link, s) \<Rightarrow>
          (case LinkSetXdpFdWithFlags n s link prog_fd (uint DefaultXdpFlags) of
             (Some e, s) \<Rightarrow> (Some (Set_Failed e), s)
           | (None, s) \<Rightarrow> (None, s)))"

definition Attach :: "'s netlink \<Rightarrow> 's \<Rightarrow> int \<Rightarrow> int \<Rightarrow> (link_error option \<times> 's) option" where
  "Attach n s Ifindex prog_fd =
     (case removeProgram n s Ifindex of
        None \<Rightarrow> None
      | Some (Some e, s) \<Rightarrow> Some (Some e, s)
      | Some (None, s) \<Rightarrow> Some (attachProgram n s Ifindex prog_fd))"

definition Detach :: "'s netlink \<Rightarrow> 's \<Rightarrow> int \<Rightarrow> (link_error option \<times> 's) option" where
  "Detach n s Ifindex = removeProgram n s Ifindex"

section \<open>The maps and the packets\<close>

text \<open>
  What the maps of a state make of the helpers that the XDP program calls, and the condition under
  which no frame meets a set flag without a socket behind it.
\<close>

definition maps_env :: "(u32 \<Rightarrow> u32 option) \<Rightarrow> (u32 \<Rightarrow> u32 option) \<Rightarrow> sock_env" where
  "maps_env socks qs = \<lparr>qidconf_lookup = qs,
     redirect_map = (\<lambda>k flags. if socks k = None then uint (flags AND 3) else 4)\<rparr>"

definition queues_safe :: "(u32 \<Rightarrow> u32 option) \<Rightarrow> (u32 \<Rightarrow> u32 option) \<Rightarrow> bool" where
  "queues_safe socks qs \<longleftrightarrow> (\<forall>k v. qs k = Some v \<longrightarrow> v \<noteq> 0 \<longrightarrow> socks k \<noteq> None)"

text \<open>The contract of the two maps: an update or deletion that succeeds acts on its key alone.\<close>

locale socket_maps =
  fixes p :: "'s bpf_maps"
    and socks :: "'s \<Rightarrow> u32 \<Rightarrow> u32 option"
    and qs :: "'s \<Rightarrow> u32 \<Rightarrow> u32 option"
  assumes put_sockets_law: "put_sockets p s k v = (e, s') \<Longrightarrow>
      qs s' = qs s \<and> socks s' = (if e = None then (socks s)(k \<mapsto> v) else socks s)"
    and put_queues_law: "put_queues p s k v = (e, s') \<Longrightarrow>
      socks s' = socks s \<and> qs s' = (if e = None then (qs s)(k \<mapsto> v) else qs s)"
    and delete_sockets_law: "delete_sockets p s k = (e, s') \<Longrightarrow>
      qs s' = qs s \<and> socks s' = (if e = None then (socks s)(k := None) else socks s)"
begin

lemma Register_maps:
  assumes "Register p s q f = (e, s')"
  shows "(e = None \<longrightarrow> socks s' = (socks s)(to_u32 q \<mapsto> to_u32 f) \<and> qs s' = (qs s)(to_u32 q \<mapsto> 1)) \<and>
    (e \<noteq> None \<longrightarrow> qs s' = qs s \<and> (socks s' = socks s \<or> socks s' = (socks s)(to_u32 q \<mapsto> to_u32 f)))"
proof -
  obtain e1 s1 where one: "put_sockets p s (to_u32 q) (to_u32 f) = (e1, s1)"
    by (cases "put_sockets p s (to_u32 q) (to_u32 f)")
  obtain e2 s2 where two: "put_queues p s1 (to_u32 q) 1 = (e2, s2)"
    by (cases "put_queues p s1 (to_u32 q) 1")
  show ?thesis
    using assms put_sockets_law [OF one] put_queues_law [OF two] one two
    by (auto simp: Register_def split: option.splits)
qed

lemma Register_safe_states:
  assumes "queues_safe (socks s) (qs s)"
  shows "queues_safe (socks (snd (put_sockets p s (to_u32 q) (to_u32 f)))) (qs (snd (put_sockets p s (to_u32 q) (to_u32 f))))"
    and "Register p s q f = (e, s') \<Longrightarrow> queues_safe (socks s') (qs s')"
proof -
  obtain e1 s1 where one: "put_sockets p s (to_u32 q) (to_u32 f) = (e1, s1)"
    by (cases "put_sockets p s (to_u32 q) (to_u32 f)")
  show "queues_safe (socks (snd (put_sockets p s (to_u32 q) (to_u32 f)))) (qs (snd (put_sockets p s (to_u32 q) (to_u32 f))))"
    using put_sockets_law [OF one] assms by (auto simp: one queues_safe_def)
  show "queues_safe (socks s') (qs s')" if "Register p s q f = (e, s')"
  proof (cases e)
    case None
    with Register_maps [OF that] assms show ?thesis by (auto simp: queues_safe_def)
  next
    case (Some x)
    with Register_maps [OF that] have "qs s' = qs s" "\<forall>k. socks s k \<noteq> None \<longrightarrow> socks s' k \<noteq> None" by auto
    with assms show ?thesis by (auto simp: queues_safe_def)
  qed
qed

end

locale queue_maps = socket_maps p socks qs for p :: "'s bpf_maps" and socks qs +
  assumes delete_queues_law: "delete_queues p s k = (e, s') \<Longrightarrow>
      socks s' = socks s \<and> qs s' = (if e = None then (qs s)(k := None) else qs s)"
begin

lemma Unregister_maps:
  assumes "Unregister p s q = (e, s')"
  shows "(e = None \<longrightarrow> socks s' = (socks s)(to_u32 q := None) \<and> qs s' = (qs s)(to_u32 q := None)) \<and>
    (e \<noteq> None \<longrightarrow> socks s' = socks s \<and> (qs s' = qs s \<or> qs s' = (qs s)(to_u32 q := None)))"
proof -
  obtain e1 s1 where one: "delete_queues p s (to_u32 q) = (e1, s1)" by (cases "delete_queues p s (to_u32 q)")
  obtain e2 s2 where two: "delete_sockets p s1 (to_u32 q) = (e2, s2)" by (cases "delete_sockets p s1 (to_u32 q)")
  show ?thesis
    using assms delete_queues_law [OF one] delete_sockets_law [OF two] one two
    by (auto simp: Unregister_def split: option.splits)
qed

end

section \<open>The contract of the eBPF library\<close>

text \<open>
  \<open>kind\<close> is the type of a map that is open, \<open>content\<close> what a map holds. A new map is one that was not
  open; an update or deletion that succeeds acts on its key alone; nothing is deleted from an array
  (\<open>BPF_MAP_TYPE_ARRAY\<close>, 2).
\<close>

locale ebpf_maps =
  fixes lib :: "('s, 'm, 'p) ebpf_lib"
    and content :: "'s \<Rightarrow> 'm \<Rightarrow> u32 \<Rightarrow> u32 option"
    and kind :: "'s \<Rightarrow> 'm \<Rightarrow> nat option"
  assumes put_law: "map_put lib s m k v = (e, s') \<Longrightarrow> kind s' = kind s \<and>
      content s' = (if e = None then (content s)(m := (content s m)(k \<mapsto> v)) else content s)"
    and delete_law: "map_delete lib s m k = (e, s') \<Longrightarrow> kind s' = kind s \<and>
      content s' = (if e = None then (content s)(m := (content s m)(k := None)) else content s)"
    and delete_array_law: "map_delete lib s m k = (e, s') \<Longrightarrow> kind s m = Some 2 \<Longrightarrow> e \<noteq> None"
    and new_map_law: "new_map lib s sp = (Inr m, s') \<Longrightarrow> kind s m = None \<and> kind s' = (kind s)(m \<mapsto> Type sp)"
    and new_map_fail_law: "new_map lib s sp = (Inl err, s') \<Longrightarrow> kind s' = kind s"
    and new_program_law: "new_program lib s is = (r, s') \<Longrightarrow> kind s' = kind s"
    and map_close_law: "map_close lib s m = (None, s') \<Longrightarrow> kind s' = (kind s)(m := None)"
    and prog_close_law: "prog_close lib s g = (e, s') \<Longrightarrow> kind s' = kind s"
begin

lemma program_queue_maps:
  "sockets \<noteq> queues \<Longrightarrow>
   queue_maps (program_maps lib sockets queues) (\<lambda>s. content s sockets) (\<lambda>s. content s queues)"
  by unfold_locales (auto simp: program_maps_def dest!: put_law delete_law)

lemma Register_kind: "Register (program_maps lib sockets queues) s q f = (e, s') \<Longrightarrow> kind s' = kind s"
  by (auto simp: Register_def program_maps_def split: prod.splits option.splits dest!: put_law)

text \<open>The maps that a failing \<open>NewProgram\<close> has opened, and a succeeding one.\<close>

lemma NewProgram_kind:
  assumes "NewProgram lib s n = (r, s')"
  shows "case r of
      Inl (New_Qidconf_Failed e) \<Rightarrow> kind s' = kind s
    | Inl (New_Xsks_Failed e) \<Rightarrow> \<exists>q. kind s q = None \<and> kind s' = (kind s)(q \<mapsto> 2)
    | Inl (New_Program_Failed e) \<Rightarrow>
        \<exists>q x. q \<noteq> x \<and> kind s q = None \<and> kind s x = None \<and> kind s' = (kind s)(q \<mapsto> 2, x \<mapsto> 17)
    | Inr g \<Rightarrow> \<exists>p q x. g = \<lparr>Program = Some p, Queues = Some q, Sockets = Some x\<rparr> \<and> q \<noteq> x \<and>
        kind s q = None \<and> kind s x = None \<and> kind s' = (kind s)(q \<mapsto> 2, x \<mapsto> 17)"
  using assms
  by (auto simp: NewProgram_def split: prod.splits sum.splits
      dest!: new_map_law new_map_fail_law new_program_law split: if_splits) metis

lemma close_part_kind:
  "close_part (map_close lib) err (Some m) (errs, s) = ([], s') \<Longrightarrow> errs = [] \<and> kind s' = (kind s)(m := None)"
  "close_part (prog_close lib) err (Some g) (errs, s) = ([], s') \<Longrightarrow> errs = [] \<and> kind s' = kind s"
  by (auto simp: close_part_def split: prod.splits option.splits dest: map_close_law prog_close_law)

lemma Program_Close_kind:
  assumes "Program_Close lib s \<lparr>Program = Some p, Queues = Some q, Sockets = Some x\<rparr> = (None, g, s')"
  shows "kind s' = (kind s)(x := None, q := None)"
proof -
  obtain e1 s1 where 1: "close_part (map_close lib) Close_Xsks (Some x) ([], s) = (e1, s1)" by fastforce
  obtain e2 s2 where 2: "close_part (map_close lib) Close_Qidconf (Some q) (e1, s1) = (e2, s2)" by fastforce
  obtain e3 s3 where 3: "close_part (prog_close lib) Close_Program (Some p) (e2, s2) = (e3, s3)" by fastforce
  from assms 1 2 3 have "e3 = []" "s' = s3" by (auto simp: Program_Close_def split: if_splits)
  with 1 2 3 close_part_kind(2) [of Close_Program p e2 s2 s3] show ?thesis
    by (auto dest!: close_part_kind(1))
qed

end

section \<open>A library for the witnesses\<close>

text \<open>
  Maps with their specifications, as \<^verbatim>\<open>bpf(2)\<close> describes the types: all elements of an array exist and
  are zero at first, keys beyond the size are refused with \<open>E2BIG\<close>, elements of an array cannot be
  deleted (\<open>EINVAL\<close>), and deleting what is not there fails with \<open>ENOENT\<close>. At most \<open>d_limit\<close> maps can be
  open.
\<close>

record demo_bpf =
  d_open :: "(int \<times> map_spec) list"
  d_content :: "int \<Rightarrow> u32 \<Rightarrow> u32 option"
  d_limit :: nat

definition fresh_handle :: "(int \<times> map_spec) list \<Rightarrow> int" where
  "fresh_handle ms = fold max (map fst ms) 3 + 1"

definition demo_lib :: "(demo_bpf, int, int) ebpf_lib" where
  "demo_lib = \<lparr>
     map_put = (\<lambda>s m k v. case map_of (d_open s) m of
         None \<Rightarrow> (Some (Errno 9), s)
       | Some sp \<Rightarrow> if k < MaxEntries sp then (None, s\<lparr>d_content := (d_content s)(m := (d_content s m)(k \<mapsto> v))\<rparr>)
                    else (Some (Errno 7), s)),
     map_delete = (\<lambda>s m k. case map_of (d_open s) m of
         None \<Rightarrow> (Some (Errno 9), s)
       | Some sp \<Rightarrow> if Type sp = 2 then (Some (Errno 22), s)
                    else if d_content s m k = None then (Some (Errno 2), s)
                    else (None, s\<lparr>d_content := (d_content s)(m := (d_content s m)(k := None))\<rparr>)),
     map_close = (\<lambda>s m. if map_of (d_open s) m = None then (Some (Errno 9), s)
                        else (None, s\<lparr>d_open := filter (\<lambda>(i, _). i \<noteq> m) (d_open s)\<rparr>)),
     map_fd = id,
     new_map = (\<lambda>s sp. if d_limit s \<le> length (d_open s) then (Inl (Errno 24), s)
       else (let m = fresh_handle (d_open s) in
         (Inr m, s\<lparr>d_open := (m, sp) # d_open s,
            d_content := (d_content s)(m := (\<lambda>k. if Type sp = 2 \<and> k < MaxEntries sp then Some 0 else None))\<rparr>))),
     new_program = (\<lambda>s is. (Inr 5, s)),
     prog_close = (\<lambda>s g. (None, s))\<rparr>"

definition d_kind :: "demo_bpf \<Rightarrow> int \<Rightarrow> nat option" where
  "d_kind s m = map_option Type (map_of (d_open s) m)"

lemma fresh_handle: "map_of ms (fresh_handle ms) = None"
proof -
  have "x \<le> fold max xs a" if "x \<in> set xs \<or> x \<le> a" for x a :: int and xs
    using that by (induction xs arbitrary: a) (auto simp: le_max_iff_disj)
  then have "\<forall>x \<in> set (map fst ms). x < fresh_handle ms" unfolding fresh_handle_def by (metis zle_add1_eq_le)
  then show ?thesis by (force simp: map_of_eq_None_iff)
qed

lemma map_of_filter_fst: "map_of (filter (\<lambda>(i, _). i \<noteq> m) ms) i = (if i = m then None else map_of ms i)"
  by (induction ms) auto

interpretation demo_lib: ebpf_maps demo_lib d_content d_kind
proof
  show "d_kind s m = None \<and> d_kind s' = (d_kind s)(m \<mapsto> Type sp)" if "new_map demo_lib s sp = (Inr m, s')" for s sp m s'
    using that fresh_handle [of "d_open s"]
    by (auto simp: demo_lib_def d_kind_def Let_def fun_eq_iff split: if_splits)
  show "d_kind s' = (d_kind s)(m := None)" if "map_close demo_lib s m = (None, s')" for s m s'
    using that by (auto simp: demo_lib_def d_kind_def fun_eq_iff map_of_filter_fst split: if_splits)
qed (auto simp: demo_lib_def d_kind_def Let_def split: if_splits option.splits)

text \<open>The two maps of \<^verbatim>\<open>tcp_syn_kern.c\<close>, open and with no socket registered.\<close>

definition spec_of :: "string \<Rightarrow> bpf_map_def \<Rightarrow> map_spec" where
  "spec_of n d = \<lparr>Name = n, Type = unat (map_type d), KeySize = key_size d, ValueSize = value_size d,
     MaxEntries = max_entries d, Flags = map_flags d\<rparr>"

definition demo_bpf0 :: demo_bpf where
  "demo_bpf0 = \<lparr>d_open = [(6, spec_of ''qidconf_map'' qidconf_map), (8, spec_of ''xsks_map'' xsks_map)],
     d_content = (\<lambda>m k. if m = 6 \<and> k < MAX_SOCKS then Some 0 else None), d_limit = 3\<rparr>"

definition demo_maps :: "demo_bpf bpf_maps" where
  "demo_maps = program_maps demo_lib 8 6"

interpretation demo_maps: queue_maps demo_maps "\<lambda>s. d_content s 8" "\<lambda>s. d_content s 6"
  unfolding demo_maps_def by (rule demo_lib.program_queue_maps) simp

section \<open>The contract of a link\<close>

text \<open>
  \<open>cur\<close> gives the program attached to each interface. A lookup by index returns the link with that
  index and reports whether it has a program; a successful attach sets the program of the interface
  whose index the link carries. When a removal takes effect is left open.
\<close>

locale xdp_link =
  fixes n :: "'s netlink"
    and cur :: "'s \<Rightarrow> int \<Rightarrow> int option"
  assumes by_index_law: "LinkByIndex n s i = (Inr l, s') \<Longrightarrow>
      (\<exists>a. Attrs l = Some a \<and> Index a = i) \<and> (isXdpAttached l \<longleftrightarrow> cur s' i \<noteq> None)"
    and set_flags_law: "LinkSetXdpFdWithFlags n s l f fl = (None, s') \<Longrightarrow> Attrs l = Some a \<Longrightarrow> cur s' (Index a) = Some f"
begin

lemma wait_detached_cur:
  assumes "wait_detached n ifx s = Some (e, s')"
  shows "e = None \<Longrightarrow> cur s' ifx = None"
proof -
  have "n = n \<longrightarrow> fst (e, s') = None \<longrightarrow> cur (snd (e, s')) ifx = None"
  proof (rule wait_detached.raw_induct
      [where P = "\<lambda>m i t r. m = n \<longrightarrow> fst r = None \<longrightarrow> cur (snd r) i = None", OF _ assms])
    fix rec m i t r
    assume IH: "\<And>m i t r. rec m i t = Some r \<Longrightarrow> m = n \<longrightarrow> fst r = None \<longrightarrow> cur (snd r) i = None"
      and body: "(case LinkByIndex m t i of (Inl e, s) \<Rightarrow> Some (Some (Lookup_Failed e), s)
        | (Inr link, s) \<Rightarrow> if \<not> isXdpAttached link then Some (None, s) else rec m i (Sleep m s)) = Some r"
    show "m = n \<longrightarrow> fst r = None \<longrightarrow> cur (snd r) i = None"
      using body IH [of n i] by (cases r) (auto split: prod.splits sum.splits if_splits dest: by_index_law)
  qed
  then show "e = None \<Longrightarrow> cur s' ifx = None" by simp
qed

lemma removeProgram_cur: "removeProgram n s ifx = Some (None, s') \<Longrightarrow> cur s' ifx = None"
  by (auto simp: removeProgram_def split: prod.splits sum.splits if_splits option.splits
      dest: by_index_law wait_detached_cur)

lemma Attach_cur: "Attach n s ifx f = Some (None, s') \<Longrightarrow> cur s' ifx = Some f"
  by (auto simp: Attach_def attachProgram_def split: prod.splits sum.splits option.splits
      dest!: by_index_law dest: set_flags_law)

end

text \<open>The state in which the link is looked up for the \<open>k\<close>-th time, and what is seen there.\<close>

fun look_state :: "'s netlink \<Rightarrow> int \<Rightarrow> nat \<Rightarrow> 's \<Rightarrow> 's" where
  "look_state n ifx 0 s = s"
| "look_state n ifx (Suc k) s = look_state n ifx k (Sleep n (snd (LinkByIndex n s ifx)))"

definition gone :: "'s netlink \<Rightarrow> int \<Rightarrow> 's \<Rightarrow> bool" where
  "gone n ifx s = (case fst (LinkByIndex n s ifx) of Inl e \<Rightarrow> True | Inr l \<Rightarrow> \<not> isXdpAttached l)"

lemma wait_detached_returns: "gone n ifx (look_state n ifx k s) \<Longrightarrow> \<exists>r. wait_detached n ifx s = Some r"
proof (induction k arbitrary: s)
  case 0
  then show ?case by (subst wait_detached.simps) (auto simp: gone_def split: prod.splits sum.splits)
next
  case (Suc k)
  from Suc.IH [of "Sleep n (snd (LinkByIndex n s ifx))"] Suc.prems show ?case
    by (subst wait_detached.simps) (auto split: prod.splits sum.splits)
qed

text \<open>A removal that is requested for the link with a given index shows there after some lookups.\<close>

definition removal_shows :: "'s netlink \<Rightarrow> int \<Rightarrow> bool" where
  "removal_shows n ifx \<longleftrightarrow> (\<forall>t l a t'. Attrs l = Some a \<longrightarrow> Index a = ifx \<longrightarrow>
     LinkSetXdpFd n t l (-1) = (None, t') \<longrightarrow> (\<exists>k. gone n ifx (look_state n ifx k t')))"

context xdp_link
begin

lemma removeProgram_returns:
  assumes "removal_shows n ifx"
  shows "\<exists>e s'. removeProgram n s ifx = Some (e, s')"
proof (cases "LinkByIndex n s ifx")
  case (Pair x t)
  show ?thesis
  proof (cases x)
    case (Inl e)
    with Pair show ?thesis by (simp add: removeProgram_def)
  next
    case (Inr l)
    with Pair by_index_law obtain a where a: "Attrs l = Some a" "Index a = ifx" by blast
    obtain e t' where set: "LinkSetXdpFd n t l (-1) = (e, t')" by (cases "LinkSetXdpFd n t l (-1)")
    show ?thesis
    proof (cases e)
      case None
      with assms a set obtain k where "gone n ifx (look_state n ifx k t')" unfolding removal_shows_def by blast
      from wait_detached_returns [OF this] Pair Inr None set show ?thesis by (auto simp: removeProgram_def)
    next
      case (Some f)
      with Pair Inr set show ?thesis by (simp add: removeProgram_def)
    qed
  qed
qed

lemma Attach_Detach_return:
  assumes "removal_shows n ifx"
  shows "\<exists>e s'. Detach n s ifx = Some (e, s')" and "\<exists>e s'. Attach n s ifx f = Some (e, s')"
proof -
  from removeProgram_returns [OF assms] obtain e t where R: "removeProgram n s ifx = Some (e, t)" by blast
  then show "\<exists>e s'. Detach n s ifx = Some (e, s')" by (simp add: Detach_def)
  from R show "\<exists>e s'. Attach n s ifx f = Some (e, s')" by (cases e) (auto simp: Attach_def)
qed

end

text \<open>
  Two interfaces, 2 and 3, for the witnesses: the program of each, and the removals that take effect
  with the next second.
\<close>

type_synonym demo_links = "(int \<Rightarrow> int option) \<times> int list"

definition demo_link :: "demo_links netlink" where
  "demo_link = \<lparr>
     LinkByIndex = (\<lambda>s i. (if i = 2 \<or> i = 3
       then Inr \<lparr>Attrs = Some \<lparr>Index = i, Xdp = Some \<lparr>Attached = (fst s i \<noteq> None)\<rparr>\<rparr>\<rparr> else Inl (Errno 19), s)),
     LinkSetXdpFd = (\<lambda>(c, r) l f. case Attrs l of None \<Rightarrow> (Some (Errno 22), (c, r))
       | Some a \<Rightarrow> (None, (c, Index a # r))),
     LinkSetXdpFdWithFlags = (\<lambda>(c, r) l f fl. case Attrs l of None \<Rightarrow> (Some (Errno 22), (c, r))
       | Some a \<Rightarrow> (None, (c(Index a \<mapsto> f), removeAll (Index a) r))),
     Sleep = (\<lambda>(c, r). (\<lambda>i. if i \<in> set r then None else c i, []))\<rparr>"

interpretation demo_link: xdp_link demo_link fst
  by unfold_locales (auto simp: demo_link_def isXdpAttached_def split: if_splits option.splits)

lemma demo_removal_shows: "removal_shows demo_link ifx"
  unfolding removal_shows_def
  by (intro allI impI exI [of _ 1])
    (auto simp: demo_link_def gone_def isXdpAttached_def split: option.splits prod.splits)

section \<open>Properties\<close>

lemma env_redirect_ok: "redirect_ok (maps_env socks qs)"
  by (simp add: redirect_ok_def maps_env_def bpf_redirect_map_decl_def)

lemma sock_prog_maps:
  assumes "ctx_ok c" and "net_uapi_ok u" and "qs (rx_queue_index (md c)) = Some v" and "v \<noteq> 0"
    and "socks (rx_queue_index (md c)) \<noteq> None"
  shows "xdp_sock_prog u bo (maps_env socks qs) c = Inr (xdp_code XDP_REDIRECT) \<longleftrightarrow>
    (\<exists>off. classify u (pkt c) = Tcp off \<and> dest_port u (pkt c) off = TCP_PORT)"
  using assms(3-5)
  by (auto simp: xdp_sock_prog_eq [OF assms(1,2)] sock_spec_def maps_env_def split: frame_class.splits)

text \<open>
  Registration end to end. When \<open>Register\<close> returns without error for a receive queue, the XDP
  program redirects exactly the TCP frames for port 7777 that arrive on that queue, and the socket
  map holds the given file descriptor for it; the maps' entries for all other queues are unchanged.
\<close>

lemma Register_redirects:
  assumes "socket_maps p socks qs" and "Register p s q f = (None, s')"
    and "ctx_ok c" and "net_uapi_ok u" and "rx_queue_index (md c) = to_u32 q"
  shows "(xdp_sock_prog u bo (maps_env (socks s') (qs s')) c = Inr (xdp_code XDP_REDIRECT) \<longleftrightarrow>
      (\<exists>off. classify u (pkt c) = Tcp off \<and> dest_port u (pkt c) off = TCP_PORT)) \<and>
    socks s' (to_u32 q) = Some (to_u32 f) \<and>
    (\<forall>k. k \<noteq> to_u32 q \<longrightarrow> socks s' k = socks s k \<and> qs s' k = qs s k)"
proof -
  from socket_maps.Register_maps [OF assms(1,2)] have "socks s' = (socks s)(to_u32 q \<mapsto> to_u32 f)"
    and "qs s' = (qs s)(to_u32 q \<mapsto> 1)" by simp_all
  with sock_prog_maps [OF assms(3,4), of "qs s'" 1 "socks s'"] assms(5) show ?thesis by simp
qed

lemma safe_no_abort:
  assumes "queues_safe socks qs" and "ctx_ok c" and "net_uapi_ok u"
    and "xdp_sock_prog u bo (maps_env socks qs) c = Inr (xdp_code XDP_ABORTED)"
  shows "classify u (pkt c) = Malformed"
  using assms(4) assms(1) [unfolded queues_safe_def, rule_format, of "rx_queue_index (md c)"]
  by (auto simp: xdp_sock_prog_eq [OF assms(2,3)] sock_spec_def maps_env_def
      split: option.splits frame_class.splits if_splits)

definition demo_registered :: demo_bpf where
  "demo_registered = snd (Register demo_maps demo_bpf0 0 7)"

lemmas demo_bpf_defs = demo_maps_def program_maps_def demo_lib_def demo_bpf0_def spec_of_def xsks_map_def
  qidconf_map_def MAX_SOCKS_def to_u32_def

lemma demo_Register: "Register demo_maps demo_bpf0 0 7 = (None, demo_registered)"
  by (simp add: demo_registered_def Register_def demo_bpf_defs)

text \<open>
  C11: the order of the two updates in \<open>Register\<close> is safe: if no set flag lacks a socket before, then
  the same holds between the updates and afterwards, whether \<open>Register\<close> succeeds or not, and in
  all of these states the XDP program aborts a frame only because the frame itself is malformed,
  never because a redirect finds no socket.
\<close>

theorem Register_order_safe:
  assumes "socket_maps p socks qs" and "queues_safe (socks s) (qs s)"
    and "ctx_ok c" and "net_uapi_ok u"
    and "t \<in> {s, snd (put_sockets p s (to_u32 q) (to_u32 f)), snd (Register p s q f)}"
  shows "queues_safe (socks t) (qs t) \<and>
    (xdp_sock_prog u bo (maps_env (socks t) (qs t)) c = Inr (xdp_code XDP_ABORTED) \<longrightarrow>
       classify u (pkt c) = Malformed)"
proof -
  have "Register p s q f = (fst (Register p s q f), snd (Register p s q f))" by simp
  from socket_maps.Register_safe_states [OF assms(1,2)] this assms(2,5)
  have safe: "queues_safe (socks t) (qs t)" by blast
  moreover note safe_no_abort [OF safe assms(3,4), of bo]
  ultimately show ?thesis by blast
qed

theorem Register_order_safe_witness:
  "queues_safe (d_content demo_bpf0 8) (d_content demo_bpf0 6) \<and>
   queues_safe (d_content demo_registered 8) (d_content demo_registered 6)"
proof -
  have i: "queues_safe (d_content demo_bpf0 8) (d_content demo_bpf0 6)"
    by (simp add: queues_safe_def demo_bpf0_def)
  then show ?thesis
    using Register_order_safe [OF demo_maps.socket_maps_axioms i demo_ctx_ok linux_net_uapi_ok,
        of demo_registered 0 7] by (simp add: demo_registered_def)
qed



text \<open>
  C19: attaching and detaching. If a removal requested for a link eventually shows there, or a lookup
  fails, \<open>removeProgram\<close> and with it \<open>Detach\<close> and \<open>Attach\<close> return; an error-free \<open>Detach\<close> leaves no
  program on the interface with the given index, and an error-free \<open>Attach\<close> leaves exactly the given
  program on it.
\<close>

theorem Attach_Detach_correct:
  assumes "xdp_link n cur" and "removal_shows n ifx"
  shows "(\<exists>e s'. Detach n s ifx = Some (e, s') \<and> (e = None \<longrightarrow> cur s' ifx = None)) \<and>
    (\<exists>e s'. Attach n s ifx f = Some (e, s') \<and> (e = None \<longrightarrow> cur s' ifx = Some f))"
  using xdp_link.Attach_Detach_return [OF assms] xdp_link.removeProgram_cur [OF assms(1)]
    xdp_link.Attach_cur [OF assms(1)] by (metis Detach_def)

theorem Attach_Detach_correct_witness:
  "\<exists>e s'. Attach demo_link ((\<lambda>_. Some 9), []) 2 5 = Some (e, s') \<and> (e = None \<longrightarrow> fst s' 2 = Some 5)"
  using Attach_Detach_correct [OF demo_link.xdp_link_axioms demo_removal_shows, where s = "((\<lambda>_. Some 9), [])" and f = 5]
  by blast

text \<open>
  C21: what \<open>NewProgram\<close> leaves open. A failure of the first step opens no map; when the second map cannot
  be created the first one stays open, and when loading fails both stay open, although the caller gets
  no \<open>Program\<close> to close. When \<open>NewProgram\<close> succeeds, an error-free \<open>Close\<close> of its \<open>Program\<close> leaves
  exactly the maps open that were open before.
\<close>

theorem NewProgram_leaks:
  assumes "ebpf_maps lib content kind" and "NewProgram lib s n = (r, s')"
  shows "(\<forall>e. r = Inl e \<longrightarrow> (\<exists>left. dom (kind s') = dom (kind s) \<union> left \<and> dom (kind s) \<inter> left = {} \<and>
      card left = (case e of New_Qidconf_Failed _ \<Rightarrow> 0 | New_Xsks_Failed _ \<Rightarrow> 1 | New_Program_Failed _ \<Rightarrow> 2))) \<and>
    (\<forall>g g' s''. r = Inr g \<and> Program_Close lib s' g = (None, g', s'') \<longrightarrow> kind s'' = kind s)"
proof (intro conjI allI impI; (elim conjE)?)
  note k = ebpf_maps.NewProgram_kind [OF assms]
  fix e assume r: "r = Inl e"
  show "\<exists>left. dom (kind s') = dom (kind s) \<union> left \<and> dom (kind s) \<inter> left = {} \<and>
      card left = (case e of New_Qidconf_Failed _ \<Rightarrow> 0 | New_Xsks_Failed _ \<Rightarrow> 1 | New_Program_Failed _ \<Rightarrow> 2)"
  proof (cases e)
    case (New_Qidconf_Failed n)
    with k r show ?thesis by (intro exI [of _ "{}"]) simp
  next
    case (New_Xsks_Failed n)
    with k r obtain q where "kind s q = None" "kind s' = (kind s)(q \<mapsto> 2)" by auto
    with New_Xsks_Failed show ?thesis by (intro exI [of _ "{q}"]) auto
  next
    case (New_Program_Failed n)
    with k r obtain q x where "q \<noteq> x" "kind s q = None" "kind s x = None" "kind s' = (kind s)(q \<mapsto> 2, x \<mapsto> 17)" by auto
    with New_Program_Failed show ?thesis by (intro exI [of _ "{q, x}"]) auto
  qed
next
  fix g g' s'' assume r: "r = Inr g" and c: "Program_Close lib s' g = (None, g', s'')"
  from ebpf_maps.NewProgram_kind [OF assms] r obtain p q x where
    g: "g = \<lparr>Program = Some p, Queues = Some q, Sockets = Some x\<rparr>" "q \<noteq> x" "kind s q = None" "kind s x = None"
      "kind s' = (kind s)(q \<mapsto> 2, x \<mapsto> 17)" by auto
  from ebpf_maps.Program_Close_kind [OF assms(1) c [unfolded g(1)]] g show "kind s'' = kind s"
    by (auto simp: fun_eq_iff)
qed

theorem NewProgram_leaks_witness:
  "\<exists>e s'. NewProgram demo_lib demo_bpf0 64 = (Inl (New_Xsks_Failed e), s') \<and>
     dom (d_kind s') \<noteq> dom (d_kind demo_bpf0)"
proof -
  have "\<exists>e s'. NewProgram demo_lib demo_bpf0 64 = (Inl (New_Xsks_Failed e), s')"
    by (simp add: NewProgram_def demo_bpf_defs fresh_handle_def Let_def)
  then obtain e s' where n: "NewProgram demo_lib demo_bpf0 64 = (Inl (New_Xsks_Failed e), s')" by blast
  from NewProgram_leaks [OF demo_lib.ebpf_maps_axioms n] obtain left where
    "dom (d_kind s') = dom (d_kind demo_bpf0) \<union> left" "dom (d_kind demo_bpf0) \<inter> left = {}" "card left = 1" by auto
  moreover from this(3) have "left \<noteq> {}" by auto
  ultimately have "dom (d_kind s') \<noteq> dom (d_kind demo_bpf0)" by blast
  with n show ?thesis by blast
qed

end
