(* ===== verification/Xdp_Registry.thy ===== *)
theory Xdp_Registry
  imports Xdp_Program
begin

text \<open>
  Several sockets that share one \<open>Program\<close>: sequences of calls of \<open>Register\<close> and \<open>Unregister\<close>
  (\<^verbatim>\<open>program.go\<close>), each of which may succeed or fail, and what the XDP program does with the frames of
  every queue after them.
\<close>

section \<open>Calls and their effect\<close>








section \<open>Properties\<close>



end
