(* ===== verification/Xdp_Loaders.thy ===== *)
theory Xdp_Loaders
  imports Xdp_Program
begin

text \<open>
  From the embedded object file to a \<open>Program\<close>: the code that \<open>bpf2go\<close> has generated into
  \<^verbatim>\<open>src/ebpf/tcpsyn_bpfel.go\<close> (the big-endian copies embed another object and are otherwise
  equal) and \<open>NewTCPSynProgram\<close> of \<^verbatim>\<open>src/ebpf/tcp_syn_kern.go\<close>, for both programs; and the search
  for the network link with which both \<open>main\<close> functions begin. The library \<^verbatim>\<open>cilium/ebpf\<close> is a
  parameter: reading a collection from bytes, and loading it with the names of programs and maps
  resolved.
\<close>

section \<open>Generated loaders\<close>

text \<open>\<open>tcpsynObjects\<close> of \<^verbatim>\<open>dumpframes\<close>, its embedded structures inlined, and of \<^verbatim>\<open>perf_event\<close>.\<close>

record ('p, 'm) tcpsynObjects =
  XdpSockProg :: 'p
  QidconfMap :: 'm
  XsksMap :: 'm

record ('p, 'm) tcpsynEventObjects =
  PerfEventTest :: 'p
  EventsMap :: 'm

datatype tcpsyn_error = Cant_Load_Tcpsyn errno | Load_And_Assign errno

definition loadTcpsyn :: "(u8 list \<Rightarrow> errno + 'spec) \<Rightarrow> u8 list \<Rightarrow> tcpsyn_error + 'spec" where
  "loadTcpsyn read_spec TcpsynBytes =
     (case read_spec TcpsynBytes of Inl e \<Rightarrow> Inl (Cant_Load_Tcpsyn e) | Inr spec \<Rightarrow> Inr spec)"

definition loadTcpsynObjects ::
  "(u8 list \<Rightarrow> errno + 'spec) \<Rightarrow> ('spec \<Rightarrow> 'o option \<Rightarrow> errno + 'objs) \<Rightarrow> u8 list \<Rightarrow> 'o option \<Rightarrow>
   tcpsyn_error + 'objs" where
  "loadTcpsynObjects read_spec load_assign TcpsynBytes opts =
     (case loadTcpsyn read_spec TcpsynBytes of
        Inl e \<Rightarrow> Inl e
      | Inr spec \<Rightarrow> (case load_assign spec opts of Inl e \<Rightarrow> Inl (Load_And_Assign e) | Inr obj \<Rightarrow> Inr obj))"

text \<open>
  \<open>_TcpsynClose\<close> over a list of closers, each given by its result and the parts it has closed, stops
  at the first error. The parts that have been closed are returned with the error.
\<close>

fun TcpsynClose :: "(errno option \<times> 'c list) list \<Rightarrow> errno option \<times> 'c list" where
  "TcpsynClose [] = (None, [])"
| "TcpsynClose ((r, parts) # closers) =
     (case r of
        Some err \<Rightarrow> (Some err, parts)
      | None \<Rightarrow> (let (e, ps) = TcpsynClose closers in (e, parts @ ps)))"

text \<open>The parts of a collection, and closing one of them.\<close>

datatype ('p, 'm) part = Prog 'p | Map 'm

definition part_closer :: "(('p, 'm) part \<Rightarrow> errno option) \<Rightarrow> ('p, 'm) part \<Rightarrow> errno option \<times> ('p, 'm) part list" where
  "part_closer close c = (close c, if close c = None then [c] else [])"

definition tcpsynObjects_Close ::
  "(('p, 'm) part \<Rightarrow> errno option) \<Rightarrow> ('p, 'm) tcpsynObjects \<Rightarrow> errno option \<times> ('p, 'm) part list" where
  "tcpsynObjects_Close close x =
     TcpsynClose
       [TcpsynClose [part_closer close (Prog (XdpSockProg x))],
        TcpsynClose [part_closer close (Map (QidconfMap x)), part_closer close (Map (XsksMap x))]]"

text \<open>The same for the objects of \<^verbatim>\<open>perf_event\<close>.\<close>

definition tcpsynEventObjects_Close ::
  "(('p, 'm) part \<Rightarrow> errno option) \<Rightarrow> ('p, 'm) tcpsynEventObjects \<Rightarrow> errno option \<times> ('p, 'm) part list" where
  "tcpsynEventObjects_Close close x =
     TcpsynClose
       [TcpsynClose [part_closer close (Prog (PerfEventTest x))],
        TcpsynClose [part_closer close (Map (EventsMap x))]]"

section \<open>The program structures\<close>

definition NewTCPSynProgram ::
  "(u8 list \<Rightarrow> errno + 'spec) \<Rightarrow> ('spec \<Rightarrow> 'o option \<Rightarrow> errno + ('p, 'm) tcpsynObjects) \<Rightarrow> u8 list \<Rightarrow>
   'o option \<Rightarrow> tcpsyn_error + ('p, 'm) program" where
  "NewTCPSynProgram read_spec load_assign TcpsynBytes options_arg =
     (case loadTcpsyn read_spec TcpsynBytes of
        Inl e \<Rightarrow> Inl e
      | Inr spec \<Rightarrow>
          (case load_assign spec options_arg of
             Inl e \<Rightarrow> Inl (Load_And_Assign e)
           | Inr p \<Rightarrow> Inr \<lparr>Program = Some (XdpSockProg p), Queues = Some (QidconfMap p),
                          Sockets = Some (XsksMap p)\<rparr>))"

definition NewTCPSynEventProgram ::
  "(u8 list \<Rightarrow> errno + 'spec) \<Rightarrow> ('spec \<Rightarrow> 'o option \<Rightarrow> errno + ('p, 'm) tcpsynEventObjects) \<Rightarrow> u8 list \<Rightarrow>
   'o option \<Rightarrow> tcpsyn_error + ('p, 'm) event_program" where
  "NewTCPSynEventProgram read_spec load_assign TcpsynBytes options_arg =
     (case loadTcpsyn read_spec TcpsynBytes of
        Inl e \<Rightarrow> Inl e
      | Inr spec \<Rightarrow>
          (case load_assign spec options_arg of
             Inl e \<Rightarrow> Inl (Load_And_Assign e)
           | Inr p \<Rightarrow> Inr \<lparr>EvProgram = Some (PerfEventTest p), Events = Some (EventsMap p)\<rparr>))"

section \<open>The network link\<close>

record iface =
  IfName :: string
  IfIndex :: int

text \<open>The loop over \<open>net.Interfaces()\<close>, started with the index found so far.\<close>

fun find_link :: "string \<Rightarrow> iface list \<Rightarrow> int \<Rightarrow> int" where
  "find_link linkName [] Ifindex = Ifindex"
| "find_link linkName (i # is') Ifindex =
     (if IfName i = linkName then IfIndex i else find_link linkName is' Ifindex)"

section \<open>What they return\<close>

lemma find_link_first:
  "find_link n l d = (case find (\<lambda>i. IfName i = n) l of None \<Rightarrow> d | Some i \<Rightarrow> IfIndex i)"
  by (induction l) auto

lemma NewTCPSynProgram_objects:
  "NewTCPSynProgram rd la b opts =
   (case loadTcpsynObjects rd la b opts of
      Inl e \<Rightarrow> Inl e
    | Inr x \<Rightarrow> Inr \<lparr>Program = Some (XdpSockProg x), Queues = Some (QidconfMap x), Sockets = Some (XsksMap x)\<rparr>)"
  by (simp add: NewTCPSynProgram_def loadTcpsynObjects_def split: sum.splits)

lemma NewTCPSynProgram_parts:
  "NewTCPSynProgram rd la b opts = Inr g \<Longrightarrow>
   \<exists>x. loadTcpsynObjects rd la b opts = Inr x \<and> Program g = Some (XdpSockProg x) \<and>
     Queues g = Some (QidconfMap x) \<and> Sockets g = Some (XsksMap x)"
  by (auto simp: NewTCPSynProgram_objects split: sum.splits)

text \<open>\<open>Program.Close\<close> drops all parts, whether they could be closed or not.\<close>

lemma Program_Close_all:
  "Program_Close lib w g = (e, g', w') \<Longrightarrow> g' = \<lparr>Program = None, Queues = None, Sockets = None\<rparr>"
  by (cases g) (auto simp: Program_Close_def split: prod.splits)

lemma Event_Program_Close_all:
  "Event_Program_Close lib w g = (e, g', w') \<Longrightarrow> g' = \<lparr>EvProgram = None, Events = None\<rparr>"
  by (cases g) (auto simp: Event_Program_Close_def split: prod.splits)

text \<open>Closing maps and programs does not detach a program from a link.\<close>

locale closing_link = xdp_link n cur for n :: "'w netlink" and cur :: "'w \<Rightarrow> int \<Rightarrow> int option" +
  fixes lib :: "('w, 'm, 'p) ebpf_lib"
  assumes map_close_cur: "map_close lib w m = (e, w') \<Longrightarrow> cur w' = cur w"
    and prog_close_cur: "prog_close lib w g = (e, w') \<Longrightarrow> cur w' = cur w"
begin

lemma close_part_cur:
  "close_part (map_close lib) err h (es, w) = (es', w') \<Longrightarrow> cur w' = cur w"
  "close_part (prog_close lib) err g (es, w) = (es', w') \<Longrightarrow> cur w' = cur w"
  by (auto simp: close_part_def split: option.splits prod.splits dest: map_close_cur prog_close_cur)

lemma Program_Close_cur:
  assumes "Program_Close lib w g = (e, g', w')"
  shows "cur w' = cur w"
proof -
  obtain e1 w1 where c1: "close_part (map_close lib) Close_Xsks (Sockets g) ([], w) = (e1, w1)" by fastforce
  obtain e2 w2 where c2: "close_part (map_close lib) Close_Qidconf (Queues g) (e1, w1) = (e2, w2)" by fastforce
  obtain e3 w3 where c3: "close_part (prog_close lib) Close_Program (Program g) (e2, w2) = (e3, w3)" by fastforce
  have "w' = w3" using assms by (simp add: Program_Close_def c1 c2 c3)
  with close_part_cur(1) [OF c1] close_part_cur(1) [OF c2] close_part_cur(2) [OF c3] show ?thesis by simp
qed

lemma Event_Program_Close_cur:
  assumes "Event_Program_Close lib w g = (e, g', w')"
  shows "cur w' = cur w"
proof -
  obtain e1 w1 where c1: "close_part (map_close lib) Close_Xsks (Events g) ([], w) = (e1, w1)" by fastforce
  obtain e2 w2 where c2: "close_part (prog_close lib) Close_Program (EvProgram g) (e1, w1) = (e2, w2)" by fastforce
  have "w' = w2" using assms by (simp add: Event_Program_Close_def c1 c2)
  with close_part_cur(1) [OF c1] close_part_cur(2) [OF c2] show ?thesis by simp
qed

end

text \<open>The generated \<open>Close\<close> gives up instead: a program that does not close keeps its maps open.\<close>

lemma tcpsynObjects_Close_stops:
  "close (Prog (XdpSockProg x)) = Some e \<Longrightarrow> tcpsynObjects_Close close x = (Some e, [])"
  by (simp add: tcpsynObjects_Close_def part_closer_def)

lemma tcpsynObjects_Close_ok:
  "fst (tcpsynObjects_Close close x) = None \<Longrightarrow>
   snd (tcpsynObjects_Close close x) = [Prog (XdpSockProg x), Map (QidconfMap x), Map (XsksMap x)]"
  by (auto simp: tcpsynObjects_Close_def part_closer_def split: option.splits if_splits)

lemma tcpsynEventObjects_Close_stops:
  "close (Prog (PerfEventTest x)) = Some e \<Longrightarrow> tcpsynEventObjects_Close close x = (Some e, [])"
  by (simp add: tcpsynEventObjects_Close_def part_closer_def)

lemma tcpsynEventObjects_Close_ok:
  "fst (tcpsynEventObjects_Close close x) = None \<Longrightarrow>
   snd (tcpsynEventObjects_Close close x) = [Prog (PerfEventTest x), Map (EventsMap x)]"
  by (auto simp: tcpsynEventObjects_Close_def part_closer_def split: option.splits if_splits)

end
