(* ===== verification/Object_File.thy ===== *)
theory Object_File
  imports Xdp_Loaders Xdp_Event_Prog
begin

text \<open>
  What the two compiled programs put into their object files: the macro \<open>SEC\<close> of \<^verbatim>\<open>bpf_helpers.h\<close> with
  its uses in the two \<^verbatim>\<open>tcp_syn_kern.c\<close>, and the tags of the structures that \<open>bpf2go\<close> has generated. The
  library that reads object files is a parameter of \<^verbatim>\<open>Xdp_Loaders\<close>; here it is only shown that the names
  it is asked for are there.
\<close>

section \<open>Sections and symbols\<close>

datatype obj_data = Prog_Code | Map_Def bpf_map_def | Text string

text \<open>A symbol with attributes goes into the section they name, or into \<open>.text\<close>.\<close>

definition place :: "attribute list \<Rightarrow> string \<times> obj_data \<Rightarrow> string \<times> string \<times> obj_data" where
  "place attrs symbol = (section_of ''.text'' attrs, symbol)"

definition sock_object :: "(string \<times> string \<times> obj_data) list" where
  "sock_object =
     [place (SEC ''maps'') (''xsks_map'', Map_Def xsks_map),
      place (SEC ''maps'') (''qidconf_map'', Map_Def qidconf_map),
      place (SEC ''xdp_sock'') (''xdp_sock_prog'', Prog_Code),
      place (SEC ''license'') (''__license'', Text ''GPL'')]"

definition event_object :: "(string \<times> string \<times> obj_data) list" where
  "event_object =
     [place (SEC ''maps'') (''events'', Map_Def events_map),
      place (SEC ''xdp_event'') (''perf_event_test'', Prog_Code),
      place (SEC ''license'') (''__license'', Text ''GPL'')]"

section \<open>Tags\<close>

text \<open>The members of the generated structures with the tags that say what is assigned to them.\<close>

definition tcpsynProgramSpecs :: "(string \<times> string) list" where
  "tcpsynProgramSpecs = [(''XdpSockProg'', ''xdp_sock_prog'')]"

definition tcpsynMapSpecs :: "(string \<times> string) list" where
  "tcpsynMapSpecs = [(''QidconfMap'', ''qidconf_map''), (''XsksMap'', ''xsks_map'')]"

definition tcpsynEventProgramSpecs :: "(string \<times> string) list" where
  "tcpsynEventProgramSpecs = [(''PerfEventTest'', ''perf_event_test'')]"

definition tcpsynEventMapSpecs :: "(string \<times> string) list" where
  "tcpsynEventMapSpecs = [(''Events'', ''events'')]"

text \<open>Every tag is the name of a function, or of a map definition, in the object file it belongs to.\<close>

lemma tags_name_symbols:
  "\<forall>(member, tag) \<in> set tcpsynProgramSpecs. \<exists>sec. (sec, tag, Prog_Code) \<in> set sock_object"
  "\<forall>(member, tag) \<in> set tcpsynMapSpecs. \<exists>d. (''maps'', tag, Map_Def d) \<in> set sock_object"
  "\<forall>(member, tag) \<in> set tcpsynEventProgramSpecs. \<exists>sec. (sec, tag, Prog_Code) \<in> set event_object"
  "\<forall>(member, tag) \<in> set tcpsynEventMapSpecs. \<exists>d. (''maps'', tag, Map_Def d) \<in> set event_object"
  by (simp_all add: tcpsynProgramSpecs_def tcpsynMapSpecs_def tcpsynEventProgramSpecs_def tcpsynEventMapSpecs_def
      sock_object_def event_object_def place_def attribute_macros)

end
