(* ===== verification/Dump_Main.thy ===== *)
theory Dump_Main
  imports Dump_Loop Xdp_Loaders
begin

text \<open>
  The function \<open>main\<close> of \<^verbatim>\<open>dumpframes/src/dumpframes.go\<close> from the search for the link to the
  receive loop, with its deferred calls. The link, the maps and everything else outside the process
  form one state, on which the operations of \<^verbatim>\<open>Xdp_Program\<close> act.
\<close>

section \<open>The program\<close>

datatype main_exit =
    Running | No_Interfaces errno | No_Suitable_Link | Create_Failed tcpsyn_error | Attach_Failed link_error
  | New_Socket_Failed new_error | Register_Failed map_error | Poll_Failed errno | Crashed go_panic

text \<open>What \<open>main\<close> calls.\<close>

record ('w, 'spec, 'p, 'm) dump_env =
  env_link :: "'w netlink"
  env_lib :: "('w, 'm, 'p) ebpf_lib"
  env_interfaces :: "errno + iface list"
  env_read_spec :: "u8 list \<Rightarrow> errno + 'spec"
  env_load_assign :: "'spec \<Rightarrow> unit option \<Rightarrow> errno + ('p, 'm) tcpsynObjects"
  env_object_file :: "u8 list"
  env_fd :: "'p \<Rightarrow> int"
  env_sys :: sys

text \<open>
  The part after the program is attached; \<open>Unregister\<close> is deferred once \<open>Register\<close> has succeeded, and
  both act on the maps of the \<open>Program\<close>. The frames are those that the loop hands to the printing code.
\<close>

definition main_socket ::
  "('w, 'spec, 'p, 'm) dump_env \<Rightarrow> ('p, 'm) program \<Rightarrow> int \<Rightarrow> int \<Rightarrow> poll_answers list \<Rightarrow> 'w \<Rightarrow>
   main_exit \<times> u8 list list \<times> 'w" where
  "main_socket env program Ifindex queueID polls w =
     (case fst (NewSocket (env_sys env) Ifindex queueID None no_resources) of
        Inl e \<Rightarrow> (Crashed e, [], w)
      | Inr (Inl e) \<Rightarrow> (New_Socket_Failed e, [], w)
      | Inr (Inr xsk) \<Rightarrow>
          (case (Sockets program, Queues program) of
             (Some sockets, Some queues) \<Rightarrow>
               (let maps = program_maps (env_lib env) sockets queues in
                case Register maps w queueID (FD xsk) of
                  (Some e, w) \<Rightarrow> (Register_Failed e, [], w)
                | (None, w) \<Rightarrow>
                    (case dump_loop xsk polls of
                       (frames, Still_Running, _) \<Rightarrow> (Running, frames, w)
                     | (frames, Loop_Error e, _) \<Rightarrow> (Poll_Failed e, frames, snd (Unregister maps w queueID))
                     | (frames, Loop_Panic e, _) \<Rightarrow> (Crashed e, frames, snd (Unregister maps w queueID))))
           | _ \<Rightarrow> (Crashed Nil_Dereference, [], w)))"

text \<open>
  \<open>None\<close> is a run that hangs in \<open>removeProgram\<close>. \<open>program.Detach\<close> is deferred after \<open>program.Close\<close> and
  therefore called before it; the results of both are dropped. The result carries the program structure
  as it is left, where there is one; \<open>NewTCPSynProgram\<close> always sets its members.
\<close>

definition dump_main ::
  "('w, 'spec, 'p, 'm) dump_env \<Rightarrow> string \<Rightarrow> int \<Rightarrow> poll_answers list \<Rightarrow> 'w \<Rightarrow>
   (main_exit \<times> u8 list list \<times> 'w \<times> ('p, 'm) program option) option" where
  "dump_main env linkName queueID polls w =
     (case env_interfaces env of
        Inl e \<Rightarrow> Some (No_Interfaces e, [], w, None)
      | Inr interfaces \<Rightarrow>
          (let Ifindex = find_link linkName interfaces (-1) in
           if Ifindex = -1 then Some (No_Suitable_Link, [], w, None)
           else
             (case NewTCPSynProgram (env_read_spec env) (env_load_assign env) (env_object_file env) None of
                Inl e \<Rightarrow> Some (Create_Failed e, [], w, None)
              | Inr program \<Rightarrow>
                  (let close = (\<lambda>r frames w. case Program_Close (env_lib env) w program of
                                  (_, program, w) \<Rightarrow> Some (r, frames, w, Some program)) in
                   case Program program of
                     None \<Rightarrow> close (Crashed Nil_Dereference) [] w
                   | Some prog \<Rightarrow>
                       (case Attach (env_link env) w Ifindex (env_fd env prog) of
                          None \<Rightarrow> None
                        | Some (Some e, w) \<Rightarrow> close (Attach_Failed e) [] w
                        | Some (None, w) \<Rightarrow>
                            (case main_socket env program Ifindex queueID polls w of
                               (Running, frames, w) \<Rightarrow> Some (Running, frames, w, Some program)
                             | (r, frames, w) \<Rightarrow>
                                 (case Detach (env_link env) w Ifindex of
                                    None \<Rightarrow> None
                                  | Some (_, w) \<Rightarrow> close r frames w)))))))"

section \<open>The outside world\<close>

text \<open>
  One state with the links and the maps: operations on maps and programs do not attach or detach
  anything.
\<close>

locale dump_world = closing_link n cur lib + ebpf_maps lib content kind
  for n :: "'w netlink" and cur :: "'w \<Rightarrow> int \<Rightarrow> int option"
    and lib :: "('w, 'm, 'p) ebpf_lib" and content :: "'w \<Rightarrow> 'm \<Rightarrow> u32 \<Rightarrow> u32 option" and kind :: "'w \<Rightarrow> 'm \<Rightarrow> nat option" +
  assumes map_put_cur: "map_put lib w m k v = (e, w') \<Longrightarrow> cur w' = cur w"
begin

lemma Register_cur: "Register (program_maps lib sm qm) w q f = (e, w') \<Longrightarrow> cur w' = cur w"
  by (auto simp: Register_def program_maps_def split: prod.splits option.splits dest!: map_put_cur)

text \<open>The state in which the loop runs.\<close>

lemma main_socket_running:
  assumes "env_lib env = lib" and "main_socket env prog ifx queueID polls w = (Running, frames, w')"
    and "Sockets prog = Some sm" and "Queues prog = Some qm"
  shows "cur w' = cur w \<and> (\<exists>xsk res x. NewSocket (env_sys env) ifx queueID None no_resources = (Inr (Inr xsk), res) \<and>
    Register (program_maps lib sm qm) w queueID (FD xsk) = (None, w') \<and> dump_loop xsk polls = (frames, Still_Running, x))"
proof -
  obtain r res where n: "NewSocket (env_sys env) ifx queueID None no_resources = (r, res)" by fastforce
  with assms(2) obtain xsk where r: "r = Inr (Inr xsk)" by (auto simp: main_socket_def split: sum.splits)
  with n assms obtain x where "Register (program_maps lib sm qm) w queueID (FD xsk) = (None, w')"
    "dump_loop xsk polls = (frames, Still_Running, x)"
    by (auto simp: main_socket_def Let_def split: prod.splits option.splits loop_end.splits)
  with n r Register_cur show ?thesis by blast
qed

end

text \<open>The links and the maps side by side, for the witnesses.\<close>

type_synonym demo_world = "demo_links \<times> demo_bpf"

definition demo_world_link :: "demo_world netlink" where
  "demo_world_link = \<lparr>
     LinkByIndex = (\<lambda>(l, m) i. let (r, l) = LinkByIndex demo_link l i in (r, (l, m))),
     LinkSetXdpFd = (\<lambda>(l, m) k f. let (r, l) = LinkSetXdpFd demo_link l k f in (r, (l, m))),
     LinkSetXdpFdWithFlags = (\<lambda>(l, m) k f fl. let (r, l) = LinkSetXdpFdWithFlags demo_link l k f fl in (r, (l, m))),
     Sleep = (\<lambda>(l, m). (Sleep demo_link l, m))\<rparr>"

definition demo_world_lib :: "(demo_world, int, int) ebpf_lib" where
  "demo_world_lib = \<lparr>
     map_put = (\<lambda>(l, b) m k v. let (r, b) = map_put demo_lib b m k v in (r, (l, b))),
     map_delete = (\<lambda>(l, b) m k. let (r, b) = map_delete demo_lib b m k in (r, (l, b))),
     map_close = (\<lambda>(l, b) m. let (r, b) = map_close demo_lib b m in (r, (l, b))),
     map_fd = map_fd demo_lib,
     new_map = (\<lambda>(l, b) sp. let (r, b) = new_map demo_lib b sp in (r, (l, b))),
     new_program = (\<lambda>(l, b) is. let (r, b) = new_program demo_lib b is in (r, (l, b))),
     prog_close = (\<lambda>(l, b) g. let (r, b) = prog_close demo_lib b g in (r, (l, b)))\<rparr>"

interpretation world: dump_world demo_world_link "fst \<circ> fst" demo_world_lib "d_content \<circ> snd" "d_kind \<circ> snd"
proof -
  have "xdp_link demo_world_link (fst \<circ> fst)"
    by unfold_locales (auto simp: demo_world_link_def split: prod.splits
        dest: demo_link.by_index_law demo_link.set_flags_law)
  moreover have "ebpf_maps demo_world_lib (d_content \<circ> snd) (d_kind \<circ> snd)"
    by unfold_locales (auto simp: demo_world_lib_def split: prod.splits
        dest: demo_lib.put_law demo_lib.delete_law demo_lib.delete_array_law demo_lib.new_map_law
          demo_lib.new_map_fail_law demo_lib.new_program_law demo_lib.map_close_law demo_lib.prog_close_law)
  ultimately show "dump_world demo_world_link (fst \<circ> fst) demo_world_lib (d_content \<circ> snd) (d_kind \<circ> snd)"
    by (intro dump_world.intro dump_world_axioms.intro closing_link.intro closing_link_axioms.intro) (auto simp: demo_world_lib_def split: prod.splits)
qed

section \<open>Runs of the program\<close>

lemma dump_main_attached:
  assumes "env_interfaces env = Inr l" and "find_link linkName l (-1) = ifx"
    and "dump_main env linkName queueID polls w = Some (Running, frames, w', g)"
  shows "\<exists>x w1. loadTcpsynObjects (env_read_spec env) (env_load_assign env) (env_object_file env) None = Inr x \<and>
    Attach (env_link env) w ifx (env_fd env (XdpSockProg x)) = Some (None, w1) \<and>
    main_socket env \<lparr>Program = Some (XdpSockProg x), Queues = Some (QidconfMap x), Sockets = Some (XsksMap x)\<rparr>
      ifx queueID polls w1 = (Running, frames, w')"
  using assms
  by (auto simp: dump_main_def Let_def NewTCPSynProgram_objects
      split: if_splits sum.splits option.splits prod.splits main_exit.splits)

lemma NewSocket_default: "NewSocket s i q None res = NewSocket s i q (Some DefaultSocketOptions) res"
  by (simp add: NewSocket_def)

lemma default_socket_ok:
  assumes "NewSocket s i q None res = (Inr (Inr xsk), res')"
  shows "conserved \<lparr>sock = xsk, rx_held = [], tx_held = []\<rparr>" and "delivered xsk" and "rx_queue xsk = []"
proof -
  have o: "opts_ok DefaultSocketOptions" "ring_opts DefaultSocketOptions"
    "FillRingNumDescs DefaultSocketOptions \<le> NumFrames DefaultSocketOptions"
    using ring_size_64 by (simp_all add: opts_ok_def ring_opts_def DefaultSocketOptions_def)
  have "0 < RxRingNumDescs DefaultSocketOptions" "0 < TxRingNumDescs DefaultSocketOptions"
    by (simp_all add: DefaultSocketOptions_def)
  from NewSocket_Inr [OF assms [unfolded NewSocket_default] this] obtain f where
    x: "xsk = new_socket f i DefaultSocketOptions" by blast
  from new_socket_conserved [OF o] x
  show "conserved \<lparr>sock = xsk, rx_held = [], tx_held = []\<rparr>" "delivered xsk" by simp_all
  show "rx_queue xsk = []"
    using o(2) by (simp add: x new_socket_def ring_opts_def mapped_ring_view)
qed

text \<open>The exits that lie after a successful \<open>Attach\<close>.\<close>

fun after_attach :: "main_exit \<Rightarrow> bool" where
  "after_attach (New_Socket_Failed e) \<longleftrightarrow> True"
| "after_attach (Register_Failed e) \<longleftrightarrow> True"
| "after_attach (Poll_Failed e) \<longleftrightarrow> True"
| "after_attach (Crashed e) \<longleftrightarrow> True"
| "after_attach r \<longleftrightarrow> False"

lemma main_socket_exits: "main_socket env g i q polls w = (r, frames, w') \<Longrightarrow> r = Running \<or> after_attach r"
  by (auto simp: main_socket_def Let_def split: sum.splits prod.splits option.splits loop_end.splits)

text \<open>The end of \<open>main\<close>, from the call of \<open>Attach\<close> on.\<close>

lemma dump_main_from_attach:
  assumes "env_interfaces env = Inr l" and "find_link linkName l (-1) = ifx" and "ifx \<noteq> -1"
    and "NewTCPSynProgram (env_read_spec env) (env_load_assign env) (env_object_file env) None = Inr prog"
    and "Program prog = Some x"
  shows "dump_main env linkName queueID polls w =
    (let close = (\<lambda>r frames w. case Program_Close (env_lib env) w prog of (_, g, w) \<Rightarrow> Some (r, frames, w, Some g)) in
     case Attach (env_link env) w ifx (env_fd env x) of
       None \<Rightarrow> None
     | Some (Some e, w) \<Rightarrow> close (Attach_Failed e) [] w
     | Some (None, w) \<Rightarrow>
         (case main_socket env prog ifx queueID polls w of
            (r, frames, w) \<Rightarrow>
              if r = Running then Some (Running, frames, w, Some prog)
              else (case Detach (env_link env) w ifx of None \<Rightarrow> None | Some (_, w) \<Rightarrow> close r frames w)))"
  using assms
  by (simp add: dump_main_def Let_def split: option.split prod.split main_exit.split)

section \<open>Properties\<close>

text \<open>
  C1: the program end to end. While \<open>main\<close> is in its receive loop, the XDP program of the object file
  is the one on the interface with the index of the link of the given name; by the contents of the two
  maps that were loaded with it, it redirects exactly the TCP frames for port 7777 that arrive on the
  given queue; the socket that the loop reads from is the one registered for this queue; and whatever
  packets the kernel puts into that socket while the program waits, the frames handed to the printing
  code are exactly these packets, each once and in order.
\<close>

theorem dump_main_end_to_end:
  assumes "dump_world (env_link env) cur (env_lib env) content kind"
    and "\<forall>spec opts x. env_load_assign env spec opts = Inr x \<longrightarrow> XsksMap x \<noteq> QidconfMap x"
    and "env_interfaces env = Inr l" and "find_link linkName l (-1) = ifx"
    and "dump_main env linkName queueID polls w = Some (Running, frames, w', g)"
    and "ctx_ok c" and "net_uapi_ok u" and "rx_queue_index (md c) = to_u32 queueID"
  shows "\<exists>x xsk res. loadTcpsynObjects (env_read_spec env) (env_load_assign env) (env_object_file env) None = Inr x \<and>
    cur w' ifx = Some (env_fd env (XdpSockProg x)) \<and>
    (xdp_sock_prog u bo (maps_env (content w' (XsksMap x)) (content w' (QidconfMap x))) c = Inr (xdp_code XDP_REDIRECT) \<longleftrightarrow>
      (\<exists>off. classify u (pkt c) = Tcp off \<and> dest_port u (pkt c) off = TCP_PORT)) \<and>
    NewSocket (env_sys env) ifx queueID None no_resources = (Inr (Inr xsk), res) \<and>
    content w' (XsksMap x) (to_u32 queueID) = Some (to_u32 (FD xsk)) \<and>
    (\<forall>ps m'. schedule \<lparr>sock = xsk, rx_held = [], tx_held = []\<rparr> polls ps m' \<longrightarrow> frames = ps)"
proof -
  have link: "xdp_link (env_link env) cur" and lib: "ebpf_maps (env_lib env) content kind"
    using assms(1) by (simp_all add: dump_world_def closing_link_def)
  from dump_main_attached [OF assms(3-5)] obtain x w1 where
    x: "loadTcpsynObjects (env_read_spec env) (env_load_assign env) (env_object_file env) None = Inr x"
    and att: "Attach (env_link env) w ifx (env_fd env (XdpSockProg x)) = Some (None, w1)"
    and run: "main_socket env \<lparr>Program = Some (XdpSockProg x), Queues = Some (QidconfMap x), Sockets = Some (XsksMap x)\<rparr>
      ifx queueID polls w1 = (Running, frames, w')" by blast
  have ne: "XsksMap x \<noteq> QidconfMap x" using x assms(2) by (auto simp: loadTcpsynObjects_def split: sum.splits)
  from dump_world.main_socket_running [OF assms(1) refl run, of "XsksMap x" "QidconfMap x"] obtain xsk res y where
    "cur w' = cur w1" and ns: "NewSocket (env_sys env) ifx queueID None no_resources = (Inr (Inr xsk), res)"
    and reg: "Register (program_maps (env_lib env) (XsksMap x) (QidconfMap x)) w1 queueID (FD xsk) = (None, w')"
    and loop: "dump_loop xsk polls = (frames, Still_Running, y)" by auto
  then have cur: "cur w' ifx = Some (env_fd env (XdpSockProg x))"
    using xdp_link.Attach_cur [OF link att] by simp
  have "socket_maps (program_maps (env_lib env) (XsksMap x) (QidconfMap x)) (\<lambda>w. content w (XsksMap x)) (\<lambda>w. content w (QidconfMap x))"
    using ebpf_maps.program_queue_maps [OF lib ne] by (simp add: queue_maps_def)
  from socket_maps.Register_maps [OF this reg] have
    m: "content w' (XsksMap x) (to_u32 queueID) = Some (to_u32 (FD xsk))" "content w' (QidconfMap x) (to_u32 queueID) = Some 1"
    by simp_all
  have red: "xdp_sock_prog u bo (maps_env (content w' (XsksMap x)) (content w' (QidconfMap x))) c = Inr (xdp_code XDP_REDIRECT) \<longleftrightarrow>
      (\<exists>off. classify u (pkt c) = Tcp off \<and> dest_port u (pkt c) off = TCP_PORT)"
    using sock_prog_maps [OF assms(6,7), of "content w' (QidconfMap x)" 1 "content w' (XsksMap x)"] assms(8) by (simp add: m)
  have "frames = ps" if "schedule \<lparr>sock = xsk, rx_held = [], tx_held = []\<rparr> polls ps m'" for ps m'
    using schedule_runs [OF that] default_socket_ok [OF ns] loop by simp
  with x cur red ns m(1) show ?thesis by blast
qed

text \<open>An environment in which everything succeeds, for the witnesses.\<close>

definition demo_main_env :: "(demo_world, unit, int, int) dump_env" where
  "demo_main_env = \<lparr>env_link = demo_world_link, env_lib = demo_world_lib,
     env_interfaces = Inr [\<lparr>IfName = ''eth0'', IfIndex = 3\<rparr>, \<lparr>IfName = ''lo'', IfIndex = 2\<rparr>],
     env_read_spec = (\<lambda>_. Inr ()), env_load_assign = (\<lambda>_ _. Inr \<lparr>XdpSockProg = 5, QidconfMap = 6, XsksMap = 8\<rparr>),
     env_object_file = [], env_fd = id, env_sys = demo_sys\<rparr>"

lemma demo_main_fields:
  "env_link demo_main_env = demo_world_link" "env_fd demo_main_env = id"
  "env_interfaces demo_main_env = Inr [\<lparr>IfName = ''eth0'', IfIndex = 3\<rparr>, \<lparr>IfName = ''lo'', IfIndex = 2\<rparr>]"
  by (simp_all add: demo_main_env_def)

lemma demo_world_link_ops:
  "LinkByIndex demo_world_link ((c, r), m) 2 =
     (Inr \<lparr>Attrs = Some \<lparr>Index = 2, Xdp = Some \<lparr>Attached = (c 2 \<noteq> None)\<rparr>\<rparr>\<rparr>, (c, r), m)"
  "Attrs l = Some a \<Longrightarrow> LinkSetXdpFd demo_world_link ((c, r), m) l f = (None, (c, Index a # r), m)"
  "Attrs l = Some a \<Longrightarrow> LinkSetXdpFdWithFlags demo_world_link ((c, r), m) l f fl =
     (None, (c(Index a \<mapsto> f), removeAll (Index a) r), m)"
  "Sleep demo_world_link ((c, r), m) = ((\<lambda>i. if i \<in> set r then None else c i, []), m)"
  by (simp_all add: demo_world_link_def demo_link_def)

lemma demo_attach: "\<exists>c. Attach demo_world_link ((\<lambda>_. Some 9, []), m) 2 5 = Some (None, (c, []), m)"
proof -
  let ?c = "\<lambda>i. if i \<in> set [2 :: int] then None else Some (9 :: int)"
  have "wait_detached demo_world_link 2 ((?c, []), m) = Some (None, (?c, []), m)"
    by (subst wait_detached.simps) (simp add: demo_world_link_ops isXdpAttached_def)
  then have "wait_detached demo_world_link 2 ((\<lambda>_. Some 9, [2]), m) = Some (None, (?c, []), m)"
    by (subst wait_detached.simps) (simp add: demo_world_link_ops isXdpAttached_def)
  then show ?thesis
    by (simp add: Attach_def removeProgram_def attachProgram_def demo_world_link_ops isXdpAttached_def)
qed

lemma demo_new_socket: "\<exists>res. NewSocket demo_sys 2 0 None no_resources = (Inr (Inr (new_socket 7 2 DefaultSocketOptions)), res)"
  by (simp add: NewSocket_def new_maps_def new_bind_def demo_sys_def go_mmap_def to_u32_def zero_socket_def go_make_def
      new_socket_def DefaultSocketOptions_def to_int_small Let_def)

lemma demo_main_runs:
  assumes "dump_loop (new_socket 7 2 DefaultSocketOptions) polls = (frames, Still_Running, x)"
  shows "\<exists>w' g. dump_main demo_main_env ''lo'' 0 polls ((\<lambda>_. Some 9, []), demo_bpf0) = Some (Running, frames, w', g)"
proof -
  let ?prog = "\<lparr>Program = Some 5, Queues = Some 6, Sockets = Some 8\<rparr>"
  obtain res where ns: "NewSocket demo_sys 2 0 None no_resources = (Inr (Inr (new_socket 7 2 DefaultSocketOptions)), res)"
    using demo_new_socket by blast
  have reg: "\<exists>w'. Register (program_maps demo_world_lib 8 6) (l, demo_bpf0) 0 f = (None, w')" for l f
    by (simp add: Register_def demo_world_lib_def demo_bpf_defs)
  have "\<exists>w'. main_socket demo_main_env ?prog 2 0 polls (l, demo_bpf0) = (Running, frames, w')" for l
    using reg [of l "FD (new_socket 7 2 DefaultSocketOptions)"]
    by (auto simp: main_socket_def demo_main_env_def ns assms)
  note soc = this
  obtain c where att: "Attach demo_world_link ((\<lambda>_. Some 9, []), demo_bpf0) 2 5 = Some (None, (c, []), demo_bpf0)"
    using demo_attach by blast
  from soc obtain w' where w': "main_socket demo_main_env ?prog 2 0 polls ((c, []), demo_bpf0) = (Running, frames, w')" by blast
  have "NewTCPSynProgram (env_read_spec demo_main_env) (env_load_assign demo_main_env) (env_object_file demo_main_env) None = Inr ?prog"
    by (simp add: demo_main_env_def NewTCPSynProgram_def loadTcpsyn_def)
  from dump_main_from_attach [OF _ _ _ this, of "[\<lparr>IfName = ''eth0'', IfIndex = 3\<rparr>, \<lparr>IfName = ''lo'', IfIndex = 2\<rparr>]" "''lo''" 2 5 0 polls
      "((\<lambda>_. Some 9, []), demo_bpf0)"] att w'
  have "dump_main demo_main_env ''lo'' 0 polls ((\<lambda>_. Some 9, []), demo_bpf0) = Some (Running, frames, w', Some ?prog)"
    by (simp add: demo_main_fields)
  then show ?thesis by blast
qed

theorem dump_main_end_to_end_witness:
  "\<exists>polls w' g. dump_main demo_main_env ''lo'' 0 polls ((\<lambda>_. Some 9, []), demo_bpf0) = Some (Running, [[42]], w', g) \<and>
     fst (fst w') 2 = Some 5 \<and>
     xdp_sock_prog linux_net_uapi Little_Endian (maps_env (d_content (snd w') 8) (d_content (snd w') 6))
       (demo_ctx 0 demo_frame) = Inr (xdp_code XDP_REDIRECT)"
proof -
  let ?x = "new_socket 7 2 DefaultSocketOptions" and ?w = "((\<lambda>_. Some 9, []), demo_bpf0) :: demo_world"
  obtain res where "NewSocket demo_sys 2 0 None no_resources = (Inr (Inr ?x), res)" using demo_new_socket by blast
  note ok = default_socket_ok [OF this]
  from one_packet_schedule [of "\<lparr>sock = ?x, rx_held = [], tx_held = []\<rparr>"] ok obtain kern m' where
    "schedule \<lparr>sock = ?x, rx_held = [], tx_held = []\<rparr> [[(None, kern)]] [[42]] m'" by auto
  from schedule_runs [OF this] ok have "dump_loop ?x [[(None, kern)]] = ([[42]], Still_Running, sock m')" by simp
  from demo_main_runs [OF this] obtain w' g where
    run: "dump_main demo_main_env ''lo'' 0 [[(None, kern)]] ?w = Some (Running, [[42]], w', g)" by blast
  have world: "dump_world (env_link demo_main_env) (fst \<circ> fst) (env_lib demo_main_env) (d_content \<circ> snd) (d_kind \<circ> snd)"
    and maps: "\<forall>spec opts x. env_load_assign demo_main_env spec opts = Inr x \<longrightarrow> XsksMap x \<noteq> QidconfMap x"
    and ifs: "env_interfaces demo_main_env = Inr [\<lparr>IfName = ''eth0'', IfIndex = 3\<rparr>, \<lparr>IfName = ''lo'', IfIndex = 2\<rparr>]"
    using world.dump_world_axioms by (simp_all add: demo_main_env_def)
  have q: "rx_queue_index (md (demo_ctx 0 demo_frame)) = to_u32 0" by (simp add: demo_ctx_def demo_md_def to_u32_def)
  have idx: "find_link ''lo'' [\<lparr>IfName = ''eth0'', IfIndex = 3\<rparr>, \<lparr>IfName = ''lo'', IfIndex = 2\<rparr>] (-1) = 2" by simp
  have load: "loadTcpsynObjects (env_read_spec demo_main_env) (env_load_assign demo_main_env) (env_object_file demo_main_env) None =
      Inr \<lparr>XdpSockProg = 5, QidconfMap = 6, XsksMap = 8\<rparr>"
    by (simp add: demo_main_env_def loadTcpsynObjects_def loadTcpsyn_def)
  have "pkt (demo_ctx 0 demo_frame) = demo_frame" "env_fd demo_main_env = id" by (simp_all add: demo_ctx_def demo_main_env_def)
  with dump_main_end_to_end [OF world maps ifs idx run demo_ctx_ok linux_net_uapi_ok q, of Little_Endian]
  have "fst (fst w') 2 = Some 5 \<and>
     xdp_sock_prog linux_net_uapi Little_Endian (maps_env (d_content (snd w') 8) (d_content (snd w') 6))
       (demo_ctx 0 demo_frame) = Inr (xdp_code XDP_REDIRECT)"
    by (auto simp: load demo_classify demo_port)
  with run show ?thesis by blast
qed

text \<open>
  C12: how the program ends. If a removal requested for the link eventually shows there, \<open>main\<close> does not
  hang: it is in its loop or it returns. Only the exits before the program is created leave nothing to
  close. Whenever it returns after the program was attached, for whatever reason, its last actions are a
  \<open>Detach\<close> from that link and then a \<open>Close\<close> of the program that was loaded, which leaves no part of it; if
  the \<open>Detach\<close> reports no error there is no program on the interface any more.
\<close>

theorem dump_main_exit:
  assumes "dump_world (env_link env) cur (env_lib env) content kind"
    and "env_interfaces env = Inr l" and "find_link linkName l (-1) = ifx" and "removal_shows (env_link env) ifx"
  shows "\<exists>r frames w' g. dump_main env linkName queueID polls w = Some (r, frames, w', g) \<and>
    (g = None \<longleftrightarrow> r = No_Suitable_Link \<or> (\<exists>e. r = Create_Failed e)) \<and>
    (r \<noteq> Running \<and> g \<noteq> None \<longrightarrow> g = Some \<lparr>Program = None, Queues = None, Sockets = None\<rparr>) \<and>
    (after_attach r \<longrightarrow> (\<exists>prog w1 e w2 c.
      NewTCPSynProgram (env_read_spec env) (env_load_assign env) (env_object_file env) None = Inr prog \<and>
      Detach (env_link env) w1 ifx = Some (e, w2) \<and> Program_Close (env_lib env) w2 prog = (c, the g, w') \<and>
      (e = None \<longrightarrow> cur w' ifx = None)))"
proof (cases "ifx = -1")
  case True
  with assms(2,3) show ?thesis by (simp add: dump_main_def)
next
  case False
  have closing: "closing_link (env_link env) cur (env_lib env)" using assms(1) by (simp add: dump_world_def)
  then have link: "xdp_link (env_link env) cur" by (simp add: closing_link_def)
  show ?thesis
  proof (cases "NewTCPSynProgram (env_read_spec env) (env_load_assign env) (env_object_file env) None")
    case (Inl e)
    with False assms(2,3) show ?thesis by (simp add: dump_main_def Let_def)
  next
    case (Inr prog)
    from NewTCPSynProgram_parts [OF Inr] obtain x where x: "Program prog = Some x" by blast
    note main = dump_main_from_attach [OF assms(2,3) False Inr x, of queueID polls w]
    from xdp_link.Attach_Detach_return(2) [OF link assms(4)] obtain e w1 where
      att: "Attach (env_link env) w ifx (env_fd env x) = Some (e, w1)" by blast
    obtain r frames w2 where soc: "main_socket env prog ifx queueID polls w1 = (r, frames, w2)"
      by (cases "main_socket env prog ifx queueID polls w1") auto
    from xdp_link.Attach_Detach_return(1) [OF link assms(4)] obtain d w3 where
      det: "Detach (env_link env) w2 ifx = Some (d, w3)" by blast
    obtain c g w4 where cl: "Program_Close (env_lib env) w3 prog = (c, g, w4)" by (cases "Program_Close (env_lib env) w3 prog")
    have g: "g = \<lparr>Program = None, Queues = None, Sockets = None\<rparr>" using Program_Close_all(1) [OF cl] .
    have cur: "d = None \<Longrightarrow> cur w4 ifx = None"
      using det xdp_link.removeProgram_cur [OF link, of w2 ifx w3] closing_link.Program_Close_cur [OF closing cl]
      by (simp add: Detach_def)
    consider (failed) e' where "e = Some e'" | (running) "e = None" "r = Running"
      | (ended) "e = None" "r \<noteq> Running" "after_attach r" using main_socket_exits [OF soc] by (cases e) auto
    then show ?thesis
    proof cases
      case failed
      obtain c g w4 where "Program_Close (env_lib env) w1 prog = (c, g, w4)" by (cases "Program_Close (env_lib env) w1 prog")
      with main att failed Program_Close_all(1) [OF this] show ?thesis by simp
    next
      case running
      with main att soc show ?thesis by simp
    next
      case ended
      then have "r \<noteq> No_Suitable_Link" "\<nexists>e. r = Create_Failed e" by auto
      moreover have "dump_main env linkName queueID polls w = Some (r, frames, w4, Some g)"
        using main att soc det cl ended by simp
      ultimately show ?thesis using Inr det cl cur ended g by fastforce
    qed
  qed
qed

theorem dump_main_exit_witness:
  "\<exists>r frames w' g. dump_main (demo_main_env\<lparr>env_sys := demo_sys\<lparr>sys_socket := Inl (Errno 1)\<rparr>\<rparr>) ''lo'' 0 []
     ((\<lambda>_. Some 9, []), demo_bpf0) = Some (r, frames, w', g) \<and> (g = None \<longleftrightarrow> r = No_Suitable_Link \<or> (\<exists>e. r = Create_Failed e))"
proof -
  let ?env = "demo_main_env\<lparr>env_sys := demo_sys\<lparr>sys_socket := Inl (Errno 1)\<rparr>\<rparr>"
  have world: "dump_world (env_link ?env) (fst \<circ> fst) (env_lib ?env) (d_content \<circ> snd) (d_kind \<circ> snd)"
    and ifs: "env_interfaces ?env = Inr [\<lparr>IfName = ''eth0'', IfIndex = 3\<rparr>, \<lparr>IfName = ''lo'', IfIndex = 2\<rparr>]"
    using world.dump_world_axioms by (simp_all add: demo_main_env_def)
  have idx: "find_link ''lo'' [\<lparr>IfName = ''eth0'', IfIndex = 3\<rparr>, \<lparr>IfName = ''lo'', IfIndex = 2\<rparr>] (-1) = 2" by simp
  have "removal_shows (env_link ?env) 2"
    unfolding removal_shows_def
    by (intro allI impI exI [of _ 1]) (auto simp: demo_main_env_def gone_def demo_world_link_ops isXdpAttached_def)
  from dump_main_exit [OF world ifs idx this] show ?thesis by blast
qed

end
