(* ===== verification/Event_Main.thy ===== *)
theory Event_Main
  imports Xdp_Event_Prog Xdp_Loaders
begin

text \<open>
  The function \<open>main\<close> of \<^verbatim>\<open>perf_event/src/dumpframes.go\<close>, which attaches the event program and
  prints the records of its ring buffer, and the path of a record from a frame through the XDP
  program and the ring buffer to the printed sample. The link, the ring buffer and the reader act on
  one state outside the process.
\<close>

section \<open>The program\<close>

datatype event_exit =
    Ev_Running | Memlock_Fatal errno | Ev_No_Interfaces errno | Ev_No_Suitable_Link
  | Ev_Create_Failed tcpsyn_error | Ev_Attach_Failed link_error | Ev_Crashed go_panic | Panicked errno

text \<open>
  What \<open>main\<close> calls. \<open>ev_new_reader\<close> is \<open>ringbuf.NewReader\<close>, \<open>ev_read\<close> and \<open>ev_reader_close\<close> are the methods
  \<open>Read\<close> and \<open>Close\<close> of the reader; a \<open>Read\<close> that has not returned is \<open>None\<close>.
\<close>

record ('w, 'spec, 'p, 'm, 'r) event_main_env =
  ev_memlock :: "errno option"
  ev_interfaces :: "errno + iface list"
  ev_read_spec :: "u8 list \<Rightarrow> errno + 'spec"
  ev_load_assign :: "'spec \<Rightarrow> unit option \<Rightarrow> errno + ('p, 'm) tcpsynEventObjects"
  ev_object_file :: "u8 list"
  ev_link :: "'w netlink"
  ev_lib :: "('w, 'm, 'p) ebpf_lib"
  ev_fd :: "'p \<Rightarrow> int"
  ev_new_reader :: "'w \<Rightarrow> 'm option \<Rightarrow> (errno + 'r) \<times> 'w"
  ev_read :: "'w \<Rightarrow> 'r \<Rightarrow> (errno + u8 list) option \<times> 'w"
  ev_reader_close :: "'w \<Rightarrow> 'r \<Rightarrow> errno option \<times> 'w"

text \<open>
  The loop, for a sequence of activities of the kernel, each followed by a look at whether \<open>rd.Read\<close>
  returns: the samples printed, the error with which the loop panics, and the state. While \<open>Read\<close> has
  not returned the loop stays in it; without an error it is waiting when the activities end.
\<close>

fun read_loop ::
  "('w \<Rightarrow> (errno + u8 list) option \<times> 'w) \<Rightarrow> ('w \<Rightarrow> 'w) list \<Rightarrow> 'w \<Rightarrow> u8 list list \<times> errno option \<times> 'w" where
  "read_loop rd [] w = ([], None, w)"
| "read_loop rd (act # acts) w =
     (case rd (act w) of
        (None, w) \<Rightarrow> read_loop rd acts w
      | (Some (Inl err), w) \<Rightarrow> ([], Some err, w)
      | (Some (Inr sample), w) \<Rightarrow> (let (samples, r, w) = read_loop rd acts w in (sample # samples, r, w)))"

text \<open>The part after the program is attached; \<open>rd.Close\<close> is deferred once there is a reader.\<close>

definition event_reader ::
  "('w, 'spec, 'p, 'm, 'r) event_main_env \<Rightarrow> ('p, 'm) event_program \<Rightarrow> ('w \<Rightarrow> 'w) list \<Rightarrow> 'w \<Rightarrow>
   u8 list list \<times> errno option \<times> 'w" where
  "event_reader env program acts w =
     (case ev_new_reader env w (Events program) of
        (Inl e, w) \<Rightarrow> ([], Some e, w)
      | (Inr rd, w) \<Rightarrow>
          (case read_loop (\<lambda>w. ev_read env w rd) acts w of
             (samples, None, w) \<Rightarrow> (samples, None, w)
           | (samples, Some e, w) \<Rightarrow> (samples, Some e, snd (ev_reader_close env w rd))))"

text \<open>
  A panic runs the deferred calls before the process ends: the reader is closed, \<open>Detach\<close> and \<open>Close\<close>
  follow. \<open>None\<close> is a run that hangs in \<open>removeProgram\<close>.
\<close>

definition event_main ::
  "('w, 'spec, 'p, 'm, 'r) event_main_env \<Rightarrow> string \<Rightarrow> ('w \<Rightarrow> 'w) list \<Rightarrow> 'w \<Rightarrow>
   (event_exit \<times> u8 list list \<times> 'w \<times> ('p, 'm) event_program option) option" where
  "event_main env linkName acts w =
     (case ev_memlock env of
        Some e \<Rightarrow> Some (Memlock_Fatal e, [], w, None)
      | None \<Rightarrow>
     (case ev_interfaces env of
        Inl e \<Rightarrow> Some (Ev_No_Interfaces e, [], w, None)
      | Inr interfaces \<Rightarrow>
          (let Ifindex = find_link linkName interfaces (-1) in
           if Ifindex = -1 then Some (Ev_No_Suitable_Link, [], w, None)
           else
             (case NewTCPSynEventProgram (ev_read_spec env) (ev_load_assign env) (ev_object_file env) None of
                Inl e \<Rightarrow> Some (Ev_Create_Failed e, [], w, None)
              | Inr program \<Rightarrow>
                  (let close = (\<lambda>r samples w. case Event_Program_Close (ev_lib env) w program of
                                  (_, program, w) \<Rightarrow> Some (r, samples, w, Some program)) in
                   case EvProgram program of
                     None \<Rightarrow> close (Ev_Crashed Nil_Dereference) [] w
                   | Some prog \<Rightarrow>
                       (case Attach (ev_link env) w Ifindex (ev_fd env prog) of
                          None \<Rightarrow> None
                        | Some (Some e, w) \<Rightarrow> close (Ev_Attach_Failed e) [] w
                        | Some (None, w) \<Rightarrow>
                            (case event_reader env program acts w of
                               (samples, None, w) \<Rightarrow> Some (Ev_Running, samples, w, Some program)
                             | (samples, Some e, w) \<Rightarrow>
                                 (case Detach (ev_link env) w Ifindex of
                                    None \<Rightarrow> None
                                  | Some (_, w) \<Rightarrow> close (Panicked e) samples w))))))))"

section \<open>From frames to samples\<close>

text \<open>The XDP program on the frames that arrive, one after the other: its actions and the state.\<close>

fun run_frames ::
  "net_uapi \<Rightarrow> byte_order \<Rightarrow> 'w event_env \<Rightarrow> xdp_ctx list \<Rightarrow> 'w \<Rightarrow> fault + (u32 list \<times> 'w)" where
  "run_frames u bo h [] w = Inr ([], w)"
| "run_frames u bo h (c # cs) w =
     rbind (perf_event_test u bo h c w) (\<lambda>(a, w).
     rbind (run_frames u bo h cs w) (\<lambda>(as, w). Inr (a # as, w)))"

definition frames_arrive :: "net_uapi \<Rightarrow> byte_order \<Rightarrow> 'w event_env \<Rightarrow> xdp_ctx list \<Rightarrow> 'w \<Rightarrow> 'w" where
  "frames_arrive u bo h cs w = (case run_frames u bo h cs w of Inl _ \<Rightarrow> w | Inr (_, w) \<Rightarrow> w)"

definition event_frame :: "net_uapi \<Rightarrow> xdp_ctx \<Rightarrow> bool" where
  "event_frame u c =
     (case classify u (pkt c) of Tcp off \<Rightarrow> dest_port u (pkt c) off = EVENT_PORT | _ \<Rightarrow> False)"

text \<open>The frames for the event port that passed, of some frames with their actions and of a whole run.\<close>

definition accepted :: "net_uapi \<Rightarrow> xdp_ctx list \<Rightarrow> u32 list \<Rightarrow> xdp_ctx list" where
  "accepted u cs as = map fst (filter (\<lambda>(c, a). event_frame u c \<and> a = xdp_code XDP_PASS) (zip cs as))"

fun passed_frames ::
  "net_uapi \<Rightarrow> byte_order \<Rightarrow> 'w event_env \<Rightarrow> ('w \<Rightarrow> (errno + u8 list) option \<times> 'w) \<Rightarrow> xdp_ctx list list \<Rightarrow> 'w \<Rightarrow>
   xdp_ctx list" where
  "passed_frames u bo h rd [] w = []"
| "passed_frames u bo h rd (cs # css) w =
     (case run_frames u bo h cs w of
        Inl _ \<Rightarrow> []
      | Inr (as, w) \<Rightarrow> accepted u cs as @ passed_frames u bo h rd css (snd (rd w)))"

text \<open>A sample is a record, perhaps with zeros after it.\<close>

definition padded :: "u8 list \<Rightarrow> u8 list \<Rightarrow> bool" where
  "padded d sample \<longleftrightarrow> (\<exists>k. sample = d @ replicate k 0)"

text \<open>
  What the reader and the helpers promise; \<open>buf\<close> are the records in each ring buffer. \<open>bpf_ringbuf_output\<close>
  appends a record if it returns 0 and does nothing if it returns an error number; a \<open>Read\<close> that returns
  takes the first record of the reader's buffer. Neither attaches or detaches a program.
\<close>

locale event_world = closing_link n cur lib
  for n :: "'w netlink" and cur :: "'w \<Rightarrow> int \<Rightarrow> int option" and lib :: "('w, 'm, 'p) ebpf_lib" +
  fixes new_reader :: "'w \<Rightarrow> 'm option \<Rightarrow> (errno + 'r) \<times> 'w"
    and read :: "'w \<Rightarrow> 'r \<Rightarrow> (errno + u8 list) option \<times> 'w"
    and helpers :: "'m \<Rightarrow> 'w event_env"
    and buf :: "'w \<Rightarrow> 'm \<Rightarrow> u8 list list"
    and ring_of :: "'r \<Rightarrow> 'm"
  assumes new_reader_law: "new_reader w (Some m) = (Inr rd, w') \<Longrightarrow> ring_of rd = m \<and> buf w' = buf w \<and> cur w' = cur w"
    and read_law: "read w rd = (Some (Inr sample), w') \<Longrightarrow>
      \<exists>d. padded d sample \<and> buf w (ring_of rd) = d # buf w' (ring_of rd)"
    and read_none_law: "read w rd = (None, w') \<Longrightarrow> buf w' = buf w"
    and read_cur: "read w rd = (x, w') \<Longrightarrow> cur w' = cur w"
    and output_law: "ringbuf_output (helpers m) w d flags = (ret, w') \<Longrightarrow>
      - 4096 < ret \<and> ret \<le> 0 \<and> cur w' = cur w \<and> buf w' m = (if ret = 0 then buf w m @ [d] else buf w m)"
    and printk_law: "trace_printk (helpers m) w fmt k args = (ret, w') \<Longrightarrow> cur w' = cur w \<and> buf w' m = buf w m"
begin

lemma printk_keeps:
  "buf (snd (trace_printk (helpers m) w fmt k args)) m = buf w m"
  "cur (snd (trace_printk (helpers m) w fmt k args)) = cur w"
  using printk_law [of m w fmt k args] by (metis prod.collapse)+

lemma log_keeps:
  "buf (log_tcp u bo (helpers m) w bs off) m = buf w m \<and> cur (log_tcp u bo (helpers m) w bs off) = cur w"
  by (simp add: log_tcp_def bpf_printk_def printk_keeps)

lemma frame_record:
  assumes "ctx_ok c" and "net_uapi_ok u"
  shows "\<exists>a w'. perf_event_test u bo (helpers m) c w = Inr (a, w') \<and> cur w' = cur w \<and>
    buf w' m = buf w m @ (if event_frame u c \<and> a = xdp_code XDP_PASS then [hello_buf] else [])"
proof (cases "classify u (pkt c)")
  case (Tcp off)
  let ?w = "log_tcp u bo (helpers m) w (pkt c) off"
  obtain ret w' where o: "ringbuf_output (helpers m) ?w hello_buf 0 = (ret, w')" by fastforce
  note out = output_law [OF o]
  with c_int_small [of ret] have "c_int ret = ret" by simp
  with Tcp o out log_keeps show ?thesis
    by (auto simp: perf_event_test_eq [OF assms] event_spec_def event_frame_def Let_def)
qed (auto simp: perf_event_test_eq [OF assms] event_spec_def event_frame_def)

lemma run_frames_records:
  assumes "net_uapi_ok u" and "\<forall>c \<in> set cs. ctx_ok c"
  shows "\<exists>as w'. run_frames u bo (helpers m) cs w = Inr (as, w') \<and> length as = length cs \<and> cur w' = cur w \<and>
    buf w' m = buf w m @ replicate (length (accepted u cs as)) hello_buf"
  using assms(2)
proof (induction cs arbitrary: w)
  case (Cons c cs)
  then have "ctx_ok c" by simp
  from frame_record [OF this assms(1)] obtain a w1 where
    one: "perf_event_test u bo (helpers m) c w = Inr (a, w1)" "cur w1 = cur w"
      "buf w1 m = buf w m @ (if event_frame u c \<and> a = xdp_code XDP_PASS then [hello_buf] else [])" by blast
  from Cons.IH [of w1] Cons.prems obtain as w' where
    "run_frames u bo (helpers m) cs w1 = Inr (as, w')" "length as = length cs" "cur w' = cur w1"
    "buf w' m = buf w1 m @ replicate (length (accepted u cs as)) hello_buf" by auto
  with one show ?case by (intro exI [of _ "a # as"] exI [of _ w']) (simp add: accepted_def)
qed (simp add: accepted_def)

lemma read_loop_records:
  assumes "net_uapi_ok u" and "\<forall>c \<in> set (concat css). ctx_ok c"
    and "read_loop (\<lambda>w. read w rd) (map (frames_arrive u bo (helpers (ring_of rd))) css) w = (samples, None, w')"
  shows "cur w' = cur w \<and> (\<exists>rs. list_all2 padded rs samples \<and> rs @ buf w' (ring_of rd) = buf w (ring_of rd) @
    replicate (length (passed_frames u bo (helpers (ring_of rd)) (\<lambda>w. read w rd) css w)) hello_buf)"
  using assms(2,3)
proof (induction css arbitrary: w samples)
  case (Cons cs css)
  let ?h = "helpers (ring_of rd)"
  from run_frames_records [OF assms(1), of cs bo "ring_of rd" w] Cons.prems(1) obtain as w1 where
    k: "run_frames u bo ?h cs w = Inr (as, w1)" "cur w1 = cur w"
      "buf w1 (ring_of rd) = buf w (ring_of rd) @ replicate (length (accepted u cs as)) hello_buf" by auto
  then have act: "frames_arrive u bo ?h cs w = w1" by (simp add: frames_arrive_def)
  obtain x w2 where r: "read w1 rd = (x, w2)" by fastforce
  have cs: "\<forall>c \<in> set (concat css). ctx_ok c" using Cons.prems(1) by simp
  note cur = read_cur [OF r]
  show ?case
  proof (cases x)
    case None
    with Cons.prems(2) act r have "read_loop (\<lambda>w. read w rd) (map (frames_arrive u bo ?h) css) w2 = (samples, None, w')"
      by simp
    from Cons.IH [OF cs this] read_none_law [of w1 rd w2] None r k cur show ?thesis
      by (simp add: replicate_add)
  next
    case (Some y)
    with Cons.prems(2) act r obtain sample where y: "y = Inr sample" by (cases y) auto
    with Cons.prems(2) act r Some obtain rest where
      l: "read_loop (\<lambda>w. read w rd) (map (frames_arrive u bo ?h) css) w2 = (rest, None, w')" "samples = sample # rest"
      by (auto split: prod.splits)
    from read_law r Some y obtain d where d: "padded d sample" "buf w1 (ring_of rd) = d # buf w2 (ring_of rd)" by blast
    from Cons.IH [OF cs l(1)] obtain rs where "cur w' = cur w2" "list_all2 padded rs rest"
      "rs @ buf w' (ring_of rd) = buf w2 (ring_of rd) @ replicate (length (passed_frames u bo ?h (\<lambda>w. read w rd) css w2)) hello_buf"
      by blast
    with d l(2) k cur r show ?thesis
      by (intro conjI exI [of _ "d # rs"]) (simp_all add: replicate_add)
  qed
qed simp

end

section \<open>Runs of the program\<close>

lemma NewTCPSynEventProgram_parts:
  "NewTCPSynEventProgram rs la f o' = Inr g \<Longrightarrow> \<exists>x m. g = \<lparr>EvProgram = Some x, Events = Some m\<rparr>"
  by (auto simp: NewTCPSynEventProgram_def split: sum.splits)

lemma event_main_from_attach:
  assumes "ev_memlock env = None" and "ev_interfaces env = Inr l" and "find_link linkName l (-1) = ifx" and "ifx \<noteq> -1"
    and "NewTCPSynEventProgram (ev_read_spec env) (ev_load_assign env) (ev_object_file env) None = Inr prog"
    and "EvProgram prog = Some x"
  shows "event_main env linkName acts w =
    (let close = (\<lambda>r samples w. case Event_Program_Close (ev_lib env) w prog of (_, g, w) \<Rightarrow> Some (r, samples, w, Some g)) in
     case Attach (ev_link env) w ifx (ev_fd env x) of
       None \<Rightarrow> None
     | Some (Some e, w) \<Rightarrow> close (Ev_Attach_Failed e) [] w
     | Some (None, w) \<Rightarrow>
         (case event_reader env prog acts w of
            (samples, None, w) \<Rightarrow> Some (Ev_Running, samples, w, Some prog)
          | (samples, Some e, w) \<Rightarrow>
              (case Detach (ev_link env) w ifx of None \<Rightarrow> None | Some (_, w) \<Rightarrow> close (Panicked e) samples w)))"
  using assms by (simp add: event_main_def Let_def)

lemma event_main_attached:
  assumes "ev_interfaces env = Inr l" and "find_link linkName l (-1) = ifx"
    and "event_main env linkName acts w = Some (Ev_Running, samples, w', Some g)"
  shows "\<exists>x m w1. g = \<lparr>EvProgram = Some x, Events = Some m\<rparr> \<and>
    Attach (ev_link env) w ifx (ev_fd env x) = Some (None, w1) \<and> event_reader env g acts w1 = (samples, None, w')"
proof -
  have pre: "ev_memlock env = None" "ifx \<noteq> -1"
    using assms by (auto simp: event_main_def split: option.splits)
  from assms pre obtain prog where
    np: "NewTCPSynEventProgram (ev_read_spec env) (ev_load_assign env) (ev_object_file env) None = Inr prog"
    by (auto simp: event_main_def Let_def split: sum.splits)
  from NewTCPSynEventProgram_parts [OF np] obtain x m where p: "prog = \<lparr>EvProgram = Some x, Events = Some m\<rparr>" by blast
  from event_main_from_attach [OF pre(1) assms(1,2) pre(2) np, of x acts w] assms(3) p show ?thesis
    by (auto simp: Let_def split: option.splits prod.splits)
qed

section \<open>Properties\<close>

text \<open>
  C4: the event path end to end. While \<open>main\<close> is in its loop, the event program is the one on the
  interface of the given name. Frames arrive between and during the calls of \<open>Read\<close>; no run of the XDP
  program faults on them. The samples printed are, in order, records of the ring buffer, each followed
  by zeros at most; these records together with those still in the buffer are what the buffer held when
  the program was attached and one record \<open>hello!\<close>, with its NUL, for each frame that was TCP to port
  7777 and passed: none is lost or duplicated.
\<close>

theorem event_main_end_to_end:
  assumes "event_world (ev_link env) cur (ev_lib env) (ev_new_reader env) (ev_read env) helpers buf ring_of"
    and "net_uapi_ok u" and "\<forall>c \<in> set (concat css). ctx_ok c"
    and "ev_interfaces env = Inr l" and "find_link linkName l (-1) = ifx"
    and "event_main env linkName (map (frames_arrive u bo (helpers m)) css) w = Some (Ev_Running, samples, w', Some g)"
    and "Events g = Some m"
  shows "(\<forall>cs \<in> set css. \<forall>t. \<exists>as t'. run_frames u bo (helpers m) cs t = Inr (as, t')) \<and>
    (\<exists>x w1 rd w2 rs. EvProgram g = Some x \<and> cur w' ifx = Some (ev_fd env x) \<and>
      Attach (ev_link env) w ifx (ev_fd env x) = Some (None, w1) \<and> ev_new_reader env w1 (Some m) = (Inr rd, w2) \<and>
      list_all2 padded rs samples \<and>
      rs @ buf w' m = buf w1 m @
        replicate (length (passed_frames u bo (helpers m) (\<lambda>w. ev_read env w rd) css w2)) hello_buf)"
proof
  show "\<forall>cs \<in> set css. \<forall>t. \<exists>as t'. run_frames u bo (helpers m) cs t = Inr (as, t')"
    using event_world.run_frames_records [OF assms(1,2)] assms(3) by fastforce
next
  let ?acts = "map (frames_arrive u bo (helpers m)) css"
  from event_main_attached [OF assms(4-6)] assms(7) obtain x w1 where
    g: "g = \<lparr>EvProgram = Some x, Events = Some m\<rparr>" and att: "Attach (ev_link env) w ifx (ev_fd env x) = Some (None, w1)"
    and run: "event_reader env g ?acts w1 = (samples, None, w')" by auto
  from run g obtain rd w2 where rd: "ev_new_reader env w1 (Some m) = (Inr rd, w2)"
    and loop: "read_loop (\<lambda>w. ev_read env w rd) ?acts w2 = (samples, None, w')"
    by (auto simp: event_reader_def split: prod.splits sum.splits option.splits)
  have nr: "ring_of rd = m" "buf w2 = buf w1" "cur w2 = cur w1" using event_world.new_reader_law [OF assms(1) rd] by auto
  from event_world.read_loop_records [OF assms(1-3), of rd bo w2 samples w'] loop nr have
    "cur w' = cur w1" and rs: "\<exists>rs. list_all2 padded rs samples \<and> rs @ buf w' m = buf w1 m @
      replicate (length (passed_frames u bo (helpers m) (\<lambda>w. ev_read env w rd) css w2)) hello_buf" by auto
  moreover have "xdp_link (ev_link env) cur" using assms(1) by (simp add: event_world_def closing_link_def)
  ultimately have "cur w' ifx = Some (ev_fd env x)" using xdp_link.Attach_cur att by metis
  with g att rd rs show "\<exists>x w1 rd w2 rs. EvProgram g = Some x \<and> cur w' ifx = Some (ev_fd env x) \<and>
      Attach (ev_link env) w ifx (ev_fd env x) = Some (None, w1) \<and> ev_new_reader env w1 (Some m) = (Inr rd, w2) \<and>
      list_all2 padded rs samples \<and>
      rs @ buf w' m = buf w1 m @
        replicate (length (passed_frames u bo (helpers m) (\<lambda>w. ev_read env w rd) css w2)) hello_buf"
    by auto
qed

text \<open>A ring buffer for two records next to the links, with a reader that pads to eight bytes, for the witnesses.\<close>

type_synonym demo_event_world = "demo_links \<times> (int \<Rightarrow> u8 list list)"

definition demo_event_link :: "demo_event_world netlink" where
  "demo_event_link = \<lparr>
     LinkByIndex = (\<lambda>(l, b) i. let (r, l) = LinkByIndex demo_link l i in (r, (l, b))),
     LinkSetXdpFd = (\<lambda>(l, b) k f. let (r, l) = LinkSetXdpFd demo_link l k f in (r, (l, b))),
     LinkSetXdpFdWithFlags = (\<lambda>(l, b) k f fl. let (r, l) = LinkSetXdpFdWithFlags demo_link l k f fl in (r, (l, b))),
     Sleep = (\<lambda>(l, b). (Sleep demo_link l, b))\<rparr>"

definition demo_event_lib :: "(demo_event_world, int, int) ebpf_lib" where
  "demo_event_lib = \<lparr>map_put = (\<lambda>w m k v. (Some (Errno 22), w)), map_delete = (\<lambda>w m k. (Some (Errno 22), w)),
     map_close = (\<lambda>w m. (None, w)), map_fd = id, new_map = (\<lambda>w sp. (Inl (Errno 24), w)),
     new_program = (\<lambda>w is. (Inl (Errno 24), w)), prog_close = (\<lambda>w g. (None, w))\<rparr>"

definition demo_helpers :: "int \<Rightarrow> demo_event_world event_env" where
  "demo_helpers m = \<lparr>
     ringbuf_output = (\<lambda>(l, b) d flags. if length (b m) < 2 then (0, l, b(m := b m @ [d])) else (-11, l, b)),
     trace_printk = (\<lambda>w fmt n args. (int n, w))\<rparr>"

definition demo_new_reader :: "demo_event_world \<Rightarrow> int option \<Rightarrow> (errno + int) \<times> demo_event_world" where
  "demo_new_reader w m = (case m of None \<Rightarrow> (Inl (Errno 22), w) | Some m \<Rightarrow> (Inr m, w))"

definition demo_read :: "demo_event_world \<Rightarrow> int \<Rightarrow> (errno + u8 list) option \<times> demo_event_world" where
  "demo_read w rd = (case snd w rd of
     [] \<Rightarrow> (None, w)
   | d # ds \<Rightarrow> (Some (Inr (d @ replicate (7 - (length d + 7) mod 8) 0)), fst w, (snd w)(rd := ds)))"

interpretation demo_events: event_world demo_event_link "fst \<circ> fst" demo_event_lib demo_new_reader demo_read demo_helpers snd id
proof -
  have "xdp_link demo_event_link (fst \<circ> fst)"
    by unfold_locales (auto simp: demo_event_link_def split: prod.splits
        dest: demo_link.by_index_law demo_link.set_flags_law)
  then have "closing_link demo_event_link (fst \<circ> fst) demo_event_lib"
    by (intro closing_link.intro closing_link_axioms.intro) (auto simp: demo_event_lib_def)
  then show "event_world demo_event_link (fst \<circ> fst) demo_event_lib demo_new_reader demo_read demo_helpers snd id"
    by (intro event_world.intro event_world_axioms.intro)
      (auto simp: demo_new_reader_def demo_read_def demo_helpers_def padded_def split: list.splits if_splits prod.splits)
qed

definition demo_event_main :: "(demo_event_world, unit, int, int, int) event_main_env" where
  "demo_event_main = \<lparr>ev_memlock = None, ev_interfaces = Inr [\<lparr>IfName = ''lo'', IfIndex = 2\<rparr>],
     ev_read_spec = (\<lambda>_. Inr ()), ev_load_assign = (\<lambda>_ _. Inr \<lparr>PerfEventTest = 5, EventsMap = 6\<rparr>),
     ev_object_file = [], ev_link = demo_event_link, ev_lib = demo_event_lib, ev_fd = id,
     ev_new_reader = demo_new_reader, ev_read = demo_read, ev_reader_close = (\<lambda>w rd. (None, w))\<rparr>"

lemma demo_event_fields:
  "ev_memlock demo_event_main = None" "ev_interfaces demo_event_main = Inr [\<lparr>IfName = ''lo'', IfIndex = 2\<rparr>]"
  "ev_link demo_event_main = demo_event_link" "ev_lib demo_event_main = demo_event_lib" "ev_fd demo_event_main = id"
  "ev_new_reader demo_event_main = demo_new_reader" "ev_read demo_event_main = demo_read"
  by (simp_all add: demo_event_main_def)

lemma demo_event_prog:
  "NewTCPSynEventProgram (ev_read_spec demo_event_main) (ev_load_assign demo_event_main) (ev_object_file demo_event_main) None =
     Inr \<lparr>EvProgram = Some 5, Events = Some 6\<rparr>"
  by (simp add: demo_event_main_def NewTCPSynEventProgram_def loadTcpsyn_def)

text \<open>One frame for the event port arrives; the next \<open>Read\<close> returns its record.\<close>

lemma demo_event_attach:
  "Attach demo_event_link ((\<lambda>_. None, []), b) 2 5 = Some (None, ((\<lambda>_. None)(2 \<mapsto> 5), []), b)"
  by (simp add: Attach_def removeProgram_def attachProgram_def demo_event_link_def demo_link_def isXdpAttached_def)

lemma demo_frame_event:
  "run_frames linux_net_uapi Little_Endian (demo_helpers 6) [demo_ctx 0 demo_frame] (l, \<lambda>_. []) =
     Inr ([xdp_code XDP_PASS], l, (\<lambda>_. [])(6 := [hello_buf]))"
proof -
  have "classify linux_net_uapi demo_frame = Tcp 38" "dest_port linux_net_uapi demo_frame 38 = EVENT_PORT" by code_simp+
  moreover have "pkt (demo_ctx 0 demo_frame) = demo_frame" by (simp add: demo_ctx_def)
  ultimately show ?thesis
    by (simp add: perf_event_test_eq [OF demo_ctx_ok linux_net_uapi_ok] event_spec_def demo_helpers_def
        log_tcp_def bpf_printk_def)
qed

lemma demo_event_run:
  "event_main demo_event_main ''lo'' (map (frames_arrive linux_net_uapi Little_Endian (demo_helpers 6)) [[demo_ctx 0 demo_frame]])
     ((\<lambda>_. None, []), \<lambda>_. []) =
   Some (Ev_Running, [hello_buf @ [0]], (((\<lambda>_. None)(2 \<mapsto> 5), []), \<lambda>_. []), Some \<lparr>EvProgram = Some 5, Events = Some 6\<rparr>)"
proof -
  have "frames_arrive linux_net_uapi Little_Endian (demo_helpers 6) [demo_ctx 0 demo_frame] (l, \<lambda>_. []) =
      (l, (\<lambda>_. [])(6 := [hello_buf]))" for l
    by (simp only: frames_arrive_def demo_frame_event sum.case prod.case)
  moreover have "7 - (length hello_buf + 7) mod 8 = 1" by (simp add: hello_buf_def)
  ultimately show ?thesis
    using event_main_from_attach [OF demo_event_fields(1,2) refl _ demo_event_prog, of "''lo''" 5]
    by (simp add: demo_event_fields demo_event_attach event_reader_def demo_new_reader_def demo_read_def fun_upd_def cong: if_cong)
qed

theorem event_main_end_to_end_witness:
  "\<exists>rs. list_all2 padded rs [hello_buf @ [0]] \<and>
     rs @ [] = replicate (length (passed_frames linux_net_uapi Little_Endian (demo_helpers 6) (\<lambda>w. demo_read w 6)
       [[demo_ctx 0 demo_frame]] (((\<lambda>_. None)(2 \<mapsto> 5), []), \<lambda>_. []))) hello_buf"
proof -
  have ok: "\<forall>c \<in> set (concat [[demo_ctx 0 demo_frame]]). ctx_ok c" using demo_ctx_ok by simp
  have world: "event_world (ev_link demo_event_main) (fst \<circ> fst) (ev_lib demo_event_main) (ev_new_reader demo_event_main)
      (ev_read demo_event_main) demo_helpers snd id"
    using demo_events.event_world_axioms by (simp add: demo_event_fields)
  have "find_link ''lo'' [\<lparr>IfName = ''lo'', IfIndex = 2\<rparr>] (-1) = 2" by simp
  from event_main_end_to_end [where m = 6, OF world linux_net_uapi_ok ok demo_event_fields(2) this demo_event_run]
  show ?thesis
    by (auto simp: demo_event_fields demo_event_attach demo_new_reader_def simp del: passed_frames.simps run_frames.simps)
qed

text \<open>
  C40: how the event reader ends. If a removal requested for the link eventually shows there, \<open>main\<close> does
  not hang once its program is created: it is in its loop, or attaching failed, or it panicked because
  the reader could not be created or reported an error. A panic still runs the deferred calls: the last
  two are a \<open>Detach\<close> from the link and a \<open>Close\<close>, so that nothing of the program is left and, if the
  \<open>Detach\<close> reports no error, there is no program on the interface any more; the samples are those of the
  reads before the error.
\<close>

theorem event_main_exit:
  assumes "closing_link (ev_link env) cur (ev_lib env)"
    and "ev_memlock env = None" and "ev_interfaces env = Inr l" and "find_link linkName l (-1) = ifx" and "ifx \<noteq> -1"
    and "NewTCPSynEventProgram (ev_read_spec env) (ev_load_assign env) (ev_object_file env) None = Inr prog"
    and "removal_shows (ev_link env) ifx"
  shows "\<exists>r samples w' g. event_main env linkName acts w = Some (r, samples, w', Some g) \<and>
    (case r of
       Ev_Running \<Rightarrow> g = prog
     | Ev_Attach_Failed f \<Rightarrow> samples = [] \<and> g = \<lparr>EvProgram = None, Events = None\<rparr>
     | Panicked e \<Rightarrow> g = \<lparr>EvProgram = None, Events = None\<rparr> \<and>
         (\<exists>x w1 w2 d w3 c. EvProgram prog = Some x \<and> Attach (ev_link env) w ifx (ev_fd env x) = Some (None, w1) \<and>
           event_reader env prog acts w1 = (samples, Some e, w2) \<and> Detach (ev_link env) w2 ifx = Some (d, w3) \<and>
           Event_Program_Close (ev_lib env) w3 prog = (c, g, w') \<and> (d = None \<longrightarrow> cur w' ifx = None))
     | _ \<Rightarrow> False)"
proof -
  have link: "xdp_link (ev_link env) cur" using assms(1) by (simp add: closing_link_def)
  from NewTCPSynEventProgram_parts [OF assms(6)] obtain x where x: "EvProgram prog = Some x" by auto
  note main = event_main_from_attach [OF assms(2-6) x, of acts w]
  from xdp_link.Attach_Detach_return(2) [OF link assms(7)] obtain a w1 where
    att: "Attach (ev_link env) w ifx (ev_fd env x) = Some (a, w1)" by blast
  obtain samples e w2 where rd: "event_reader env prog acts w1 = (samples, e, w2)"
    by (cases "event_reader env prog acts w1") auto
  from xdp_link.Attach_Detach_return(1) [OF link assms(7)] obtain d w3 where
    det: "Detach (ev_link env) w2 ifx = Some (d, w3)" by blast
  obtain c g w4 where cl: "Event_Program_Close (ev_lib env) w3 prog = (c, g, w4)" by (cases "Event_Program_Close (ev_lib env) w3 prog")
  obtain c' g' w' where cl': "Event_Program_Close (ev_lib env) w1 prog = (c', g', w')" by (cases "Event_Program_Close (ev_lib env) w1 prog")
  have "d = None \<Longrightarrow> cur w4 ifx = None"
    using det xdp_link.removeProgram_cur [OF link, of w2 ifx w3] closing_link.Event_Program_Close_cur [OF assms(1) cl]
    by (simp add: Detach_def)
  with main att rd det cl cl' x Event_Program_Close_all [OF cl] Event_Program_Close_all [OF cl'] show ?thesis
    by (cases a; cases e) auto
qed

theorem event_main_exit_witness:
  "\<exists>r samples w' g. event_main (demo_event_main\<lparr>ev_new_reader := (\<lambda>w m. (Inl (Errno 1), w))\<rparr>) ''lo'' [] ((\<lambda>_. Some 9, []), \<lambda>_. []) =
     Some (r, samples, w', Some g) \<and> (\<forall>e. r = Panicked e \<longrightarrow> g = \<lparr>EvProgram = None, Events = None\<rparr>)"
proof -
  let ?env = "demo_event_main\<lparr>ev_new_reader := (\<lambda>w m. (Inl (Errno 1), w))\<rparr>"
  have link: "closing_link (ev_link ?env) (fst \<circ> fst) (ev_lib ?env)"
    using demo_events.closing_link_axioms by (simp add: demo_event_fields)
  have gone: "removal_shows (ev_link ?env) 2"
    unfolding removal_shows_def
    by (intro allI impI exI [of _ 1])
      (auto simp: demo_event_fields demo_event_link_def demo_link_def gone_def isXdpAttached_def
        split: option.splits prod.splits)
  have f: "ev_memlock ?env = None" "ev_interfaces ?env = Inr [\<lparr>IfName = ''lo'', IfIndex = 2\<rparr>]" by (simp_all add: demo_event_fields)
  have n: "NewTCPSynEventProgram (ev_read_spec ?env) (ev_load_assign ?env) (ev_object_file ?env) None =
      Inr \<lparr>EvProgram = Some 5, Events = Some 6\<rparr>" using demo_event_prog by simp
  have "find_link ''lo'' [\<lparr>IfName = ''lo'', IfIndex = 2\<rparr>] (-1) = 2" by simp
  from event_main_exit [OF link f this _ n gone, of "[]" "((\<lambda>_. Some 9, []), \<lambda>_. [])"] show ?thesis
    by (fastforce split: event_exit.splits)
qed

end
