(* ===== verification/Client_Main.thy ===== *)
theory Client_Main
  imports Xdp_Sock_Prog
begin

text \<open>
  The client \<^verbatim>\<open>client/main.py\<close>, which opens a TCP connection with packets of its own making, sends
  one HTTP request over it and closes it, and the function \<open>handle\<close> that
  \<^verbatim>\<open>server/hello-python/handler.py\<close> runs at the other end. The library \<^verbatim>\<open>scapy\<close> is a parameter: how a
  packet is built into the frame that is sent, which may fail, and the answers that \<open>sr1\<close> receives.
\<close>

section \<open>Packets\<close>

text \<open>The parts of \<open>IP\<close> and \<open>TCP\<close> that the script sets; \<open>seq\<close> and \<open>ack\<close> are zero unless given.\<close>

record tcp_layer =
  dport :: int
  sport :: int
  flags :: string
  seq :: int
  ack :: int
  tcp_options :: "(int \<times> string) list"

record packet =
  ip_dst :: string
  tcp :: tcp_layer
  load :: string

datatype py_error = Type_Error | Index_Error | Build_Error

text \<open>An answer: nothing, a packet without TCP layer, or the numbers \<open>seq\<close> and \<open>ack\<close> of its TCP layer.\<close>

type_synonym answer = "(int \<times> int) option option"

section \<open>Effects\<close>

text \<open>
  A computation of the script takes the answers to come and the packets sent so far. It ends with a
  value or an exception, or waits in \<open>sr1\<close> for an answer that does not come.
\<close>

datatype 'a outcome = Done 'a | Raised py_error | Waiting

type_synonym 'a client = "answer list \<times> packet list \<Rightarrow> 'a outcome \<times> answer list \<times> packet list"

type_synonym build = "packet \<Rightarrow> py_error + u8 list"

definition creturn :: "'a \<Rightarrow> 'a client" where
  "creturn x = (\<lambda>s. (Done x, s))"

definition cbind :: "'a client \<Rightarrow> ('a \<Rightarrow> 'b client) \<Rightarrow> 'b client" where
  "cbind m f = (\<lambda>s. case m s of (Done x, s) \<Rightarrow> f x s | (Raised e, s) \<Rightarrow> (Raised e, s) | (Waiting, s) \<Rightarrow> (Waiting, s))"

text \<open>\<open>raw\<close> is applied to the IP packet: what is built without the 14 bytes of the Ethernet header.\<close>

definition raw :: "build \<Rightarrow> packet \<Rightarrow> u8 list client" where
  "raw build p = (\<lambda>s. (case build p of Inl e \<Rightarrow> Raised e | Inr bs \<Rightarrow> Done (drop 14 bs), s))"

definition send :: "build \<Rightarrow> packet \<Rightarrow> unit client" where
  "send build p = (\<lambda>(as, sent).
     case build p of Inl e \<Rightarrow> (Raised e, as, sent) | Inr _ \<Rightarrow> (Done (), as, sent @ [p]))"

definition sr1 :: "build \<Rightarrow> packet \<Rightarrow> answer client" where
  "sr1 build p = cbind (send build p) (\<lambda>_ (as, sent).
     case as of [] \<Rightarrow> (Waiting, [], sent) | a # as \<Rightarrow> (Done a, as, sent))"

text \<open>\<open>response[TCP]\<close>: a \<open>TypeError\<close> for \<open>None\<close>, an \<open>IndexError\<close> without such a layer.\<close>

definition tcp_of :: "answer \<Rightarrow> (int \<times> int) client" where
  "tcp_of a = (\<lambda>s. (case a of None \<Rightarrow> Raised Type_Error | Some None \<Rightarrow> Raised Index_Error | Some (Some t) \<Rightarrow> Done t, s))"

section \<open>The script\<close>

definition syn_packet :: "string \<Rightarrow> int \<Rightarrow> int \<Rightarrow> string \<Rightarrow> packet" where
  "syn_packet destination_ip destination_port source_port payload =
     \<lparr>ip_dst = destination_ip,
      tcp = \<lparr>dport = destination_port, sport = source_port, flags = ''S'', seq = 0, ack = 0,
             tcp_options = [(253, payload)]\<rparr>,
      load = ''''\<rparr>"

definition send_tcp_syn :: "build \<Rightarrow> string \<Rightarrow> int \<Rightarrow> int \<Rightarrow> string \<Rightarrow> (int \<times> int) client" where
  "send_tcp_syn build destination_ip destination_port source_port payload =
     (let p = syn_packet destination_ip destination_port source_port payload in
      cbind (raw build p) (\<lambda>_.
      cbind (sr1 build p) (\<lambda>syn_ack_response.
      cbind (tcp_of syn_ack_response) (\<lambda>(r_seq, r_ack). creturn (r_seq + 1, r_ack)))))"

text \<open>Python's decimal representation of an integer.\<close>

fun digits :: "nat \<Rightarrow> string" where
  "digits n = (if n < 10 then [char_of (48 + n)] else digits (n div 10) @ [char_of (48 + n mod 10)])"

declare digits.simps [simp del]

definition str_int :: "int \<Rightarrow> string" where
  "str_int n = (if n < 0 then ''-'' @ digits (nat (- n)) else digits (nat n))"

definition crlf :: string where
  "crlf = [CHR 0x0D, CHR 0x0A]"

definition http_get_request :: "string \<Rightarrow> int \<Rightarrow> string \<Rightarrow> string" where
  "http_get_request destination_ip destination_port payload =
     ''GET /function/'' @ payload @ ''?namespace=openfaas-fn HTTP/1.1'' @ crlf @
     ''Host: '' @ destination_ip @ '':'' @ str_int destination_port @ crlf @ crlf"

definition tcp_packet :: "string \<Rightarrow> int \<Rightarrow> int \<Rightarrow> string \<Rightarrow> int \<Rightarrow> int \<Rightarrow> string \<Rightarrow> packet" where
  "tcp_packet destination_ip destination_port source_port fl sn an body =
     \<lparr>ip_dst = destination_ip,
      tcp = \<lparr>dport = destination_port, sport = source_port, flags = fl, seq = sn, ack = an, tcp_options = []\<rparr>,
      load = body\<rparr>"

definition send_http_get_request ::
  "build \<Rightarrow> string \<Rightarrow> int \<Rightarrow> int \<Rightarrow> int \<Rightarrow> int \<Rightarrow> string \<Rightarrow> unit client" where
  "send_http_get_request build destination_ip destination_port source_port acknowledgment_number sequence_number payload =
     (let tcp_pkt = tcp_packet destination_ip destination_port source_port in
      cbind (sr1 build (tcp_pkt ''A'' sequence_number acknowledgment_number
                         (http_get_request destination_ip destination_port payload))) (\<lambda>response_packet.
      cbind (tcp_of response_packet) (\<lambda>(r_seq, r_ack).
      cbind (sr1 build (tcp_pkt ''FA'' r_ack (r_seq + 1) '''')) (\<lambda>finack_packet.
      cbind (tcp_of finack_packet) (\<lambda>(f_seq, f_ack).
        send build (tcp_pkt ''A'' f_ack (f_seq + 1) ''''))))))"

text \<open>The body of the script, and its constants.\<close>

definition client_run :: "build \<Rightarrow> string \<Rightarrow> int \<Rightarrow> int \<Rightarrow> string \<Rightarrow> unit client" where
  "client_run build destination_ip destination_port source_port payload =
     cbind (send_tcp_syn build destination_ip destination_port source_port payload)
       (\<lambda>(acknowledgment_number, sequence_number).
         send_http_get_request build destination_ip destination_port source_port
           acknowledgment_number sequence_number payload)"

definition client_main :: "build \<Rightarrow> unit client" where
  "client_main build = client_run build ''88.200.23.156'' 8080 110 ''env''"

text \<open>The loop of \<open>pad\<close>, which may not end.\<close>

partial_function (option) pad :: "string \<Rightarrow> string option" where
  "pad payload = (if length payload \<noteq> 8 then pad (payload @ [CHR 0x00]) else Some payload)"

text \<open>The function of the server.\<close>

definition handle :: "string \<Rightarrow> string" where
  "handle req = req"

section \<open>Steps of a run\<close>

lemma cbind_Done [simp]: "cbind m f s = f x s'" if "m s = (Done x, s')"
  using that by (simp add: cbind_def)

lemma cbind_Raised [simp]: "cbind m f s = (Raised e, s')" if "m s = (Raised e, s')"
  using that by (simp add: cbind_def)

lemma cbind_Waiting [simp]: "cbind m f s = (Waiting, s')" if "m s = (Waiting, s')"
  using that by (simp add: cbind_def)

lemma sr1_sent:
  "build p = Inr bs \<Longrightarrow> sr1 build p (a # as, sent) = (Done a, as, sent @ [p])"
  "build p = Inr bs \<Longrightarrow> sr1 build p ([], sent) = (Waiting, [], sent @ [p])"
  "build p = Inl e \<Longrightarrow> sr1 build p (as, sent) = (Raised e, as, sent)"
  by (simp_all add: sr1_def send_def cbind_def)

lemmas client_defs = client_run_def send_tcp_syn_def send_http_get_request_def Let_def raw_def creturn_def
  tcp_of_def send_def sr1_sent cbind_def

text \<open>What a computation sends, whatever the answers are, satisfies a predicate.\<close>

definition sends :: "(packet \<Rightarrow> bool) \<Rightarrow> 'a client \<Rightarrow> bool" where
  "sends P m \<longleftrightarrow> (\<forall>as sent r as' sent'. m (as, sent) = (r, as', sent') \<longrightarrow>
     (\<exists>new. sent' = sent @ new \<and> list_all P new))"

lemma sendsI:
  "(\<And>as sent. \<exists>r as' new. m (as, sent) = (r, as', sent @ new) \<and> list_all P new) \<Longrightarrow> sends P m"
  unfolding sends_def by (metis prod.inject)

lemma sends_cbind:
  assumes "sends P m" and "\<And>x. sends P (f x)"
  shows "sends P (cbind m f)"
proof (rule sendsI)
  fix as sent
  obtain r as1 sent1 where m: "m (as, sent) = (r, as1, sent1)" by (cases "m (as, sent)")
  with assms(1) obtain new where new: "sent1 = sent @ new" "list_all P new" unfolding sends_def by blast
  show "\<exists>r as' new. cbind m f (as, sent) = (r, as', sent @ new) \<and> list_all P new"
  proof (cases r)
    case (Done x)
    obtain r2 as2 sent2 where f: "f x (as1, sent1) = (r2, as2, sent2)" by (cases "f x (as1, sent1)")
    with assms(2) [of x] obtain new2 where "sent2 = sent1 @ new2" "list_all P new2"
      unfolding sends_def by blast
    with m f Done new show ?thesis by (intro exI [of _ r2] exI [of _ as2] exI [of _ "new @ new2"]) simp
  qed (use m new in auto)
qed

lemma sends_send: "(\<And>bs. build p = Inr bs \<Longrightarrow> P p) \<Longrightarrow> sends P (send build p)"
  by (rule sendsI) (cases "build p"; simp add: send_def)

lemma sends_sr1: "(\<And>bs. build p = Inr bs \<Longrightarrow> P p) \<Longrightarrow> sends P (sr1 build p)"
  unfolding sr1_def
  by (rule sends_cbind [OF sends_send]) (auto intro!: sendsI split: list.split)

lemma sends_pure [simp]: "sends P (creturn x)" "sends P (raw build p)" "sends P (tcp_of a)"
  by (rule sendsI; simp add: creturn_def raw_def tcp_of_def)+

lemma client_run_sends:
  "sends (\<lambda>p. dport (tcp p) = port \<and> (\<exists>bs. build p = Inr bs)) (client_run build ip port sp payload)"
  unfolding client_run_def send_tcp_syn_def send_http_get_request_def Let_def
  by (auto intro!: sends_cbind sends_sr1 sends_send sends_pure simp: syn_packet_def tcp_packet_def split: prod.split)

lemma pad_short:
  assumes "pad payload = Some r"
  shows "length payload \<le> 8"
proof (rule pad.raw_induct [where P = "\<lambda>x _. length x \<le> 8", OF _ assms])
  fix pad' :: "string \<Rightarrow> string option" and x y
  assume "\<And>x y. pad' x = Some y \<Longrightarrow> length x \<le> 8" and
    "(if length x \<noteq> 8 then pad' (x @ [CHR 0x00]) else Some x) = Some y"
  then show "length x \<le> 8" by (fastforce split: if_splits)
qed

section \<open>Properties\<close>

text \<open>
  What is known of \<open>scapy\<close>. Numbers that do not fit their fields cannot be built. A packet is built and
  sent if they fit, the options take at most the 40 bytes that a TCP header has for them, the address
  can be resolved, and the packet is not larger than the link takes. Nothing is said of other packets.
  A character beyond ASCII takes two bytes.
\<close>

definition fields_fit :: "packet \<Rightarrow> bool" where
  "fields_fit p \<longleftrightarrow> 0 \<le> dport (tcp p) \<and> dport (tcp p) < 2 ^ 16 \<and> 0 \<le> sport (tcp p) \<and> sport (tcp p) < 2 ^ 16 \<and>
     0 \<le> seq (tcp p) \<and> seq (tcp p) < 2 ^ 32 \<and> 0 \<le> ack (tcp p) \<and> ack (tcp p) < 2 ^ 32"

definition encoded_length :: "string \<Rightarrow> nat" where
  "encoded_length s = sum_list (map (\<lambda>ch. if of_char ch < (128 :: nat) then 1 else 2) s)"

lemma encoded_length_Nil [simp]: "encoded_length [] = 0"
  by (simp add: encoded_length_def)

definition options_length :: "packet \<Rightarrow> nat" where
  "options_length p = sum_list (map (\<lambda>(_, d). 2 + encoded_length d) (tcp_options (tcp p)))"

definition buildable :: "(string \<Rightarrow> bool) \<Rightarrow> nat \<Rightarrow> packet \<Rightarrow> bool" where
  "buildable resolves mtu p \<longleftrightarrow> fields_fit p \<and> options_length p \<le> 40 \<and> resolves (ip_dst p) \<and>
     40 + 4 * ((options_length p + 3) div 4) + encoded_length (load p) \<le> mtu"

definition build_checks :: "(string \<Rightarrow> bool) \<Rightarrow> nat \<Rightarrow> build \<Rightarrow> bool" where
  "build_checks resolves mtu build \<longleftrightarrow>
     (\<forall>p. (buildable resolves mtu p \<longrightarrow> (\<exists>bs. build p = Inr bs)) \<and> (\<not> fields_fit p \<longrightarrow> build p = Inl Build_Error))"

text \<open>The arguments of the script for which its packets can be built.\<close>

definition args_ok :: "(string \<Rightarrow> bool) \<Rightarrow> nat \<Rightarrow> string \<Rightarrow> int \<Rightarrow> int \<Rightarrow> string \<Rightarrow> bool" where
  "args_ok resolves mtu ip port sp payload \<longleftrightarrow> 0 \<le> port \<and> port < 2 ^ 16 \<and> 0 \<le> sp \<and> sp < 2 ^ 16 \<and> resolves ip \<and>
     encoded_length payload \<le> 38 \<and> 80 \<le> mtu \<and> 40 + encoded_length (http_get_request ip port payload) \<le> mtu"

text \<open>A sequence number that a field of 32 bits can hold.\<close>

definition seq_ok :: "int \<Rightarrow> bool" where
  "seq_ok n \<longleftrightarrow> 0 \<le> n \<and> n < 2 ^ 32"

lemma syn_built:
  assumes "build_checks resolves mtu build" and "args_ok resolves mtu ip port sp payload"
  obtains bs where "build (syn_packet ip port sp payload) = Inr bs"
proof -
  have "4 * ((5 + n) div 4) \<le> 40" if "n \<le> 38" for n :: nat using that by arith
  from this [of "encoded_length payload"] have "buildable resolves mtu (syn_packet ip port sp payload)"
    using assms(2) by (simp add: buildable_def args_ok_def fields_fit_def options_length_def syn_packet_def)
  with assms(1) that show ?thesis unfolding build_checks_def by blast
qed

lemma next_built:
  assumes "build_checks resolves mtu build" and "args_ok resolves mtu ip port sp payload"
    and "seq_ok a" and "seq_ok s" and "s \<noteq> 2 ^ 32 - 1" and "encoded_length body \<le> encoded_length (http_get_request ip port payload)"
  shows "\<exists>bs. build (tcp_packet ip port sp fl a (s + 1) body) = Inr bs"
proof -
  have "fields_fit (tcp_packet ip port sp fl a (s + 1) body)"
    using assms(2-5) by (auto simp: args_ok_def fields_fit_def tcp_packet_def seq_ok_def)
  with assms(2,6) have "buildable resolves mtu (tcp_packet ip port sp fl a (s + 1) body)"
    by (simp add: buildable_def args_ok_def options_length_def tcp_packet_def)
  with assms(1) show ?thesis unfolding build_checks_def by blast
qed

text \<open>
  C20: the exchange of the client. For ports, a payload and an address for which the packets can be
  built, when all three answers carry a TCP layer and no number is the largest, the script ends after
  sending exactly four packets: the SYN, the request with the number that the SYN-ACK acknowledged and
  the next number after the one it carried, and a FIN and a last acknowledgement numbered in the same
  way after the answers before them.
\<close>

theorem client_exchange:
  assumes "build_checks resolves mtu build" and "args_ok resolves mtu ip port sp payload"
    and "seq_ok a1" "seq_ok a2" "seq_ok a3" and "seq_ok s1" "seq_ok s2" "seq_ok s3"
    and "s1 \<noteq> 2 ^ 32 - 1" "s2 \<noteq> 2 ^ 32 - 1" "s3 \<noteq> 2 ^ 32 - 1"
  shows "client_run build ip port sp payload
      ([Some (Some (s1, a1)), Some (Some (s2, a2)), Some (Some (s3, a3))], []) =
    (Done (), [], [syn_packet ip port sp payload,
       tcp_packet ip port sp ''A'' a1 (s1 + 1) (http_get_request ip port payload),
       tcp_packet ip port sp ''FA'' a2 (s2 + 1) [],
       tcp_packet ip port sp ''A'' a3 (s3 + 1) []])"
proof -
  note built = next_built [OF assms(1,2)]
  obtain b0 where b0: "build (syn_packet ip port sp payload) = Inr b0" by (rule syn_built [OF assms(1,2)])
  obtain b1 where b1: "build (tcp_packet ip port sp ''A'' a1 (s1 + 1) (http_get_request ip port payload)) = Inr b1"
    using built [OF assms(3,6,9) order_refl] by blast
  obtain b2 where b2: "build (tcp_packet ip port sp ''FA'' a2 (s2 + 1) []) = Inr b2"
    using built [OF assms(4,7,10), of "[]"] by auto
  obtain b3 where b3: "build (tcp_packet ip port sp ''A'' a3 (s3 + 1) []) = Inr b3"
    using built [OF assms(5,8,11), of "[]"] by auto
  show ?thesis by (simp add: client_defs b0 b1 b2 b3)
qed

text \<open>A \<open>build\<close> for dotted addresses, which puts the destination port into a frame for port 7777.\<close>

definition dotted :: "string \<Rightarrow> bool" where
  "dotted ip \<longleftrightarrow> list_all (\<lambda>ch. ch = CHR ''.'' \<or> ch \<in> set ''0123456789'') ip"

definition demo_build :: build where
  "demo_build p = (if buildable dotted 1500 p
     then Inr (demo_frame[40 := word_of_int (dport (tcp p) div 256), 41 := word_of_int (dport (tcp p) mod 256)])
     else Inl Build_Error)"

lemma demo_build_checks: "build_checks dotted 1500 demo_build"
  by (auto simp: build_checks_def demo_build_def buildable_def)

lemma demo_args: "args_ok dotted 1500 ''88.200.23.156'' 8080 110 ''env''"
  by (simp add: args_ok_def dotted_def encoded_length_def http_get_request_def crlf_def str_int_def digits.simps)

theorem client_exchange_witness:
  "fst (client_main demo_build ([Some (Some (1000, 1)), Some (Some (1001, 70)), Some (Some (1002, 71))], [])) = Done ()"
  unfolding client_main_def
  by (subst client_exchange [OF demo_build_checks demo_args]) (simp_all add: seq_ok_def)

text \<open>
  C24: how the client fails, for arguments with which its packets can be built. A SYN or a request that
  is not answered ends the script with an exception after it has been sent, although the script has a
  branch for a request without answer, and the connection is not closed; an answer whose sequence
  number is the largest makes the next packet impossible to build, since the number is incremented
  without wrapping around. With a port that does not fit nothing is sent at all.
\<close>

theorem client_errors:
  assumes "build_checks resolves mtu build" and "args_ok resolves mtu ip port sp payload"
    and "seq_ok a1" "seq_ok s1" "s1 \<noteq> 2 ^ 32 - 1" and "2 ^ 16 \<le> bad"
  shows "client_run build ip port sp payload (None # as, []) =
      (Raised Type_Error, as, [syn_packet ip port sp payload]) \<and>
    client_run build ip port sp payload (Some (Some (s1, a1)) # None # as, []) =
      (Raised Type_Error, as, [syn_packet ip port sp payload,
         tcp_packet ip port sp ''A'' a1 (s1 + 1) (http_get_request ip port payload)]) \<and>
    client_run build ip port sp payload (Some (Some (2 ^ 32 - 1, a1)) # as, []) =
      (Raised Build_Error, as, [syn_packet ip port sp payload]) \<and>
    client_run build ip bad sp payload (as, []) = (Raised Build_Error, as, [])"
proof -
  obtain b0 where b0: "build (syn_packet ip port sp payload) = Inr b0" by (rule syn_built [OF assms(1,2)])
  obtain b1 where b1: "build (tcp_packet ip port sp ''A'' a1 (s1 + 1) (http_get_request ip port payload)) = Inr b1"
    using next_built [OF assms(1-5) order_refl] by blast
  have "build (tcp_packet ip port sp ''A'' a1 4294967296 (http_get_request ip port payload)) = Inl Build_Error"
    "build (syn_packet ip bad sp payload) = Inl Build_Error"
    using assms(1,6) by (simp_all add: build_checks_def fields_fit_def tcp_packet_def syn_packet_def)
  with b0 b1 show ?thesis by (simp add: client_defs)
qed

theorem client_errors_witness:
  "fst (client_main demo_build ([Some (Some (1000, 1)), None], [])) = Raised Type_Error"
  unfolding client_main_def
  using client_errors [OF demo_build_checks demo_args, of 1 1000 "2 ^ 16" "[]"]
  by (simp add: seq_ok_def)

text \<open>
  C23: \<open>pad\<close> returns exactly for payloads of at most eight characters, and then it has filled them up
  to eight with NUL; for a longer payload its loop never ends.
\<close>

theorem pad_returns_iff:
  "pad payload = (if length payload \<le> 8 then Some (payload @ replicate (8 - length payload) (CHR 0x00)) else None)"
proof (cases "length payload \<le> 8")
  case True
  then show ?thesis
  proof (induction "8 - length payload" arbitrary: payload)
    case (Suc n)
    then have l: "length payload \<le> 7" "8 - length payload = Suc (7 - length payload)" by simp_all
    with Suc.hyps have "pad (payload @ [CHR 0x00]) =
        Some ((payload @ [CHR 0x00]) @ replicate (8 - length (payload @ [CHR 0x00])) (CHR 0x00))"
      by (intro trans [OF Suc.hyps(1)]) simp_all
    with l show ?case by (subst pad.simps) simp
  qed (subst pad.simps, simp)
next
  case False
  then show ?thesis using pad_short by (cases "pad payload") auto
qed

text \<open>What is known of a frame that \<open>scapy\<close> builds: it is a TCP frame for the port of the packet.\<close>

definition builds_tcp :: "net_uapi \<Rightarrow> build \<Rightarrow> bool" where
  "builds_tcp u build \<longleftrightarrow> (\<forall>p bs. build p = Inr bs \<longrightarrow>
     (\<exists>off. classify u bs = Tcp off \<and> dest_port u bs off = word_of_int (dport (tcp p))))"

lemma port_word:
  assumes "0 \<le> port" and "port < 2 ^ 16"
  shows "(word_of_int port :: u16) = TCP_PORT \<longleftrightarrow> port = 7777"
proof -
  have "uint (word_of_int port :: u16) = port"
    using assms by (simp add: unsigned_of_int take_bit_int_eq_self)
  moreover have "uint TCP_PORT = 7777" by (simp add: TCP_PORT_def)
  ultimately show ?thesis by (metis word_uint_eq_iff)
qed

text \<open>
  C9: the client and the XDP program. Whatever answers the client gets, every packet it sends to a port
  reaches the XDP program as a frame, and on a registered queue the program redirects that frame to
  the socket if the port is 7777 and passes it on otherwise. With the port 8080 of the script all
  packets are passed on, so the script as it is never reaches the program that dumps frames.
\<close>

theorem client_frames:
  assumes "client_run build ip port sp payload (as, []) = (r, as', sent)" and "p \<in> set sent"
    and "builds_tcp u build" and "0 \<le> port" "port < 2 ^ 16" and "net_uapi_ok u"
    and "\<And>i. qidconf_lookup env i = Some q" and "q \<noteq> 0" and "\<And>i. redirect_map env i 0 = 4"
  shows "\<exists>bs. build p = Inr bs \<and> (\<forall>c. ctx_ok c \<and> pkt c = bs \<longrightarrow>
    xdp_sock_prog u bo env c = Inr (xdp_code (if port = 7777 then XDP_REDIRECT else XDP_PASS)))"
proof -
  have "\<exists>new. sent = [] @ new \<and> list_all (\<lambda>p. dport (tcp p) = port \<and> (\<exists>bs. build p = Inr bs)) new"
    using client_run_sends [of port build ip sp payload] assms(1) unfolding sends_def by blast
  with assms(2) obtain bs where b: "dport (tcp p) = port" "build p = Inr bs" by (auto simp: list_all_iff)
  from assms(3) b obtain off where
    off: "classify u bs = Tcp off" "dest_port u bs off = word_of_int port" unfolding builds_tcp_def by blast
  have "xdp_sock_prog u bo env c = Inr (xdp_code (if port = 7777 then XDP_REDIRECT else XDP_PASS))"
    if "ctx_ok c" "pkt c = bs" for c
    using assms(7-9) that(2) off port_word [OF assms(4,5)]
    by (simp add: xdp_sock_prog_eq [OF that(1) assms(6)] sock_spec_def)
  with b(2) show ?thesis by blast
qed

lemma demo_build_tcp: "builds_tcp linux_net_uapi demo_build"
proof -
  have "classify linux_net_uapi (demo_frame[40 := a, 41 := b]) = Tcp 38" for a b
    by code_simp
  moreover have "dest_port linux_net_uapi (demo_frame[40 := a, 41 := b]) 38 = be16 a b" for a b
    by (simp add: dest_port_def linux_net_uapi_def demo_defs)
  moreover have "be16 (word_of_int (k div 256)) (word_of_int (k mod 256)) = word_of_int k" for k
    by (rule bit_word_eqI)
      (auto simp: u16_of_bytes_def bit_word_cat_iff bit_word_of_int_iff
        simp flip: take_bit_eq_mod [of 8 k, simplified] drop_bit_eq_div [of 8 k, simplified]
        simp: bit_take_bit_iff bit_drop_bit_eq)
  ultimately show ?thesis by (auto simp: builds_tcp_def demo_build_def split: if_splits)
qed

theorem client_frames_witness:
  "\<exists>bs. demo_build (syn_packet ''88.200.23.156'' 8080 110 ''env'') = Inr bs \<and> (\<forall>c. ctx_ok c \<and> pkt c = bs \<longrightarrow>
    xdp_sock_prog linux_net_uapi Little_Endian \<lparr>qidconf_lookup = (\<lambda>_. Some 1), redirect_map = (\<lambda>_ _. 4)\<rparr> c =
      Inr (xdp_code XDP_PASS))"
proof -
  obtain b0 where "demo_build (syn_packet ''88.200.23.156'' 8080 110 ''env'') = Inr b0"
    by (rule syn_built [OF demo_build_checks demo_args])
  then have "client_run demo_build ''88.200.23.156'' 8080 110 ''env'' ([], []) =
      (Waiting, [], [syn_packet ''88.200.23.156'' 8080 110 ''env''])" by (simp add: client_defs)
  from client_frames [OF this _ demo_build_tcp _ _ linux_net_uapi_ok,
      of "syn_packet ''88.200.23.156'' 8080 110 ''env''" "\<lparr>qidconf_lookup = (\<lambda>_. Some 1), redirect_map = (\<lambda>_ _. 4)\<rparr>" 1]
  show ?thesis by simp
qed

end
