(* ===== verification/Spec2Isabelle.thy ===== *)
theory Spec2Isabelle
  imports Bpf_Interface Bpf_Typing Xsk_Memory Xsk_Slices Xdp_Registry Object_File Dump_Main Event_Main Client_Main
begin

text \<open>
  Defrizer takes chosen TCP traffic off a network link with XDP and shows it in user space. There are
  two programs, each of a kernel part in C and a user part in Go.

  \<^item> \<^verbatim>\<open>dumpframes\<close>: \<^verbatim>\<open>src/ebpf/tcp_syn_kern.c\<close> (\<open>xdp_sock_prog\<close>) redirects TCP segments for
    port 7777 to an AF_XDP socket; \<^verbatim>\<open>xdp.go\<close> is the socket with its four rings and its packet
    memory, \<^verbatim>\<open>program.go\<close> loads, attaches and configures the program, \<^verbatim>\<open>src/dumpframes.go\<close> is
    \<open>main\<close> with the receive loop.
  \<^item> \<^verbatim>\<open>perf_event\<close>: \<^verbatim>\<open>src/ebpf/tcp_syn_kern.c\<close> (\<open>perf_event_test\<close>) logs such segments, writes a
    fixed record for each to a ring buffer and lets them pass; \<^verbatim>\<open>program.go\<close> and
    \<^verbatim>\<open>src/dumpframes.go\<close> load it and print the records. Its \<^verbatim>\<open>xdp.go\<close>, \<^verbatim>\<open>tcp_syn_kern.h\<close> and libbpf
    headers are the files of \<^verbatim>\<open>dumpframes\<close>.

  \<^verbatim>\<open>client/main.py\<close> opens a TCP connection and sends one request to a server function
  (\<^verbatim>\<open>server/hello-python/handler.py\<close>), over the link on which the programs run.

  The parts meet in three places: in the two maps \<open>qidconf_map\<close> and \<open>xsks_map\<close>, which \<open>Register\<close>
  writes and the XDP program reads; in the rings, which the socket and the kernel share; and in the
  ring buffer \<open>events\<close>.

  \<^bold>\<open>Theories, the code they model, and what they show.\<close>

  \<^descr> \<open>Defrizer_Prelude\<close>, \<open>Go_Runtime\<close>, \<open>C_Layout\<close>: word types, results (\<open>'e + 'a\<close>, \<open>Inl\<close> the failure)
    with their sequencing \<open>rbind\<close>; Go's panics, nil dereferences, checked indexing and
    conversions; sizes, alignments and member offsets of C types, and enumerators.
  \<^descr> \<open>Bpf_Endian\<close> (\<^verbatim>\<open>bpf_endian.h\<close>): every conversion macro for both byte orders and both answers of
    \<open>__builtin_constant_p\<close>. The locale \<open>net_order\<close>, interpreted for 16, 32 and 64 bits, states that
    the two directions are inverse; constant and run-time forms agree.
  \<^descr> \<open>Bpf_Helper_Defs\<close> (\<^verbatim>\<open>bpf_helper_defs.h\<close>), \<open>Bpf_Helpers\<close> (\<^verbatim>\<open>bpf_helpers.h\<close>): the 141 declarations of
    kernel helpers with number, prototype and documented results; map definitions, \<open>container_of\<close>,
    \<open>bpf_printk\<close>, the attributes of \<open>SEC\<close> and its relatives, and the members that carry values in their
    types.
  \<^descr> \<open>Bpf_Uapi_Codes\<close>, \<open>Bpf_Uapi_Structs\<close>, \<open>Bpf_Interface\<close> (\<^verbatim>\<open>bpf.h\<close>): all enumerations, flags and
    operation codes, and all structures with their binary layout. Helper numbers of the two headers
    agree; lemmas check the layouts and that what the programs spell out as numbers (actions, map
    types, context offsets, helper calls) is what the header defines.
  \<^descr> \<open>Xdp_Context\<close>, \<open>Packet_Parse\<close> (\<^verbatim>\<open>tcp_syn_kern.h\<close>): the packet as bytes behind 64-bit pointers,
    where a read outside of it is a fault, and the parsers over it. They stay inside the packet and
    return the field, or -1, that the wire format prescribes; \<open>classify\<close> is the reference.
  \<^descr> \<open>Xdp_Sock_Prog\<close>, \<open>Xdp_Event_Prog\<close> (the two \<^verbatim>\<open>tcp_syn_kern.c\<close>): the whole programs. They never
    fault and return what the classification of the frame prescribes; the socket program redirects
    exactly the TCP frames for port 7777, the event program writes a record for exactly those.
  \<^descr> \<open>Xsk_Ring\<close>, \<open>Xsk_Socket\<close> (\<^verbatim>\<open>xdp.go\<close>): the record \<open>socket\<close> and all its operations, with rings
    indexed by wrapping 32-bit counters and masks, flags per frame, and panics as values.
  \<^descr> \<open>Xsk_Queues\<close>: the rings as queues. The locales \<open>ring_producer\<close> (interpreted for \<open>Fill\<close> and
    \<open>Transmit\<close>) and \<open>ring_consumer\<close> (for \<open>Receive\<close> and \<open>Complete\<close>) are the contract; each
    operation is shown to refine appending to or taking from a queue, wrap-around included.
  \<^descr> \<open>Xsk_Frames\<close>: the socket next to the kernel as a step relation; no frame is lost, duplicated or
    shared in any reachable state, as long as user space sends only frames it got for sending. It
    also shows what goes wrong otherwise.
  \<^descr> \<open>Xsk_Race\<close>: the four operations on rings broken up into single accesses, interleaved with the
    kernel's; the interleavings have the effect of the operation as one step. The locales
    \<open>atomic_producer\<close> and \<open>atomic_consumer\<close> extend those of \<open>Xsk_Queues\<close>; \<open>Fill\<close> and \<open>Transmit\<close>, \<open>Receive\<close>
    and \<open>Complete\<close> are their instances.
  \<^descr> \<open>Xsk_Memory\<close>: the same with stores that wait in a buffer (\<open>bstep\<close>) and loads that are done out of
    order (\<open>lstep\<close>). What \<open>Xsk_Race\<close> shows of \<open>Fill\<close>, \<open>Transmit\<close> and \<open>Receive\<close> holds on machines that keep
    stores in order and do not move loads over counters, and on all machines with the fences that are
    commented out in the source. \<open>Fill_accesses\<close> is the sequence of stores that \<open>Fill\<close> makes; run on a
    machine that reorders stores it lets the kernel take stale entries, and with the fence put in it
    does not.
  \<^descr> \<open>Xsk_Slices\<close>: \<open>GetDescs\<close>, \<open>Receive\<close> and the receive loop over a store of arrays, since the slices
    they return share the buffers of the socket. The locale \<open>slice_writer\<close> is the contract of such an
    operation; the loop has the results of the loop over values, and a slice kept over the next call
    is shown to be overwritten.
  \<^descr> \<open>Xsk_New\<close> (\<open>NewSocket\<close>): the sequence of system calls, with the file descriptors and mappings that
    the process holds (\<open>resources\<close>). With suitable ring sizes its sockets satisfy the invariant that
    all other operations assume; what its error paths and \<open>Close\<close> leave behind is counted exactly.
  \<^descr> \<open>Default_Prog\<close>, \<open>Xdp_Program\<close> (both \<^verbatim>\<open>program.go\<close>): the eBPF instructions of \<open>NewProgram\<close> with an
    interpreter, and \<open>Program\<close> with \<open>Register\<close>, \<open>Attach\<close>, \<open>Detach\<close> and \<open>Close\<close>. The library is a record of
    operations on a state of its own (\<open>ebpf_lib\<close>), and the locale \<open>ebpf_maps\<close> says what is used of it:
    which maps are open, of which type, and what they hold. \<open>program_maps\<close> are the operations on the two
    maps of a \<open>Program\<close>; the locales \<open>socket_maps\<close> and \<open>queue_maps\<close> are their contract, which \<open>ebpf_maps\<close>
    gives for any two maps. The locale \<open>xdp_link\<close> says what is used of netlink: a program is attached per
    interface, a lookup by index returns the link with this index, and attaching acts on the interface
    whose index the link carries; \<open>removal_shows\<close> says the same of removals. Registration is related to
    what the XDP program then does with frames, in every intermediate state.
  \<^descr> \<open>Xdp_Registry\<close>: sequences of \<open>Register\<close> and \<open>Unregister\<close>, for several sockets that share a \<open>Program\<close>,
    over any maps that satisfy \<open>queue_maps\<close>: the last call for a queue decides what happens to its frames.
    On the array of \<open>NewProgram\<close> \<open>Unregister\<close> always fails, which is shown in \<open>Xdp_Program\<close>.
  \<^descr> \<open>Bpf_Typing\<close>: a check of register types along all paths of such a list of instructions, as the
    kernel does it before loading; accepted programs end without fault, and the list of \<open>NewProgram\<close>
    is accepted.
  \<^descr> \<open>Xdp_Loaders\<close> (\<^verbatim>\<open>tcpsyn_bpfel.go\<close>, \<^verbatim>\<open>tcp_syn_kern.go\<close>): generated loaders and \<open>NewTCPSynProgram\<close>; the
    locale \<open>closing_link\<close>, that closing maps and programs detaches nothing.
  \<^descr> \<open>Object_File\<close>: the sections and symbols of the compiled programs, and the tags of the generated code,
    which name them.
  \<^descr> \<open>Dump_Frames\<close>, \<open>Dump_Loop\<close>, \<open>Dump_Main\<close> (\<^verbatim>\<open>dumpframes/src/dumpframes.go\<close>): one iteration of the
    loop, the loop with a kernel that delivers and takes frames while the program waits in \<open>poll\<close>, and
    \<open>main\<close> with its deferred calls. Every packet the kernel receives is handed out once, in order, with
    its bytes; while \<open>main\<close> is in the loop the program it loaded is on the right interface and redirects,
    by the contents of its own maps, exactly the wanted frames; every exit after that detaches and
    closes it. The locale \<open>dump_world\<close> joins the contracts of links and maps on one state. That the kernel
    also works while \<open>Fill\<close> and \<open>Receive\<close> run is the subject of \<open>Xsk_Race\<close> and \<open>Xsk_Memory\<close>, one operation
    at a time, not of the loop.
  \<^descr> \<open>Event_Main\<close> (\<^verbatim>\<open>perf_event/src/dumpframes.go\<close>): the same for the event reader. The reader and the
    helpers of the kernel act on the state with the ring buffers (locale \<open>event_world\<close>); frames arrive
    between and during the calls of \<open>Read\<close>. The samples printed are the records of the matching frames,
    with the zeros after them that the comment in the code speaks of.
  \<^descr> \<open>Client_Main\<close> (\<^verbatim>\<open>client/main.py\<close>, \<^verbatim>\<open>handler.py\<close>): the script as a computation over the answers it
    gets and the packets it sends, its exchange and its failures for packets that can be built, and what
    the XDP program does with its packets.
  \<^descr> This theory: the two XDP programs pick out the same frames.

  \<^bold>\<open>Bounds and loops.\<close> The VLAN loop of the parser recurs at most \<open>VLAN_MAX_DEPTH\<close> = 2 times and
  terminates by that measure, \<open>get_loop\<close> of \<open>GetDescs\<close> by the frames left. The interpreter takes a
  number of instructions: 17, the length of the program of \<open>NewProgram\<close>, is shown to be enough for
  every context, and one step per slot for every machine state. Loops that wait for the outside take
  the list of answers they get: the results of \<open>sendto\<close> and \<open>poll\<close>, of which all but the last are
  interruptions, and the activities of the kernel while \<open>Read\<close> waits; a list that ends before the loop
  does is a call that has not returned yet. \<open>wait_detached\<close>, which polls netlink until a program has gone, is a
  partial function; that it returns is shown from the hypothesis that a removal requested for a link shows there after
  finitely many queries. \<open>pad\<close> of the client is another one, and shown to return for short payloads only. Go's \<open>int\<close> is an unbounded \<open>int\<close> where the code counts frames, all counters shared with
  the kernel are 32-bit words, addresses 64-bit words.

  \<^bold>\<open>Assumptions.\<close> The network headers of Linux (\<open>net_uapi\<close>), the kernel helpers, the system calls,
  \<^verbatim>\<open>cilium/ebpf\<close>, \<^verbatim>\<open>netlink\<close>, \<^verbatim>\<open>scapy\<close> and the reader of the ring buffer are parameters; what is used of them
  is a hypothesis or a law of a locale, and concrete instances show that it can hold. The memory
  fences of \<^verbatim>\<open>xdp.go\<close> are commented out in the source: the theories that take an operation on a ring as
  one step are right for x86, which \<open>Xsk_Memory\<close> justifies, and not for machines that reorder more. In \<open>Xsk_Socket\<close> and the theories on it \<open>GetDescs\<close> and \<open>Receive\<close> return values; \<open>Xsk_Slices\<close> relates
  them to the slices of the code.

  \<^bold>\<open>Not modelled.\<close> Command line flags, log output and the decoding of frames with \<^verbatim>\<open>gopacket\<close> for the
  log, which only print; the descriptions of system call and helpers in comments of \<^verbatim>\<open>bpf.h\<close>, which
  document kernel code; deployment files. The headers under \<^verbatim>\<open>perf_event\<close> that repeat those of
  \<^verbatim>\<open>dumpframes\<close> are modelled once. Accesses of the kernel to a ring are single steps in its own order,
  since its code is not part of the repository.
\<close>

section \<open>The two XDP programs together\<close>

text \<open>
  C34: the two programs agree on every frame, even when they are built for different byte orders: on
  a queue whose entry is set, with a socket behind it and room in the ring buffer, the socket program
  redirects exactly the frames for which the event program writes one record, and otherwise the two
  return the same action.
\<close>

theorem programs_agree:
  assumes "ctx_ok c" and "net_uapi_ok u"
    and "qidconf_lookup env (rx_queue_index (md c)) = Some q" and "q \<noteq> 0"
    and "redirect_map env (rx_queue_index (md c)) 0 = 4"
    and "\<And>t fmt n args. snd (trace_printk env' t fmt n args) = t"
    and "\<And>t d flags. ringbuf_output env' t d flags = (0, t @ [d])"
  shows "\<exists>a a' s'. xdp_sock_prog u bo env c = Inr (xdp_code a) \<and>
    perf_event_test u bo' env' c s = Inr (xdp_code a', s') \<and>
    (a = XDP_REDIRECT \<longleftrightarrow> s' = s @ [hello_buf]) \<and> (a \<noteq> XDP_REDIRECT \<longrightarrow> s' = s \<and> a' = a) \<and>
    (a = XDP_REDIRECT \<longrightarrow> a' = XDP_PASS)"
proof (cases "classify u (pkt c)")
  case (Tcp off)
  have log: "log_tcp u bo' env' s (pkt c) off = s"
    by (simp add: log_tcp_def bpf_printk_def assms(6))
  have r: "word_of_int (redirect_map env (rx_queue_index (md c)) 0) = xdp_code XDP_REDIRECT"
    using assms(5) by simp
  show ?thesis
  proof (cases "dest_port u (pkt c) off = TCP_PORT")
    case True
    with Tcp log r assms(3,4,7) show ?thesis
      by (intro exI [of _ XDP_REDIRECT] exI [of _ XDP_PASS] exI [of _ "s @ [hello_buf]"])
        (simp add: xdp_sock_prog_eq [OF assms(1,2)] perf_event_test_eq [OF assms(1,2)] sock_spec_def
          event_spec_def TCP_PORT_def EVENT_PORT_def)
  next
    case False
    with Tcp log assms(3) show ?thesis
      by (intro exI [of _ XDP_PASS] exI [of _ s])
        (simp add: xdp_sock_prog_eq [OF assms(1,2)] perf_event_test_eq [OF assms(1,2)] sock_spec_def
          event_spec_def TCP_PORT_def EVENT_PORT_def)
  qed
next
  case Not_Tcp
  with assms(3) show ?thesis
    by (intro exI [of _ XDP_PASS] exI [of _ s])
      (simp add: xdp_sock_prog_eq [OF assms(1,2)] perf_event_test_eq [OF assms(1,2)] sock_spec_def event_spec_def)
next
  case Malformed
  with assms(3) show ?thesis
    by (intro exI [of _ XDP_ABORTED] exI [of _ s])
      (simp add: xdp_sock_prog_eq [OF assms(1,2)] perf_event_test_eq [OF assms(1,2)] sock_spec_def event_spec_def)
qed

text \<open>A ring buffer without a limit, for the witness.\<close>

definition demo_unbounded :: "u8 list list event_env" where
  "demo_unbounded = \<lparr>ringbuf_output = (\<lambda>s d flags. (0, s @ [d])),
     trace_printk = (\<lambda>s fmt n args. (int n, s))\<rparr>"

theorem programs_agree_witness:
  "\<exists>a a' s'. xdp_sock_prog linux_net_uapi Little_Endian demo_env (demo_ctx 0 demo_frame) = Inr (xdp_code a) \<and>
    perf_event_test linux_net_uapi Big_Endian demo_unbounded (demo_ctx 0 demo_frame) [] = Inr (xdp_code a', s') \<and>
    (a = XDP_REDIRECT \<longleftrightarrow> s' = [hello_buf])"
proof -
  have "qidconf_lookup demo_env (rx_queue_index (md (demo_ctx 0 demo_frame))) = Some 1"
    and "redirect_map demo_env (rx_queue_index (md (demo_ctx 0 demo_frame))) 0 = 4"
    by (simp_all add: demo_env_def demo_ctx_def demo_md_def)
  moreover have "snd (trace_printk demo_unbounded t fmt n args) = t" for t fmt n args
    by (simp add: demo_unbounded_def)
  moreover have "ringbuf_output demo_unbounded t d flags = (0, t @ [d])" for t d flags
    by (simp add: demo_unbounded_def)
  ultimately obtain a a' s' where
    "xdp_sock_prog linux_net_uapi Little_Endian demo_env (demo_ctx 0 demo_frame) = Inr (xdp_code a)"
    and "perf_event_test linux_net_uapi Big_Endian demo_unbounded (demo_ctx 0 demo_frame) [] =
      Inr (xdp_code a', s')"
    and "a = XDP_REDIRECT \<longleftrightarrow> s' = [] @ [hello_buf]"
    using programs_agree [OF demo_ctx_ok linux_net_uapi_ok, of demo_env 0 1 demo_unbounded Little_Endian
        Big_Endian "[]"] by (metis one_neq_zero)
  then show ?thesis by (intro exI [of _ a] exI [of _ a'] exI [of _ s']) simp
qed

end
